theory Spec2Isabelle
  imports Complex_Main
begin

section \<open>JavaScript values used by the handlers\<close>

text \<open>
  JSON values as they appear in error details and response metadata.
\<close>

datatype json =
    JNull
  | JNum int
  | JStr string
  | JArr "json list"
  | JObj "(string \<times> json) list"

text \<open>
  A string is falsy in JavaScript exactly when it is empty; an absent
  (\<open>undefined\<close> or \<open>null\<close>) value is falsy as well.
\<close>

definition truthy :: "string option \<Rightarrow> bool" where
  "truthy v = (case v of None \<Rightarrow> False | Some s \<Rightarrow> s \<noteq> [])"

text \<open>\<open>v || d\<close> on an optional string.\<close>

definition or_else :: "string option \<Rightarrow> string \<Rightarrow> string" where
  "or_else v d = (case v of None \<Rightarrow> d | Some s \<Rightarrow> if s = [] then d else s)"

text \<open>
  A string is the sequence of its bytes in UTF-8. What \<open>String.prototype.toLowerCase\<close>,
  \<open>toUpperCase\<close> and \<open>trim\<close> make of a string is the platform's business (they follow
  the Unicode case mappings and white space), so the handlers take these three
  functions from the environment they run in (see \<open>env\<close> below).

  The functions defined here are their restrictions to ASCII: they change the ASCII
  letters only, and strip the ASCII white space only. They stand for the platform's
  functions in the sample runs, whose strings are ASCII, and \<open>ascii_lower\<close> says what
  a host name in lower case is.
\<close>

definition lower_char :: "char \<Rightarrow> char" where
  "lower_char c =
     (let n = (of_char c :: nat) in if 65 \<le> n \<and> n \<le> 90 then char_of (n + 32) else c)"

definition upper_char :: "char \<Rightarrow> char" where
  "upper_char c =
     (let n = (of_char c :: nat) in if 97 \<le> n \<and> n \<le> 122 then char_of (n - 32) else c)"

definition ascii_lower :: "string \<Rightarrow> string" where
  "ascii_lower s = map lower_char s"

definition ascii_upper :: "string \<Rightarrow> string" where
  "ascii_upper s = map upper_char s"

text \<open>The ASCII white space characters, and the string without them at its ends.\<close>

definition is_space :: "char \<Rightarrow> bool" where
  "is_space c = ((of_char c :: nat) \<in> {9, 10, 11, 12, 13, 32})"

definition ascii_trim :: "string \<Rightarrow> string" where
  "ascii_trim s = rev (dropWhile is_space (rev (dropWhile is_space s)))"

text \<open>\<open>s.startsWith(t)\<close> and \<open>s.includes(t)\<close>.\<close>

fun starts_with :: "string \<Rightarrow> string \<Rightarrow> bool" where
  "starts_with s [] = True"
| "starts_with [] (c # t) = False"
| "starts_with (d # s) (c # t) = (d = c \<and> starts_with s t)"

fun str_includes :: "string \<Rightarrow> string \<Rightarrow> bool" where
  "str_includes [] t = (t = [])"
| "str_includes (c # s) t = (starts_with (c # s) t \<or> str_includes s t)"

text \<open>\<open>xs.join(sep)\<close>.\<close>

fun join :: "string \<Rightarrow> string list \<Rightarrow> string" where
  "join sep [] = []"
| "join sep [x] = x"
| "join sep (x # y # ys) = x @ sep @ join sep (y # ys)"

text \<open>The decimal rendering of a number inside a template string.\<close>

definition digit_char :: "nat \<Rightarrow> char" where
  "digit_char d = char_of (48 + d)"

fun show_nat :: "nat \<Rightarrow> string" where
  "show_nat n = (if n < 10 then [digit_char n] else show_nat (n div 10) @ [digit_char (n mod 10)])"

declare show_nat.simps [simp del]

section \<open>Errors (lib/errors.js) and responses (lib/response.js)\<close>

record app_error =
  code :: string
  message :: string
  status :: nat
  details :: json

definition AppError :: "string \<Rightarrow> string \<Rightarrow> nat \<Rightarrow> json \<Rightarrow> app_error" where
  "AppError c m s d = \<lparr>code = c, message = m, status = s, details = d\<rparr>"

definition ValidationError :: "string \<Rightarrow> json \<Rightarrow> app_error" where
  "ValidationError m d = AppError ''VALIDATION_ERROR'' m 400 d"

definition NotFoundError :: "string \<Rightarrow> app_error" where
  "NotFoundError resource = AppError ''NOT_FOUND'' (resource @ '' not found'') 404 JNull"

definition UnauthorizedError :: app_error where
  "UnauthorizedError = AppError ''UNAUTHORIZED'' ''Invalid or missing API key'' 401 JNull"

definition DuplicateError :: "string \<Rightarrow> app_error" where
  "DuplicateError resource = AppError ''DUPLICATE_ERROR'' (resource @ '' already exists'') 409 JNull"

definition ExternalApiError :: "string \<Rightarrow> string \<Rightarrow> app_error" where
  "ExternalApiError service originalError =
     AppError ''EXTERNAL_API_ERROR'' (service @ '' API error: '' @ originalError) 502 JNull"

definition DatabaseError :: "string \<Rightarrow> string \<Rightarrow> app_error" where
  "DatabaseError operation originalMessage =
     AppError ''DATABASE_ERROR'' (''Database '' @ operation @ '' failed'') 500
       (JObj [(''originalError'', JStr originalMessage)])"

text \<open>
  The error object the store client returns in the \<open>error\<close> field of its result:
  the SQLSTATE code, the message, and the constraint and column names where the
  store reports them.
\<close>

record db_error =
  db_code :: string
  db_message :: string
  db_constraint :: "string option"
  db_column :: "string option"

text \<open>
  A property that may be missing, interpolated into a template string, and as a member
  of an object serialised to JSON (a member whose value is \<open>undefined\<close> is left out).
\<close>

definition interpolate :: "string option \<Rightarrow> string" where
  "interpolate v = (case v of None \<Rightarrow> ''undefined'' | Some s \<Rightarrow> s)"

definition json_member :: "string \<Rightarrow> string option \<Rightarrow> (string \<times> json) list" where
  "json_member name v = (case v of None \<Rightarrow> [] | Some s \<Rightarrow> [(name, JStr s)])"

definition mapSupabaseError :: "db_error \<Rightarrow> string \<Rightarrow> app_error" where
  "mapSupabaseError error operation =
     (if db_code error = ''23505'' then DuplicateError ''Record''
      else if db_code error = ''23503'' then
        ValidationError ''Referenced record does not exist''
          (JObj (json_member ''constraint'' (db_constraint error)))
      else if db_code error = ''23502'' then
        ValidationError (''Required field is null: '' @ interpolate (db_column error)) JNull
      else DatabaseError operation (db_message error))"

text \<open>
  What a handler's \<open>try\<close> block can throw: one of the application's own errors, the
  store's error object thrown as it is, a run-time \<open>TypeError\<close>, or a plain \<open>Error\<close>
  (as lib/dataforseo.js throws, and as \<open>fetch\<close> and \<open>response.json()\<close> do). The last
  two carry their message.
\<close>

datatype thrown = App app_error | Store db_error | TypeError string | Error string

text \<open>\<open>err.message\<close>\<close>

definition message_of :: "thrown \<Rightarrow> string" where
  "message_of err =
     (case err of App e \<Rightarrow> message e | Store e \<Rightarrow> db_message e | TypeError m \<Rightarrow> m | Error m \<Rightarrow> m)"

text \<open>
  A response: the HTTP status and the JSON envelope. The success envelope carries
  the data and the metadata; the failure envelope the error code, the message and,
  for application errors, the details.
\<close>

datatype 'd envelope =
    SuccessBody 'd "(string \<times> json) list"
  | ErrorBody string string "json option"

datatype 'd response = Response (http_status: nat) (envelope: "'d envelope")

definition success :: "string \<Rightarrow> 'd \<Rightarrow> (string \<times> json) list \<Rightarrow> 'd response" where
  "success timestamp data meta =
     Response 200 (SuccessBody data ((''timestamp'', JStr timestamp) # meta))"

definition error :: "thrown \<Rightarrow> 'd response" where
  "error err =
     (case err of
        App e \<Rightarrow> Response (status e) (ErrorBody (code e) (message e) (Some (details e)))
      | _ \<Rightarrow> Response 500 (ErrorBody ''INTERNAL_ERROR'' ''An unexpected error occurred'' None))"

text \<open>
  What \<open>error\<close> writes with \<open>console.error\<close> before it responds: a line for a
  thrown value that is no application error.
\<close>

definition error_console :: "thrown \<Rightarrow> string list" where
  "error_console err = (case err of App e \<Rightarrow> [] | _ \<Rightarrow> [''Unexpected error:''])"

section \<open>Requests, environment and authentication (lib/auth.js)\<close>

text \<open>
  What a handler takes from the process it runs in: the environment variables it
  reads, the clock \<open>new Date()\<close> reads, and the platform's \<open>String.prototype\<close> methods
  \<open>toLowerCase\<close>, \<open>toUpperCase\<close> and \<open>trim\<close>.
\<close>

record env =
  API_KEY :: "string option"
  DATAFORSEO_LOGIN :: "string option"
  DATAFORSEO_PASSWORD :: "string option"
  clock :: string
  toLowerCase :: "string \<Rightarrow> string"
  toUpperCase :: "string \<Rightarrow> string"
  trim :: "string \<Rightarrow> string"

record 'b request =
  req_method :: string
  x_api_key :: "string option"
  body :: 'b

definition verifyApiKey :: "('b, 'm) request_scheme \<Rightarrow> ('e) env_scheme \<Rightarrow> bool" where
  "verifyApiKey req E = (x_api_key req = API_KEY E)"

section \<open>Validation helpers (lib/validate.js)\<close>

text \<open>
  \<open>validateRequired(body, fields)\<close>: each field comes with the fact whether
  \<open>body[field]\<close> is present (neither \<open>undefined\<close> nor \<open>null\<close>).
\<close>

definition validateRequired :: "(string \<times> bool) list \<Rightarrow> thrown + unit" where
  "validateRequired required =
     (let missing = map fst (filter (\<lambda>(field, present). \<not> present) required) in
      if length missing > 0 then
        Inl (App (ValidationError (''Missing required field(s): '' @ join '', '' missing)
                   (JObj [(''missing'', JArr (map JStr missing))])))
      else Inr ())"

text \<open>
  \<open>validateType(value, name, expectedType)\<close>, given the value's actual type
  (\<open>'array'\<close> for an array, its \<open>typeof\<close> otherwise).
\<close>

definition validateType :: "string \<Rightarrow> string \<Rightarrow> string \<Rightarrow> thrown + unit" where
  "validateType actualType name expectedType =
     (if actualType \<noteq> expectedType then
        Inl (App (ValidationError (''Invalid type for '' @ name)
                   (JObj [(''field'', JStr name), (''expected'', JStr expectedType),
                          (''received'', JStr actualType)])))
      else Inr ())"

definition validateEnum :: "string \<Rightarrow> string \<Rightarrow> string list \<Rightarrow> thrown + unit" where
  "validateEnum v name allowedValues =
     (if v \<notin> set allowedValues then
        Inl (App (ValidationError (''Invalid value for '' @ name)
                   (JObj [(''field'', JStr name), (''allowed'', JArr (map JStr allowedValues)),
                          (''received'', JStr v)])))
      else Inr ())"

definition validateMethod :: "('b, 'm) request_scheme \<Rightarrow> string list \<Rightarrow> thrown + unit" where
  "validateMethod req methods =
     (if req_method req \<notin> set methods then
        Inl (App (ValidationError (''Method '' @ req_method req @ '' not allowed'')
                   (JObj [(''allowed'', JArr (map JStr methods)),
                          (''received'', JStr (req_method req))])))
      else Inr ())"

section \<open>The external collaborators: store and metrics provider\<close>

text \<open>
  A working-set entry: a stored keyword row (with its identifier) or an inline keyword
  (identifier \<open>null\<close>). The text of an inline keyword is what the request gives under
  \<open>text\<close>: \<open>None\<close> where it gives no string there.
\<close>

record keyword_row =
  kw_id :: "string option"
  keyword_text :: "string option"
  kw_country :: "string option"

record competitor =
  competitor_id :: string
  competitor_domain :: string

text \<open>One record of the provider's search-volume result; a field the provider omits is \<open>None\<close>.\<close>

record provider_record =
  r_keyword :: "string option"
  r_search_volume :: "rat option"
  r_keyword_difficulty :: "rat option"
  r_cpc :: "rat option"
  r_competition :: "rat option"

text \<open>One item of the provider's SERP result.\<close>

record serp_item =
  item_type :: string
  rank_absolute :: nat
  url :: string
  title :: string

text \<open>
  What one HTTP call to the provider comes to: \<open>fetch\<close> or \<open>response.json()\<close> throws an
  error with a message, or a JSON document arrives. Of the document the code reads
  \<open>status_code\<close>, \<open>status_message\<close> and the first task \<open>tasks?.[0]\<close> (\<open>None\<close> where
  there is none), and of the task its own \<open>status_code\<close> and \<open>status_message\<close> and its
  \<open>result\<close> (\<open>None\<close> where it is \<open>null\<close> or missing). The result of a search-volume
  task is the list of records; the result of a SERP task is a list of blocks, of which
  the first one's \<open>items\<close> are read.
\<close>

record 'r task =
  task_status_code :: nat
  task_status_message :: "string option"
  task_result :: "'r list option"

record serp_block =
  block_items :: "serp_item list option"

datatype 'r fetch_outcome =
    Threw string
  | Replied nat "string option" "'r task option"

text \<open>\<open>tasks?.[0]?.result || []\<close> and \<open>result[0]?.items || []\<close>\<close>

definition first_task_result :: "'r task option \<Rightarrow> 'r list" where
  "first_task_result tasks =
     (case tasks of
        None \<Rightarrow> []
      | Some task \<Rightarrow> (case task_result task of None \<Rightarrow> [] | Some rs \<Rightarrow> rs))"

definition first_block_items :: "serp_block list \<Rightarrow> serp_item list" where
  "first_block_items result =
     (case result of
        [] \<Rightarrow> []
      | block # _ \<Rightarrow> (case block_items block of None \<Rightarrow> [] | Some items \<Rightarrow> items))"

text \<open>
  The collaborators of one request. The store answers the select on \<open>keywords\<close> with
  the rows whose id is among those asked for, or with an error; it answers the select
  on \<open>competitors\<close> with rows or with \<open>null\<close> data; the n-th insert of the request
  returns an error or none. The provider's answer to the n-th call may depend on the
  payload. \<open>hostname_of\<close> is the platform's URL parser: the \<open>hostname\<close> of
  \<open>new URL(s)\<close>, \<open>None\<close> where the constructor throws.
\<close>

record collaborators =
  keywords_table :: "keyword_row list"
  keywords_select_error :: "db_error option"
  competitors_data :: "competitor list option"
  insert_error :: "nat \<Rightarrow> db_error option"
  metrics_reply :: "nat \<Rightarrow> string option list \<Rightarrow> nat option \<Rightarrow> provider_record fetch_outcome"
  serp_reply :: "nat \<Rightarrow> string option \<Rightarrow> nat option \<Rightarrow> serp_block fetch_outcome"
  hostname_of :: "string \<Rightarrow> string option"

definition select_keywords_in :: "collaborators \<Rightarrow> string list \<Rightarrow> db_error + keyword_row list" where
  "select_keywords_in X ids =
     (case keywords_select_error X of
        Some e \<Rightarrow> Inl e
      | None \<Rightarrow>
          Inr (filter (\<lambda>k. case kw_id k of None \<Rightarrow> False | Some i \<Rightarrow> i \<in> set ids)
                 (keywords_table X)))"

text \<open>
  The effects of a request that the claims speak about: the payloads sent to the
  provider, the rows handed to the store's insert, and the lines written with
  \<open>console.error\<close>, each in order.
\<close>

record metric_row =
  m_keyword_id :: string
  m_search_volume :: rat
  m_difficulty :: rat
  m_cpc :: rat
  m_competition :: rat

record serp_row =
  s_keyword_id :: "string option"
  s_position :: nat
  s_url :: string
  s_domain :: string
  s_title :: string
  s_is_hoxton :: bool

record competitor_row =
  c_keyword_id :: "string option"
  c_competitor_id :: string
  c_position :: nat
  c_url :: string

datatype provider_call =
    MetricsCall "string option list" "nat option"
  | SerpCall "string option" "nat option"

datatype insert_call =
    InsertMetric metric_row
  | InsertSerp "serp_row list"
  | InsertCompetitor "competitor_row list"

record world =
  calls :: "provider_call list"
  inserts :: "insert_call list"
  console :: "string list"

definition world0 :: world where
  "world0 = \<lparr>calls = [], inserts = [], console = []\<rparr>"

text \<open>
  \<open>await supabase.from(table).insert(rows)\<close> followed by
  \<open>if (error) console.error(line, error)\<close>: the failure is logged and nothing else
  happens.
\<close>

definition insert_logged :: "collaborators \<Rightarrow> insert_call \<Rightarrow> string \<Rightarrow> world \<Rightarrow> world" where
  "insert_logged X rows line w =
     (case insert_error X (length (inserts w)) of
        None \<Rightarrow> w\<lparr>inserts := inserts w @ [rows]\<rparr>
      | Some e \<Rightarrow> w\<lparr>inserts := inserts w @ [rows], console := console w @ [line]\<rparr>)"

text \<open>The \<open>catch\<close> block of a handler: \<open>return error(res, err)\<close>, with what it logs.\<close>

definition respond_error :: "thrown \<Rightarrow> world \<Rightarrow> 'd response \<times> world" where
  "respond_error err w = (error err, w\<lparr>console := console w @ error_console err\<rparr>)"

section \<open>Country groups and location codes (api/enrich)\<close>

definition COUNTRY_TO_LOCATION :: "(string \<times> nat) list" where
  "COUNTRY_TO_LOCATION =
     [(''UK'', 2826), (''US'', 2840), (''UAE'', 2784), (''AU'', 2036), (''SG'', 2702),
      (''HK'', 2344)]"

definition VALID_COUNTRIES :: "string list" where
  "VALID_COUNTRIES = [''UK'', ''US'', ''UAE'', ''AU'', ''CA'', ''SG'', ''HK'']"

definition HOXTON_DOMAIN :: string where
  "HOXTON_DOMAIN = ''hoxtonwealth.com''"

text \<open>
  Both \<open>COUNTRY_TO_LOCATION\<close> and the accumulator of the grouping are plain objects,
  so a property read that finds no own property continues in \<open>Object.prototype\<close>.
  These are its property names; each holds a function or an object, hence a truthy
  value that is no number and has no \<open>push\<close>.
\<close>

definition object_prototype_keys :: "string list" where
  "object_prototype_keys =
     [''constructor'', ''__defineGetter__'', ''__defineSetter__'', ''hasOwnProperty'',
      ''__lookupGetter__'', ''__lookupSetter__'', ''isPrototypeOf'',
      ''propertyIsEnumerable'', ''toString'', ''valueOf'', ''__proto__'',
      ''toLocaleString'']"

text \<open>
  \<open>COUNTRY_TO_LOCATION[country] || 2826\<close>. The result is the number put into the
  payload; it is \<open>None\<close> where the read yields an inherited member instead of a number.
\<close>

definition locationCode :: "string \<Rightarrow> nat option" where
  "locationCode country =
     (case map_of COUNTRY_TO_LOCATION country of
        Some n \<Rightarrow> Some n
      | None \<Rightarrow> if country \<in> set object_prototype_keys then None else Some 2826)"

text \<open>
  The grouping \<open>keywordsToEnrich.reduce(..., {})\<close>. The accumulator object is the list
  of its own properties in the order of their creation.
\<close>

definition group_step ::
  "(string \<times> keyword_row list) list \<Rightarrow> keyword_row \<Rightarrow> thrown + (string \<times> keyword_row list) list"
where
  "group_step acc kw =
     (let country = or_else (kw_country kw) ''UK'' in
      case map_of acc country of
        Some kws \<Rightarrow> Inr (map (\<lambda>(c, ks). if c = country then (c, ks @ [kw]) else (c, ks)) acc)
      | None \<Rightarrow>
          if country \<in> set object_prototype_keys
          then Inl (TypeError ''acc[country].push is not a function'')
          else Inr (acc @ [(country, [kw])]))"

fun reduce_groups ::
  "(string \<times> keyword_row list) list \<Rightarrow> keyword_row list \<Rightarrow> thrown + (string \<times> keyword_row list) list"
where
  "reduce_groups acc [] = Inr acc"
| "reduce_groups acc (kw # rest) =
     (case group_step acc kw of Inl e \<Rightarrow> Inl e | Inr acc' \<Rightarrow> reduce_groups acc' rest)"

text \<open>
  \<open>Object.entries\<close> lists the own properties whose names are array indices (canonical
  decimal numerals below \<open>2^32 - 1\<close>) first, in ascending numeric order, and the other
  string-named properties after them in the order of their creation.
\<close>

definition is_digit :: "char \<Rightarrow> bool" where
  "is_digit c = (48 \<le> (of_char c :: nat) \<and> (of_char c :: nat) \<le> 57)"

definition decimal :: "string \<Rightarrow> nat" where
  "decimal s = foldl (\<lambda>n c. 10 * n + ((of_char c :: nat) - 48)) 0 s"

definition is_array_index :: "string \<Rightarrow> bool" where
  "is_array_index s =
     (case s of
        [] \<Rightarrow> False
      | c # cs \<Rightarrow> list_all is_digit s \<and> (c \<noteq> CHR ''0'' \<or> cs = []) \<and> decimal s < 4294967295)"

definition object_entries :: "(string \<times> 'v) list \<Rightarrow> (string \<times> 'v) list" where
  "object_entries obj =
     sort_key (\<lambda>(k, v). decimal k) (filter (\<lambda>(k, v). is_array_index k) obj)
     @ filter (\<lambda>(k, v). \<not> is_array_index k) obj"

definition byCountry :: "keyword_row list \<Rightarrow> thrown + (string \<times> keyword_row list) list" where
  "byCountry keywordsToEnrich =
     (case reduce_groups [] keywordsToEnrich of
        Inl e \<Rightarrow> Inl e
      | Inr acc \<Rightarrow> Inr (object_entries acc))"

section \<open>POST /api/enrich/keywords (api/enrich/keywords.js)\<close>

record inline_keyword =
  k_text :: "string option"
  k_country :: "string option"

record enrich_body =
  keyword_ids :: "string list option"
  inline_keywords :: "inline_keyword list option"

text \<open>What \<open>fetchDataForSEO\<close> and \<open>fetchSERP\<close> return: \<open>{ error }\<close> or the result list.\<close>

record 'r provider_response =
  response_error :: "string option"
  response_results :: "'r list option"

definition fetchDataForSEO ::
  "env \<Rightarrow> collaborators \<Rightarrow> string option list \<Rightarrow> nat option \<Rightarrow> world
     \<Rightarrow> world \<times> (thrown + provider_record provider_response)"
where
  "fetchDataForSEO E X kws location w =
     (if \<not> truthy (DATAFORSEO_LOGIN E) \<or> \<not> truthy (DATAFORSEO_PASSWORD E) then
        (w, Inl (App (ValidationError ''DataForSEO credentials not configured'' JNull)))
      else
        let w' = w\<lparr>calls := calls w @ [MetricsCall kws location]\<rparr> in
        case metrics_reply X (length (calls w)) kws location of
          Threw err_message \<Rightarrow>
            (w', Inr \<lparr>response_error = Some err_message, response_results = None\<rparr>)
        | Replied status_code status_message tasks \<Rightarrow>
            if status_code \<noteq> 20000 then
              (w', Inr \<lparr>response_error = Some (or_else status_message ''API request failed''),
                        response_results = None\<rparr>)
            else
              (w', Inr \<lparr>response_error = None,
                        response_results = Some (first_task_result tasks)\<rparr>))"

text \<open>\<open>v || 0\<close> on a numeric field of the provider's record.\<close>

definition or0 :: "rat option \<Rightarrow> rat" where
  "or0 v = (case v of None \<Rightarrow> 0 | Some x \<Rightarrow> x)"

record metric_entry =
  e_keyword :: "string option"
  e_country :: string
  e_search_volume :: rat
  e_difficulty :: rat
  e_cpc :: rat
  e_competition :: rat

definition metric_entry_of :: "string \<Rightarrow> provider_record \<Rightarrow> metric_entry" where
  "metric_entry_of country result =
     \<lparr>e_keyword = r_keyword result, e_country = country,
      e_search_volume = or0 (r_search_volume result),
      e_difficulty = or0 (r_keyword_difficulty result),
      e_cpc = or0 (r_cpc result),
      e_competition = or0 (r_competition result)\<rparr>"

definition metric_row_of :: "string \<Rightarrow> provider_record \<Rightarrow> metric_row" where
  "metric_row_of keyword_id result =
     \<lparr>m_keyword_id = keyword_id,
      m_search_volume = or0 (r_search_volume result),
      m_difficulty = or0 (r_keyword_difficulty result),
      m_cpc = or0 (r_cpc result),
      m_competition = or0 (r_competition result)\<rparr>"

text \<open>
  \<open>kws.find(k => k.keyword_text.toLowerCase() === result.keyword.toLowerCase())\<close>: the
  entries are tried in order up to the first match. The comparison throws a
  \<open>TypeError\<close> at an entry that has no text and, when the entry has one, for a record
  that has no keyword.
\<close>

fun find_keyword :: "env \<Rightarrow> keyword_row list \<Rightarrow> provider_record \<Rightarrow> thrown + keyword_row option" where
  "find_keyword E [] result = Inr None"
| "find_keyword E (k # kws) result =
     (case keyword_text k of
        None \<Rightarrow> Inl (TypeError ''Cannot read properties of undefined (reading toLowerCase)'')
      | Some t \<Rightarrow>
          (case r_keyword result of
             None \<Rightarrow> Inl (TypeError ''Cannot read properties of undefined (reading toLowerCase)'')
           | Some r \<Rightarrow>
               if toLowerCase E t = toLowerCase E r then Inr (Some k)
               else find_keyword E kws result))"

text \<open>
  The inner loop over the records the provider returned for one country group. It is
  the same in both copies of the handler.
\<close>

fun process_results ::
  "env \<Rightarrow> collaborators \<Rightarrow> string \<Rightarrow> keyword_row list \<Rightarrow> provider_record list
     \<Rightarrow> world \<Rightarrow> metric_entry list \<Rightarrow> world \<times> (thrown + metric_entry list)"
where
  "process_results E X country kws [] w results = (w, Inr results)"
| "process_results E X country kws (result # rest) w results =
     (case find_keyword E kws result of
        Inl e \<Rightarrow> (w, Inl e)
      | Inr keyword \<Rightarrow>
          (let w' = (case keyword of
                       None \<Rightarrow> w
                     | Some k \<Rightarrow>
                         (case kw_id k of
                            None \<Rightarrow> w
                          | Some i \<Rightarrow>
                              if i \<noteq> [] then
                                insert_logged X (InsertMetric (metric_row_of i result))
                                  ''Failed to insert metrics:'' w
                              else w))
           in process_results E X country kws rest w' (results @ [metric_entry_of country result])))"

text \<open>The loop over the country groups.\<close>

fun enrich_groups ::
  "env \<Rightarrow> collaborators \<Rightarrow> (string \<times> keyword_row list) list
     \<Rightarrow> world \<Rightarrow> metric_entry list \<Rightarrow> world \<times> (thrown + metric_entry list)"
where
  "enrich_groups E X [] w results = (w, Inr results)"
| "enrich_groups E X ((country, kws) # rest) w results =
     (case fetchDataForSEO E X (map keyword_text kws) (locationCode country) w of
        (w1, Inl e) \<Rightarrow> (w1, Inl e)
      | (w1, Inr response) \<Rightarrow>
          if truthy (response_error response) then
            (w1, Inl (App (ExternalApiError ''DataForSEO'' (interpolate (response_error response)))))
          else
            (case process_results E X country kws
                    (case response_results response of None \<Rightarrow> [] | Some rs \<Rightarrow> rs) w1 results of
               (w2, Inl e) \<Rightarrow> (w2, Inl e)
             | (w2, Inr results') \<Rightarrow> enrich_groups E X rest w2 results'))"

text \<open>The resolution of the request into the working set, with its checks.\<close>

definition keywordsToEnrich :: "collaborators \<Rightarrow> enrich_body \<Rightarrow> thrown + keyword_row list" where
  "keywordsToEnrich X b =
     (if keyword_ids b = None \<and> inline_keywords b = None then
        Inl (App (ValidationError ''Must provide either keyword_ids or keywords array'' JNull))
      else
        case (case keyword_ids b of
                Some (i # ids) \<Rightarrow>
                  (case select_keywords_in X (i # ids) of
                     Inl dbError \<Rightarrow> Inl (App (mapSupabaseError dbError ''select''))
                   | Inr data \<Rightarrow> Inr data)
              | _ \<Rightarrow>
                  (case inline_keywords b of
                     Some (k # ks) \<Rightarrow>
                       Inr (map (\<lambda>k. \<lparr>kw_id = None, keyword_text = k_text k,
                                      kw_country = k_country k\<rparr>) (k # ks))
                   | _ \<Rightarrow> Inr []))
        of
          Inl e \<Rightarrow> Inl e
        | Inr ws \<Rightarrow>
            if length ws = 0 then
              Inl (App (ValidationError ''No keywords found to enrich'' JNull))
            else if length ws > 100 then
              Inl (App (ValidationError ''Maximum 100 keywords per request''
                         (JObj [(''received'', JNum (int (length ws))), (''maximum'', JNum 100)])))
            else Inr ws)"

definition enrich_keywords_try ::
  "env \<Rightarrow> collaborators \<Rightarrow> enrich_body request \<Rightarrow> world \<times> (thrown + metric_entry list)"
where
  "enrich_keywords_try E X req =
     (if \<not> verifyApiKey req E then (world0, Inl (App UnauthorizedError))
      else case validateMethod req [''POST''] of
        Inl e \<Rightarrow> (world0, Inl e)
      | Inr _ \<Rightarrow>
          (case keywordsToEnrich X (body req) of
             Inl e \<Rightarrow> (world0, Inl e)
           | Inr ws \<Rightarrow>
               (case byCountry ws of
                  Inl e \<Rightarrow> (world0, Inl e)
                | Inr groups \<Rightarrow> enrich_groups E X groups world0 [])))"

definition enrich_keywords_handler ::
  "env \<Rightarrow> collaborators \<Rightarrow> enrich_body request \<Rightarrow> metric_entry list response \<times> world"
where
  "enrich_keywords_handler E X req =
     (case enrich_keywords_try E X req of
        (w, Inl err) \<Rightarrow> respond_error err w
      | (w, Inr results) \<Rightarrow>
          (success (clock E) results
             [(''count'', JNum (int (length results))),
              (''message'', JStr (''Enriched '' @ show_nat (length results) @ '' keywords''))],
           w))"

section \<open>POST /api/enrich/serp (api/enrich/serp.js)\<close>

text \<open>
  A body field that must be an array: absent (\<open>undefined\<close> or \<open>null\<close>), a value that
  is no array (with its \<open>typeof\<close>), or an array.
\<close>

datatype 'a field = Absent | OfType string | ArrayOf "'a list"

definition actual_type :: "'a field \<Rightarrow> string" where
  "actual_type f = (case f of Absent \<Rightarrow> ''undefined'' | OfType t \<Rightarrow> t | ArrayOf xs \<Rightarrow> ''array'')"

definition elements :: "'a field \<Rightarrow> 'a list" where
  "elements f = (case f of ArrayOf xs \<Rightarrow> xs | _ \<Rightarrow> [])"

record serp_body =
  serp_keyword_ids :: "string field"

text \<open>
  \<open>extractDomain\<close>: the host name of the parsed URL without a leading \<open>www.\<close>; the
  URL itself where it does not parse.
\<close>

definition extractDomain :: "collaborators \<Rightarrow> string \<Rightarrow> string" where
  "extractDomain X u =
     (case hostname_of X u of
        Some hostname \<Rightarrow> if starts_with hostname ''www.'' then drop 4 hostname else hostname
      | None \<Rightarrow> u)"

definition fetchSERP ::
  "env \<Rightarrow> collaborators \<Rightarrow> string option \<Rightarrow> nat option \<Rightarrow> world
     \<Rightarrow> world \<times> (thrown + serp_item provider_response)"
where
  "fetchSERP E X kw location w =
     (if \<not> truthy (DATAFORSEO_LOGIN E) \<or> \<not> truthy (DATAFORSEO_PASSWORD E) then
        (w, Inl (App (ValidationError ''DataForSEO credentials not configured'' JNull)))
      else
        let w' = w\<lparr>calls := calls w @ [SerpCall kw location]\<rparr> in
        case serp_reply X (length (calls w)) kw location of
          Threw err_message \<Rightarrow>
            (w', Inr \<lparr>response_error = Some err_message, response_results = None\<rparr>)
        | Replied status_code status_message tasks \<Rightarrow>
            if status_code \<noteq> 20000 then
              (w', Inr \<lparr>response_error = Some (or_else status_message ''SERP API request failed''),
                        response_results = None\<rparr>)
            else
              (w', Inr \<lparr>response_error = None,
                        response_results =
                          Some (filter (\<lambda>item. item_type item = ''organic'')
                                  (first_block_items (first_task_result tasks)))\<rparr>))"

text \<open>
  \<open>new Map(competitors.map(c => [c.domain, c.id]))\<close>: of two entries with one domain
  the later one gives the value.
\<close>

definition competitorDomains :: "collaborators \<Rightarrow> string \<Rightarrow> string option" where
  "competitorDomains X =
     map_of (rev (map (\<lambda>c. (competitor_domain c, competitor_id c))
                    (case competitors_data X of None \<Rightarrow> [] | Some cs \<Rightarrow> cs)))"

definition serp_row_of :: "collaborators \<Rightarrow> keyword_row \<Rightarrow> serp_item \<Rightarrow> serp_row" where
  "serp_row_of X keyword item =
     (let domain = extractDomain X (url item);
          isHoxton = str_includes domain HOXTON_DOMAIN
      in \<lparr>s_keyword_id = kw_id keyword, s_position = rank_absolute item, s_url = url item,
          s_domain = domain, s_title = title item, s_is_hoxton = isHoxton\<rparr>)"

text \<open>The competitor records one item adds: one, where its domain is a tracked competitor's.\<close>

definition competitor_rows_of :: "collaborators \<Rightarrow> keyword_row \<Rightarrow> serp_item \<Rightarrow> competitor_row list" where
  "competitor_rows_of X keyword item =
     (let competitorId = competitorDomains X (extractDomain X (url item)) in
      if truthy competitorId then
        [\<lparr>c_keyword_id = kw_id keyword, c_competitor_id = interpolate competitorId,
          c_position = rank_absolute item, c_url = url item\<rparr>]
      else [])"

text \<open>The inner loop over the items of one keyword.\<close>

fun process_items ::
  "collaborators \<Rightarrow> keyword_row \<Rightarrow> serp_item list \<Rightarrow> serp_row list \<times> competitor_row list
     \<Rightarrow> serp_row list \<times> competitor_row list"
where
  "process_items X keyword [] (serpRecords, competitorRecords) = (serpRecords, competitorRecords)"
| "process_items X keyword (item # rest) (serpRecords, competitorRecords) =
     process_items X keyword rest
       (serpRecords @ [serp_row_of X keyword item],
        competitorRecords @ competitor_rows_of X keyword item)"

datatype serp_result =
    KeywordError "string option" string
  | KeywordSummary "string option" "string option" nat "nat option"

text \<open>
  \<open>items.find(i => extractDomain(i.url).includes(HOXTON_DOMAIN))?.rank_absolute || null\<close>
\<close>

definition hoxton_position :: "collaborators \<Rightarrow> serp_item list \<Rightarrow> nat option" where
  "hoxton_position X items =
     (case find (\<lambda>i. str_includes (extractDomain X (url i)) HOXTON_DOMAIN) items of
        None \<Rightarrow> None
      | Some i \<Rightarrow> if rank_absolute i = 0 then None else Some (rank_absolute i))"

text \<open>The loop over the keywords.\<close>

fun serp_keywords ::
  "env \<Rightarrow> collaborators \<Rightarrow> keyword_row list \<Rightarrow> world
     \<Rightarrow> serp_result list \<Rightarrow> serp_row list \<times> competitor_row list
     \<Rightarrow> world \<times> (thrown + serp_result list \<times> serp_row list \<times> competitor_row list)"
where
  "serp_keywords E X [] w results records = (w, Inr (results, records))"
| "serp_keywords E X (keyword # rest) w results records =
     (case fetchSERP E X (keyword_text keyword)
             (locationCode (interpolate (kw_country keyword))) w of
        (w1, Inl e) \<Rightarrow> (w1, Inl e)
      | (w1, Inr serpData) \<Rightarrow>
          if truthy (response_error serpData) then
            serp_keywords E X rest w1
              (results @ [KeywordError (keyword_text keyword) (interpolate (response_error serpData))])
              records
          else
            (let items = (case response_results serpData of None \<Rightarrow> [] | Some xs \<Rightarrow> xs) in
             serp_keywords E X rest w1
               (results @ [KeywordSummary (keyword_text keyword) (kw_country keyword)
                             (length items) (hoxton_position X items)])
               (process_items X keyword items records)))"

definition serp_keyword_rows :: "collaborators \<Rightarrow> serp_body \<Rightarrow> thrown + keyword_row list" where
  "serp_keyword_rows X b =
     (case validateRequired [(''keyword_ids'', serp_keyword_ids b \<noteq> Absent)] of
        Inl e \<Rightarrow> Inl e
      | Inr _ \<Rightarrow>
     (case validateType (actual_type (serp_keyword_ids b)) ''keyword_ids'' ''array'' of
        Inl e \<Rightarrow> Inl e
      | Inr _ \<Rightarrow>
     (let ids = elements (serp_keyword_ids b) in
      if length ids = 0 then
        Inl (App (ValidationError ''keyword_ids array cannot be empty'' JNull))
      else if length ids > 50 then
        Inl (App (ValidationError ''Maximum 50 keywords per SERP request''
                   (JObj [(''received'', JNum (int (length ids))), (''maximum'', JNum 50)])))
      else
        case select_keywords_in X ids of
          Inl dbError \<Rightarrow> Inl (App (mapSupabaseError dbError ''select''))
        | Inr rows \<Rightarrow>
            if length rows = 0 then
              Inl (App (ValidationError ''No keywords found with provided IDs'' JNull))
            else Inr rows)))"

text \<open>The two batched inserts after the loop.\<close>

definition insert_serp_records ::
  "collaborators \<Rightarrow> serp_row list \<times> competitor_row list \<Rightarrow> world \<Rightarrow> world"
where
  "insert_serp_records X records w =
     (let (serpRecords, competitorRecords) = records;
          w1 = (if length serpRecords > 0
                then insert_logged X (InsertSerp serpRecords) ''Failed to insert SERP records:'' w
                else w)
      in if length competitorRecords > 0
         then insert_logged X (InsertCompetitor competitorRecords)
                ''Failed to insert competitor records:'' w1
         else w1)"

definition enrich_serp_try ::
  "env \<Rightarrow> collaborators \<Rightarrow> serp_body request
     \<Rightarrow> world \<times> (thrown + serp_result list \<times> serp_row list \<times> competitor_row list)"
where
  "enrich_serp_try E X req =
     (if \<not> verifyApiKey req E then (world0, Inl (App UnauthorizedError))
      else case validateMethod req [''POST''] of
        Inl e \<Rightarrow> (world0, Inl e)
      | Inr _ \<Rightarrow>
          (case serp_keyword_rows X (body req) of
             Inl e \<Rightarrow> (world0, Inl e)
           | Inr rows \<Rightarrow>
               (case serp_keywords E X rows world0 [] ([], []) of
                  (w, Inl e) \<Rightarrow> (w, Inl e)
                | (w, Inr (results, records)) \<Rightarrow>
                    (insert_serp_records X records w, Inr (results, records)))))"

definition enrich_serp_handler ::
  "env \<Rightarrow> collaborators \<Rightarrow> serp_body request \<Rightarrow> serp_result list response \<times> world"
where
  "enrich_serp_handler E X req =
     (case enrich_serp_try E X req of
        (w, Inl err) \<Rightarrow> respond_error err w
      | (w, Inr (results, serpRecords, competitorRecords)) \<Rightarrow>
          (success (clock E) results
             [(''keywords_processed'', JNum (int (length results))),
              (''serp_records'', JNum (int (length serpRecords))),
              (''competitor_records'', JNum (int (length competitorRecords)))],
           w))"

section \<open>The provider client (lib/dataforseo.js) and the handlers built on it\<close>

text \<open>
  The repository holds a second copy of each enrichment handler. There the provider is
  called through lib/dataforseo.js, which reports every failure by throwing a plain
  \<open>Error\<close>, and which checks the status of the task as well as that of the reply.
\<close>

definition getAuthHeader :: "env \<Rightarrow> thrown + unit" where
  "getAuthHeader E =
     (if \<not> truthy (DATAFORSEO_LOGIN E) \<or> \<not> truthy (DATAFORSEO_PASSWORD E) then
        Inl (Error ''DataForSEO credentials not configured'')
      else Inr ())"

text \<open>
  \<open>dataforseoRequest(endpoint, data)\<close>, given the payload and what the provider makes
  of it. The header is built, and may throw, before \<open>fetch\<close> is called.
\<close>

definition dataforseoRequest ::
  "env \<Rightarrow> provider_call \<Rightarrow> 'r fetch_outcome \<Rightarrow> world \<Rightarrow> world \<times> (thrown + 'r list)"
where
  "dataforseoRequest E call reply w =
     (case getAuthHeader E of
        Inl e \<Rightarrow> (w, Inl e)
      | Inr _ \<Rightarrow>
          (let w' = w\<lparr>calls := calls w @ [call]\<rparr> in
           case reply of
             Threw err_message \<Rightarrow> (w', Inl (Error err_message))
           | Replied status_code status_message tasks \<Rightarrow>
               if status_code \<noteq> 20000 then
                 (w', Inl (Error (''DataForSEO error '' @ show_nat status_code @ '': ''
                                  @ interpolate status_message)))
               else
                 (case tasks of
                    None \<Rightarrow>
                      (w', Inl (TypeError ''Cannot read properties of undefined (reading status_code)''))
                  | Some task \<Rightarrow>
                      if task_status_code task \<noteq> 20000 then
                        (w', Inl (Error (''Task error '' @ show_nat (task_status_code task) @ '': ''
                                         @ interpolate (task_status_message task))))
                      else
                        (w', Inr (case task_result task of None \<Rightarrow> [] | Some rs \<Rightarrow> rs)))))"

definition getKeywordMetrics ::
  "env \<Rightarrow> collaborators \<Rightarrow> string option list \<Rightarrow> nat option \<Rightarrow> world
     \<Rightarrow> world \<times> (thrown + provider_record list)"
where
  "getKeywordMetrics E X kws location w =
     dataforseoRequest E (MetricsCall kws location)
       (metrics_reply X (length (calls w)) kws location) w"

definition getSerpResults ::
  "env \<Rightarrow> collaborators \<Rightarrow> string option \<Rightarrow> nat option \<Rightarrow> world
     \<Rightarrow> world \<times> (thrown + serp_item list)"
where
  "getSerpResults E X keyword location w =
     (case dataforseoRequest E (SerpCall keyword location)
             (serp_reply X (length (calls w)) keyword location) w of
        (w', Inl e) \<Rightarrow> (w', Inl e)
      | (w', Inr result) \<Rightarrow>
          (w', Inr (filter (\<lambda>item. item_type item = ''organic'') (first_block_items result))))"

text \<open>
  The second copy of the handler of \<open>POST /api/enrich/keywords\<close>. It resolves and
  groups the keywords as the first copy does; in the loop over the groups it calls
  \<open>getKeywordMetrics\<close> and has no test for a failed call, so what the client throws
  reaches the handler's \<open>catch\<close>.
\<close>

fun enrich_groups_lib ::
  "env \<Rightarrow> collaborators \<Rightarrow> (string \<times> keyword_row list) list
     \<Rightarrow> world \<Rightarrow> metric_entry list \<Rightarrow> world \<times> (thrown + metric_entry list)"
where
  "enrich_groups_lib E X [] w results = (w, Inr results)"
| "enrich_groups_lib E X ((country, kws) # rest) w results =
     (case getKeywordMetrics E X (map keyword_text kws) (locationCode country) w of
        (w1, Inl e) \<Rightarrow> (w1, Inl e)
      | (w1, Inr response) \<Rightarrow>
          (case process_results E X country kws response w1 results of
             (w2, Inl e) \<Rightarrow> (w2, Inl e)
           | (w2, Inr results') \<Rightarrow> enrich_groups_lib E X rest w2 results'))"

definition enrich_keywords_try_lib ::
  "env \<Rightarrow> collaborators \<Rightarrow> enrich_body request \<Rightarrow> world \<times> (thrown + metric_entry list)"
where
  "enrich_keywords_try_lib E X req =
     (if \<not> verifyApiKey req E then (world0, Inl (App UnauthorizedError))
      else case validateMethod req [''POST''] of
        Inl e \<Rightarrow> (world0, Inl e)
      | Inr _ \<Rightarrow>
          (case keywordsToEnrich X (body req) of
             Inl e \<Rightarrow> (world0, Inl e)
           | Inr ws \<Rightarrow>
               (case byCountry ws of
                  Inl e \<Rightarrow> (world0, Inl e)
                | Inr groups \<Rightarrow> enrich_groups_lib E X groups world0 [])))"

definition enrich_keywords_handler_lib ::
  "env \<Rightarrow> collaborators \<Rightarrow> enrich_body request \<Rightarrow> metric_entry list response \<times> world"
where
  "enrich_keywords_handler_lib E X req =
     (case enrich_keywords_try_lib E X req of
        (w, Inl err) \<Rightarrow> respond_error err w
      | (w, Inr results) \<Rightarrow>
          (success (clock E) results
             [(''count'', JNum (int (length results))),
              (''message'', JStr (''Enriched '' @ show_nat (length results) @ '' keywords''))],
           w))"

text \<open>
  The second copy of the handler of \<open>POST /api/enrich/serp\<close>. Its loop wraps the work
  on one keyword in \<open>try\<close>: what \<open>getSerpResults\<close> throws becomes that keyword's error
  entry, with the message of the error.
\<close>

fun serp_keywords_lib ::
  "env \<Rightarrow> collaborators \<Rightarrow> keyword_row list \<Rightarrow> world
     \<Rightarrow> serp_result list \<Rightarrow> serp_row list \<times> competitor_row list
     \<Rightarrow> world \<times> serp_result list \<times> serp_row list \<times> competitor_row list"
where
  "serp_keywords_lib E X [] w results records = (w, results, records)"
| "serp_keywords_lib E X (keyword # rest) w results records =
     (case getSerpResults E X (keyword_text keyword)
             (locationCode (interpolate (kw_country keyword))) w of
        (w1, Inl err) \<Rightarrow>
          serp_keywords_lib E X rest w1
            (results @ [KeywordError (keyword_text keyword) (message_of err)]) records
      | (w1, Inr items) \<Rightarrow>
          serp_keywords_lib E X rest w1
            (results @ [KeywordSummary (keyword_text keyword) (kw_country keyword)
                          (length items) (hoxton_position X items)])
            (process_items X keyword items records))"

definition enrich_serp_try_lib ::
  "env \<Rightarrow> collaborators \<Rightarrow> serp_body request
     \<Rightarrow> world \<times> (thrown + serp_result list \<times> serp_row list \<times> competitor_row list)"
where
  "enrich_serp_try_lib E X req =
     (if \<not> verifyApiKey req E then (world0, Inl (App UnauthorizedError))
      else case validateMethod req [''POST''] of
        Inl e \<Rightarrow> (world0, Inl e)
      | Inr _ \<Rightarrow>
          (case serp_keyword_rows X (body req) of
             Inl e \<Rightarrow> (world0, Inl e)
           | Inr rows \<Rightarrow>
               (case serp_keywords_lib E X rows world0 [] ([], []) of
                  (w, results, records) \<Rightarrow>
                    (insert_serp_records X records w, Inr (results, records)))))"

definition enrich_serp_handler_lib ::
  "env \<Rightarrow> collaborators \<Rightarrow> serp_body request \<Rightarrow> serp_result list response \<times> world"
where
  "enrich_serp_handler_lib E X req =
     (case enrich_serp_try_lib E X req of
        (w, Inl err) \<Rightarrow> respond_error err w
      | (w, Inr (results, serpRecords, competitorRecords)) \<Rightarrow>
          (success (clock E) results
             [(''keywords_processed'', JNum (int (length results))),
              (''serp_records'', JNum (int (length serpRecords))),
              (''competitor_records'', JNum (int (length competitorRecords)))],
           w))"

section \<open>POST /api/keywords/batch (api/keywords/batch.js)\<close>

record batch_body =
  b_keywords :: "string field"
  b_country :: "string option"
  b_cluster :: "string option"
  b_page_id :: "string option"

record prepared_keyword =
  p_keyword_text :: string
  p_country :: string
  p_cluster :: "string option"
  p_page_id :: "string option"

record stored_keyword =
  sk_id :: string
  sk_keyword_text :: string
  sk_country :: string
  sk_cluster :: "string option"
  sk_page_id :: "string option"

text \<open>
  The store behind the batch endpoint: the rows of the \<open>keywords\<close> table, the error
  the upsert fails with (if it fails), and the identifiers the store generates.
\<close>

record keyword_store =
  stored :: "stored_keyword list"
  upsert_error :: "db_error option"
  generated_id :: "nat \<Rightarrow> string"

text \<open>The options the handler gives the client's \<open>upsert\<close>.\<close>

record upsert_options =
  onConflict :: string
  ignoreDuplicates :: bool

text \<open>
  Modelled from the spec: the store's \<open>upsert\<close> is missing from the sources (it is the
  database behind the client). The spec's words: an upsert is an insert-or-update
  keyed by a declared conflict column set, the pair (keyword\_text, country) is
  globally unique, and duplicates collapse instead of producing duplicate rows. The
  conflict column set is declared by the \<open>onConflict\<close> option, a list of column names
  separated by commas: these are the columns it names, and the values a row of the
  batch and a stored row have in them.
\<close>

fun split_on :: "char \<Rightarrow> string \<Rightarrow> string list" where
  "split_on sep [] = [[]]"
| "split_on sep (c # cs) =
     (if c = sep then [] # split_on sep cs
      else (case split_on sep cs of [] \<Rightarrow> [[c]] | x # xs \<Rightarrow> (c # x) # xs))"

definition prepared_column :: "prepared_keyword \<Rightarrow> string \<Rightarrow> string option" where
  "prepared_column p column =
     (if column = ''keyword_text'' then Some (p_keyword_text p)
      else if column = ''country'' then Some (p_country p)
      else if column = ''cluster'' then p_cluster p
      else if column = ''page_id'' then p_page_id p
      else None)"

definition stored_column :: "stored_keyword \<Rightarrow> string \<Rightarrow> string option" where
  "stored_column r column =
     (if column = ''id'' then Some (sk_id r)
      else if column = ''keyword_text'' then Some (sk_keyword_text r)
      else if column = ''country'' then Some (sk_country r)
      else if column = ''cluster'' then sk_cluster r
      else if column = ''page_id'' then sk_page_id r
      else None)"

text \<open>
  Modelled from the spec: one row of the batch is merged into the table. It updates
  the stored row that agrees with it on the conflict columns or, if there is none, is
  inserted with a generated identifier. With \<open>ignoreDuplicates\<close> (for which the spec
  has no words; the handler passes \<open>false\<close>) a row that meets a stored row changes
  nothing.
\<close>

definition upsert_row ::
  "string list \<Rightarrow> bool \<Rightarrow> (nat \<Rightarrow> string) \<Rightarrow> stored_keyword list \<Rightarrow> prepared_keyword
     \<Rightarrow> stored_keyword list"
where
  "upsert_row columns ignore gen table p =
     (if map (prepared_column p) columns \<in> set (map (\<lambda>r. map (stored_column r) columns) table) then
        (if ignore then table
         else map (\<lambda>r. if map (stored_column r) columns = map (prepared_column p) columns
                        then r\<lparr>sk_keyword_text := p_keyword_text p, sk_country := p_country p,
                               sk_cluster := p_cluster p, sk_page_id := p_page_id p\<rparr>
                        else r) table)
      else
        table @ [\<lparr>sk_id = gen (length table), sk_keyword_text = p_keyword_text p,
                   sk_country = p_country p, sk_cluster = p_cluster p,
                   sk_page_id = p_page_id p\<rparr>])"

text \<open>
  Modelled from the spec: the store's \<open>upsert(rows, options).select()\<close>. The rows of the
  batch are merged one after the other, and the upsert returns the stored rows the
  batch has touched: those that agree with a row of the batch on the conflict columns
  (with \<open>ignoreDuplicates\<close>, those of them that are new).
\<close>

definition upsert_keywords ::
  "keyword_store \<Rightarrow> prepared_keyword list \<Rightarrow> upsert_options \<Rightarrow> db_error + stored_keyword list"
where
  "upsert_keywords S batch options =
     (case upsert_error S of
        Some e \<Rightarrow> Inl e
      | None \<Rightarrow>
          (let columns = split_on CHR '','' (onConflict options);
               stored_now = (\<lambda>r. map (stored_column r) columns);
               table = foldl (upsert_row columns (ignoreDuplicates options) (generated_id S))
                         (stored S) batch
           in Inr (filter (\<lambda>r. stored_now r \<in> set (map (\<lambda>p. map (prepared_column p) columns) batch)
                                \<and> (ignoreDuplicates options
                                     \<longrightarrow> stored_now r \<notin> set (map stored_now (stored S))))
                     table)))"

definition preparedKeywords :: "env \<Rightarrow> batch_body \<Rightarrow> prepared_keyword list" where
  "preparedKeywords E b =
     map (\<lambda>kw. \<lparr>p_keyword_text = toLowerCase E (trim E kw),
                p_country = toUpperCase E (interpolate (b_country b)),
                p_cluster = b_cluster b, p_page_id = b_page_id b\<rparr>)
       (elements (b_keywords b))"

definition keywords_batch_try :: "env \<Rightarrow> keyword_store \<Rightarrow> batch_body request \<Rightarrow> thrown + stored_keyword list" where
  "keywords_batch_try E S req =
     (if \<not> verifyApiKey req E then Inl (App UnauthorizedError)
      else case validateMethod req [''POST''] of
        Inl e \<Rightarrow> Inl e
      | Inr _ \<Rightarrow>
     (case validateRequired [(''keywords'', b_keywords (body req) \<noteq> Absent),
                             (''country'', b_country (body req) \<noteq> None)] of
        Inl e \<Rightarrow> Inl e
      | Inr _ \<Rightarrow>
     (case validateType (actual_type (b_keywords (body req))) ''keywords'' ''array'' of
        Inl e \<Rightarrow> Inl e
      | Inr _ \<Rightarrow>
     (case validateEnum (toUpperCase E (interpolate (b_country (body req)))) ''country''
             VALID_COUNTRIES of
        Inl e \<Rightarrow> Inl e
      | Inr _ \<Rightarrow>
     (let kws = elements (b_keywords (body req)) in
      if length kws = 0 then
        Inl (App (ValidationError ''Keywords array cannot be empty'' JNull))
      else if length kws > 1000 then
        Inl (App (ValidationError ''Maximum 1000 keywords per batch''
                   (JObj [(''received'', JNum (int (length kws))), (''maximum'', JNum 1000)])))
      else
        case upsert_keywords S (preparedKeywords E (body req))
               \<lparr>onConflict = ''keyword_text,country'', ignoreDuplicates = False\<rparr> of
          Inl dbError \<Rightarrow> Inl (App (mapSupabaseError dbError ''upsert''))
        | Inr data \<Rightarrow> Inr data)))))"

definition keywords_batch_handler :: "env \<Rightarrow> keyword_store \<Rightarrow> batch_body request \<Rightarrow> stored_keyword list response" where
  "keywords_batch_handler E S req =
     (case keywords_batch_try E S req of
        Inl err \<Rightarrow> error err
      | Inr data \<Rightarrow>
          success (clock E) data
            [(''count'', JNum (int (length data))),
             (''message'', JStr (''Successfully added '' @ show_nat (length data) @ '' keywords''))])"

section \<open>/api/pages (api/pages/index.js) and /api/competitors (api/competitors/index.js)\<close>

text \<open>
  These handlers hand the request to an \<open>async\<close> helper with \<open>return helper(req, res)\<close>
  inside their \<open>try\<close> block, without \<open>await\<close>: what the helper throws rejects the
  handler's promise and never reaches the \<open>catch\<close> that serialises errors. So a
  call of the handler ends in a response sent, or in a rejection with the thrown value.
\<close>

datatype 'd outcome = Sent "'d response" | Rejected thrown

text \<open>
  The fields of a page as a request carries them. The level is absent (\<open>None\<close>),
  \<open>null\<close> (\<open>Some None\<close>) or a number; for the other fields absent and \<open>null\<close> are
  treated alike by the code and are both \<open>None\<close>.
\<close>

record page_input =
  page_name :: "string option"
  page_url :: "string option"
  page_cluster :: "string option"
  page_level :: "int option option"
  parent_page :: "string option"
  sibling_links :: "string option"
  cross_cluster_links :: "string option"
  content_focus :: "string option"

record page_query =
  q_cluster :: "string option"
  q_level :: "string option"

text \<open>
  The store's answers to the queries of the two handlers, as functions of what the
  query carries. A page row is its identifier with its fields.
\<close>

record crud_store =
  pages_select :: "string option \<Rightarrow> int option option \<Rightarrow> db_error + (string \<times> page_input) list"
  pages_insert :: "page_input \<Rightarrow> db_error + (string \<times> page_input)"
  competitors_select :: "db_error + (string \<times> string \<times> string \<times> string option) list"
  competitors_insert :: "string \<times> string \<times> string option \<Rightarrow> db_error + (string \<times> string \<times> string \<times> string option)"

text \<open>
  \<open>parseInt(s, 10)\<close>: the white space \<open>trim\<close> strips is skipped, then an optional sign
  and the longest run of decimal digits are read; \<open>None\<close> is \<open>NaN\<close>.
\<close>

definition parseInt10 :: "env \<Rightarrow> string \<Rightarrow> int option" where
  "parseInt10 E s =
     (let t = trim E s;
          negative = (case t of [] \<Rightarrow> False | c # cs \<Rightarrow> c = CHR ''-'');
          u = (case t of [] \<Rightarrow> [] | c # cs \<Rightarrow> if c = CHR ''-'' \<or> c = CHR ''+'' then cs else t);
          ds = takeWhile is_digit u
      in if ds = [] then None
         else Some (if negative then - int (decimal ds) else int (decimal ds)))"

datatype pages_data = PageList "(string \<times> page_input) list" | OnePage "string \<times> page_input"

definition pages_handleGet :: "env \<Rightarrow> crud_store \<Rightarrow> page_query \<Rightarrow> thrown + pages_data response" where
  "pages_handleGet E S q =
     (case pages_select S
             (if truthy (q_cluster q) then q_cluster q else None)
             (if truthy (q_level q) then Some (parseInt10 E (interpolate (q_level q))) else None) of
        Inl dbError \<Rightarrow> Inl (Store dbError)
      | Inr data \<Rightarrow>
          Inr (success (clock E) (PageList data) [(''count'', JNum (int (length data)))]))"

definition pages_handlePost :: "env \<Rightarrow> crud_store \<Rightarrow> page_input \<Rightarrow> thrown + pages_data response" where
  "pages_handlePost E S b =
     (if \<not> truthy (page_name b) \<or> \<not> truthy (page_url b) \<or> \<not> truthy (page_cluster b) then
        Inl (App (ValidationError ''Missing required fields''
                   (JObj [(''required'', JArr [JStr ''page_name'', JStr ''url'', JStr ''cluster''])])))
      else
        case pages_insert S
               (b\<lparr>page_level := (case page_level b of None \<Rightarrow> Some (Some 2) | Some l \<Rightarrow> Some l)\<rparr>) of
          Inl dbError \<Rightarrow> Inl (Store dbError)
        | Inr data \<Rightarrow> Inr (success (clock E) (OnePage data) []))"

record pages_request =
  pq :: page_query
  pb :: page_input

definition settle :: "thrown + 'd response \<Rightarrow> 'd outcome" where
  "settle r = (case r of Inl e \<Rightarrow> Rejected e | Inr res \<Rightarrow> Sent res)"

definition pages_handler :: "env \<Rightarrow> crud_store \<Rightarrow> pages_request request \<Rightarrow> pages_data outcome" where
  "pages_handler E S req =
     (if \<not> verifyApiKey req E then Sent (error (App UnauthorizedError))
      else if req_method req = ''GET'' then settle (pages_handleGet E S (pq (body req)))
      else if req_method req = ''POST'' then settle (pages_handlePost E S (pb (body req)))
      else Sent (error (App (ValidationError (''Method '' @ req_method req @ '' not allowed'')
                              (JObj [(''allowed'', JArr [JStr ''GET'', JStr ''POST''])])))))"

record competitor_body =
  cb_domain :: "string option"
  cb_name :: "string option"
  cb_notes :: "string option"

datatype competitors_data =
    CompetitorList "(string \<times> string \<times> string \<times> string option) list"
  | OneCompetitor "string \<times> string \<times> string \<times> string option"

definition competitors_handleGet :: "env \<Rightarrow> crud_store \<Rightarrow> thrown + competitors_data response" where
  "competitors_handleGet E S =
     (case competitors_select S of
        Inl dbError \<Rightarrow> Inl (Store dbError)
      | Inr data \<Rightarrow>
          Inr (success (clock E) (CompetitorList data) [(''count'', JNum (int (length data)))]))"

text \<open>
  \<open>domain.replace(/^https?:\/\//, '').replace(/\/+$/, '').toLowerCase()\<close>
\<close>

definition cleanDomain :: "env \<Rightarrow> string \<Rightarrow> string" where
  "cleanDomain E domain =
     (let d1 = (if starts_with domain ''http://'' then drop 7 domain
                else if starts_with domain ''https://'' then drop 8 domain else domain);
          d2 = rev (dropWhile (\<lambda>c. c = CHR ''/'') (rev d1))
      in toLowerCase E d2)"

definition competitors_handlePost :: "env \<Rightarrow> crud_store \<Rightarrow> competitor_body \<Rightarrow> thrown + competitors_data response" where
  "competitors_handlePost E S b =
     (case validateRequired [(''domain'', cb_domain b \<noteq> None), (''name'', cb_name b \<noteq> None)] of
        Inl e \<Rightarrow> Inl e
      | Inr _ \<Rightarrow>
          (case competitors_insert S
                  (cleanDomain E (interpolate (cb_domain b)), interpolate (cb_name b), cb_notes b) of
             Inl dbError \<Rightarrow> Inl (App (mapSupabaseError dbError ''insert''))
           | Inr data \<Rightarrow>
               Inr (success (clock E) (OneCompetitor data)
                      [(''message'', JStr (''Competitor \"'' @ interpolate (cb_name b)
                                           @ ''\" added successfully''))])))"

definition competitors_handler :: "env \<Rightarrow> crud_store \<Rightarrow> competitor_body request \<Rightarrow> competitors_data outcome" where
  "competitors_handler E S req =
     (if \<not> verifyApiKey req E then Sent (error (App UnauthorizedError))
      else if req_method req = ''GET'' then settle (competitors_handleGet E S)
      else if req_method req = ''POST'' then settle (competitors_handlePost E S (body req))
      else Sent (error (App (ValidationError (''Method '' @ req_method req @ '' not allowed'')
                              (JObj [(''allowed'', JArr [JStr ''GET'', JStr ''POST''])])))))"

section \<open>POST /api/pages/import (api/pages/import.js) and GET /api/keywords (api/keywords/index.js)\<close>

record import_store =
  pages_upsert :: "page_input list \<Rightarrow> db_error + (string \<times> page_input) list"

record import_body =
  pages :: "page_input field"

text \<open>
  The check of the required fields, page by page and field by field; it throws at the
  first field that is falsy.
\<close>

fun check_pages :: "nat \<Rightarrow> page_input list \<Rightarrow> thrown + unit" where
  "check_pages index [] = Inr ()"
| "check_pages index (page # rest) =
     (case filter (\<lambda>(field, v). \<not> truthy v)
             [(''page_name'', page_name page), (''url'', page_url page),
              (''cluster'', page_cluster page)] of
        (field, v) # _ \<Rightarrow>
          Inl (App (ValidationError
                 (''Page at index '' @ show_nat index @ '' missing required field: '' @ field) JNull))
      | [] \<Rightarrow> check_pages (Suc index) rest)"

text \<open>\<open>v || null\<close> on an optional string.\<close>

definition or_null :: "string option \<Rightarrow> string option" where
  "or_null v = (if truthy v then v else None)"

definition preparedPages :: "page_input list \<Rightarrow> page_input list" where
  "preparedPages ps =
     map (\<lambda>page. \<lparr>page_name = page_name page, page_url = page_url page,
                  page_cluster = page_cluster page,
                  page_level = Some (Some (case page_level page of
                                             Some (Some l) \<Rightarrow> if l = 0 then 2 else l
                                           | _ \<Rightarrow> 2)),
                  parent_page = or_null (parent_page page),
                  sibling_links = or_null (sibling_links page),
                  cross_cluster_links = or_null (cross_cluster_links page),
                  content_focus = or_null (content_focus page)\<rparr>) ps"

definition pages_import_try :: "env \<Rightarrow> import_store \<Rightarrow> import_body request \<Rightarrow> thrown + (string \<times> page_input) list" where
  "pages_import_try E S req =
     (if \<not> verifyApiKey req E then Inl (App UnauthorizedError)
      else case validateMethod req [''POST''] of
        Inl e \<Rightarrow> Inl e
      | Inr _ \<Rightarrow>
     (case validateRequired [(''pages'', pages (body req) \<noteq> Absent)] of
        Inl e \<Rightarrow> Inl e
      | Inr _ \<Rightarrow>
     (case validateType (actual_type (pages (body req))) ''pages'' ''array'' of
        Inl e \<Rightarrow> Inl e
      | Inr _ \<Rightarrow>
     (let ps = elements (pages (body req)) in
      if length ps = 0 then Inl (App (ValidationError ''Pages array cannot be empty'' JNull))
      else case check_pages 0 ps of
        Inl e \<Rightarrow> Inl e
      | Inr _ \<Rightarrow>
          (case pages_upsert S (preparedPages ps) of
             Inl dbError \<Rightarrow> Inl (App (mapSupabaseError dbError ''upsert''))
           | Inr data \<Rightarrow> Inr data)))))"

definition pages_import_handler :: "env \<Rightarrow> import_store \<Rightarrow> import_body request \<Rightarrow> (string \<times> page_input) list response" where
  "pages_import_handler E S req =
     (case pages_import_try E S req of
        Inl err \<Rightarrow> error err
      | Inr data \<Rightarrow>
          success (clock E) data
            [(''count'', JNum (int (length data))),
             (''message'', JStr (''Successfully imported '' @ show_nat (length data) @ '' pages''))])"

record keywords_query =
  kq_country :: "string option"
  kq_cluster :: "string option"
  kq_page_id :: "string option"
  kq_limit :: "string option"
  kq_offset :: "string option"

text \<open>
  The store's answer to the listing query, as a function of the range and of the
  three filters. A number that is \<open>NaN\<close> is \<open>None\<close>.
\<close>

record listing_store =
  keywords_select ::
    "int option \<times> int option \<Rightarrow> string option \<Rightarrow> string option \<Rightarrow> string option
       \<Rightarrow> db_error + stored_keyword list"

definition json_num :: "int option \<Rightarrow> json" where
  "json_num v = (case v of None \<Rightarrow> JNull | Some n \<Rightarrow> JNum n)"

definition keywords_index_try :: "env \<Rightarrow> listing_store \<Rightarrow> keywords_query request \<Rightarrow> thrown + stored_keyword list" where
  "keywords_index_try E S req =
     (if \<not> verifyApiKey req E then Inl (App UnauthorizedError)
      else if req_method req \<noteq> ''GET'' then
        Inl (App (ValidationError (''Method '' @ req_method req @ '' not allowed'')
                   (JObj [(''allowed'', JArr [JStr ''GET''])])))
      else
        let q = body req;
            limit = (case kq_limit q of None \<Rightarrow> Some 100 | Some s \<Rightarrow> parseInt10 E s);
            offset = (case kq_offset q of None \<Rightarrow> Some 0 | Some s \<Rightarrow> parseInt10 E s);
            last = (case (offset, limit) of (Some a, Some b) \<Rightarrow> Some (a + b - 1) | _ \<Rightarrow> None)
        in case keywords_select S (offset, last)
                  (if truthy (kq_country q) then Some (toUpperCase E (interpolate (kq_country q))) else None)
                  (if truthy (kq_cluster q) then kq_cluster q else None)
                  (if truthy (kq_page_id q) then kq_page_id q else None) of
             Inl dbError \<Rightarrow> Inl (Store dbError)
           | Inr data \<Rightarrow> Inr data)"

definition keywords_index_handler :: "env \<Rightarrow> listing_store \<Rightarrow> keywords_query request \<Rightarrow> stored_keyword list response" where
  "keywords_index_handler E S req =
     (case keywords_index_try E S req of
        Inl err \<Rightarrow> error err
      | Inr data \<Rightarrow>
          (let q = body req in
           success (clock E) data
             [(''count'', JNum (int (length data))),
              (''limit'', json_num (case kq_limit q of None \<Rightarrow> Some 100 | Some s \<Rightarrow> parseInt10 E s)),
              (''offset'', json_num (case kq_offset q of None \<Rightarrow> Some 0 | Some s \<Rightarrow> parseInt10 E s))]))"

text \<open>The status the error serialiser gives a thrown value.\<close>

definition status_of :: "thrown \<Rightarrow> nat" where
  "status_of err = (case err of App e \<Rightarrow> status e | _ \<Rightarrow> 500)"

text \<open>The status of the response a handler call has sent, if it has sent one.\<close>

definition sent_status :: "'d outcome \<Rightarrow> nat option" where
  "sent_status out = (case out of Sent res \<Rightarrow> Some (http_status res) | Rejected e \<Rightarrow> None)"

section \<open>Reference notions the properties are stated with\<close>

text \<open>The distinct elements of a list in the order of their first occurrence.\<close>

definition first_occurrences :: "'a list \<Rightarrow> 'a list" where
  "first_occurrences xs = foldl (\<lambda>seen x. if x \<in> set seen then seen else seen @ [x]) [] xs"

text \<open>The country an entry is grouped under, and the stable partition by it.\<close>

definition country_of :: "keyword_row \<Rightarrow> string" where
  "country_of kw = or_else (kw_country kw) ''UK''"

definition partition_by_country :: "keyword_row list \<Rightarrow> (string \<times> keyword_row list) list" where
  "partition_by_country ws =
     map (\<lambda>c. (c, filter (\<lambda>kw. country_of kw = c) ws)) (first_occurrences (map country_of ws))"

text \<open>
  A property name the grouping object treats as a plain string key: no array index
  and no member of \<open>Object.prototype\<close>.
\<close>

definition plain_key :: "string \<Rightarrow> bool" where
  "plain_key c = (\<not> is_array_index c \<and> c \<notin> set object_prototype_keys)"

text \<open>The provider call made for a country group.\<close>

definition call_of_group :: "string \<times> keyword_row list \<Rightarrow> provider_call" where
  "call_of_group g = MetricsCall (map keyword_text (snd g)) (locationCode (fst g))"

text \<open>
  A provider call has failed when \<open>fetch\<close> or the JSON decoding threw, when the reply's
  status code is not the success code 20000, or when the reply has no task or its
  task's status code is not 20000. The first copies of the handlers read the reply's
  status code only: for them a call is rejected when it threw or when that code is
  not 20000.
\<close>

definition provider_failed :: "'r fetch_outcome \<Rightarrow> bool" where
  "provider_failed outcome =
     (case outcome of
        Threw m \<Rightarrow> True
      | Replied status_code m tasks \<Rightarrow>
          status_code \<noteq> 20000
          \<or> (case tasks of None \<Rightarrow> True | Some task \<Rightarrow> task_status_code task \<noteq> 20000))"

definition reply_rejected :: "'r fetch_outcome \<Rightarrow> bool" where
  "reply_rejected outcome =
     (case outcome of Threw m \<Rightarrow> True | Replied status_code m tasks \<Rightarrow> status_code \<noteq> 20000)"

text \<open>The message of a thrown error is not empty.\<close>

definition has_message :: "'r fetch_outcome \<Rightarrow> bool" where
  "has_message outcome = (case outcome of Threw m \<Rightarrow> m \<noteq> [] | Replied status_code m r \<Rightarrow> True)"

text \<open>Both provider credentials are set (and not empty).\<close>

definition credentials_configured :: "env \<Rightarrow> bool" where
  "credentials_configured E = (truthy (DATAFORSEO_LOGIN E) \<and> truthy (DATAFORSEO_PASSWORD E))"

text \<open>
  What the provider makes of the \<open>n\<close>-th call of a request, when that call is the one
  for a country group, or for a keyword.
\<close>

definition metrics_outcome ::
  "collaborators \<Rightarrow> nat \<Rightarrow> string \<times> keyword_row list \<Rightarrow> provider_record fetch_outcome"
where
  "metrics_outcome X n g = metrics_reply X n (map keyword_text (snd g)) (locationCode (fst g))"

definition serp_outcome :: "collaborators \<Rightarrow> nat \<Rightarrow> keyword_row \<Rightarrow> serp_block fetch_outcome" where
  "serp_outcome X n keyword =
     serp_reply X n (keyword_text keyword) (locationCode (interpolate (kw_country keyword)))"

text \<open>The records a successful metrics call brings.\<close>

definition records_of :: "'r fetch_outcome \<Rightarrow> 'r list" where
  "records_of outcome =
     (case outcome of
        Threw m \<Rightarrow> []
      | Replied status_code m tasks \<Rightarrow> first_task_result tasks)"

text \<open>
  The provider has rejected a call, made as the \<open>n\<close>-th call of a request (and the
  error thrown, if one was thrown, carries a message).
\<close>

definition call_rejected :: "collaborators \<Rightarrow> nat \<Rightarrow> provider_call \<Rightarrow> bool" where
  "call_rejected X n call =
     (case call of
        MetricsCall kws l \<Rightarrow>
          reply_rejected (metrics_reply X n kws l) \<and> has_message (metrics_reply X n kws l)
      | SerpCall kw l \<Rightarrow>
          reply_rejected (serp_reply X n kw l) \<and> has_message (serp_reply X n kw l))"

text \<open>A call, made as the \<open>n\<close>-th call of a request, has failed.\<close>

definition call_failed :: "collaborators \<Rightarrow> nat \<Rightarrow> provider_call \<Rightarrow> bool" where
  "call_failed X n call =
     (case call of
        MetricsCall kws l \<Rightarrow> provider_failed (metrics_reply X n kws l)
      | SerpCall kw l \<Rightarrow> provider_failed (serp_reply X n kw l))"

text \<open>The generic response to a thrown value that is no application error.\<close>

definition internal_error :: "'d response" where
  "internal_error = Response 500 (ErrorBody ''INTERNAL_ERROR'' ''An unexpected error occurred'' None)"

text \<open>Two worlds with the same provider calls and the same inserts.\<close>

definition same_requests :: "world \<Rightarrow> world \<Rightarrow> bool" where
  "same_requests w1 w2 = (calls w1 = calls w2 \<and> inserts w1 = inserts w2)"

text \<open>The console lines of a world that report a failed insert.\<close>

definition insert_failure_lines :: "world \<Rightarrow> string list" where
  "insert_failure_lines w = filter (\<lambda>line. line \<noteq> ''Unexpected error:'') (console w)"

text \<open>The numbers of the inserts of a world that the store has failed.\<close>

definition failed_inserts :: "collaborators \<Rightarrow> world \<Rightarrow> nat list" where
  "failed_inserts X w = filter (\<lambda>n. insert_error X n \<noteq> None) [0..<length (inserts w)]"

text \<open>The payload of the provider call made for a keyword.\<close>

definition call_of_keyword :: "keyword_row \<Rightarrow> provider_call" where
  "call_of_keyword keyword =
     SerpCall (keyword_text keyword) (locationCode (interpolate (kw_country keyword)))"

text \<open>
  The working set a metrics request resolves to when the store's select succeeds, and
  the rows a list of identifiers resolves to.
\<close>

definition rows_with_ids :: "collaborators \<Rightarrow> string list \<Rightarrow> keyword_row list" where
  "rows_with_ids X ids =
     filter (\<lambda>k. case kw_id k of None \<Rightarrow> False | Some i \<Rightarrow> i \<in> set ids) (keywords_table X)"

definition resolved_working_set :: "collaborators \<Rightarrow> enrich_body \<Rightarrow> keyword_row list" where
  "resolved_working_set X b =
     (case keyword_ids b of
        Some (i # ids) \<Rightarrow> rows_with_ids X (i # ids)
      | _ \<Rightarrow>
          (case inline_keywords b of
             None \<Rightarrow> []
           | Some ks \<Rightarrow>
               map (\<lambda>k. \<lparr>kw_id = None, keyword_text = k_text k, kw_country = k_country k\<rparr>) ks))"

text \<open>The (keyword\_text, country) pair of a row of a batch, and of a stored row.\<close>

definition prepared_key :: "prepared_keyword \<Rightarrow> string \<times> string" where
  "prepared_key p = (p_keyword_text p, p_country p)"

definition stored_key :: "stored_keyword \<Rightarrow> string \<times> string" where
  "stored_key r = (sk_keyword_text r, sk_country r)"

text \<open>The validation error a working set beyond the ceiling is answered with.\<close>

definition ceiling_response :: "string \<Rightarrow> nat \<Rightarrow> nat \<Rightarrow> 'd response" where
  "ceiling_response msg received maximum =
     Response 400 (ErrorBody ''VALIDATION_ERROR'' msg
       (Some (JObj [(''received'', JNum (int received)), (''maximum'', JNum (int maximum))])))"

text \<open>The number of rows in the data of a response (none in an error response).\<close>

definition row_count :: "'r list response \<Rightarrow> nat" where
  "row_count res = (case envelope res of SuccessBody data meta \<Rightarrow> length data | ErrorBody c m d \<Rightarrow> 0)"

text \<open>
  The first entry of a country group whose text is a record's keyword up to letter
  case, as the platform folds it.
\<close>

definition matched_entry :: "env \<Rightarrow> keyword_row list \<Rightarrow> provider_record \<Rightarrow> keyword_row option" where
  "matched_entry E kws r =
     find (\<lambda>k. map_option (toLowerCase E) (keyword_text k) = map_option (toLowerCase E) (r_keyword r))
       kws"

text \<open>The \<open>n\<close>-th keyword's entry in the SERP response.\<close>

definition serp_entry :: "collaborators \<Rightarrow> nat \<Rightarrow> keyword_row \<Rightarrow> serp_result" where
  "serp_entry X n keyword =
     (case serp_reply X n (keyword_text keyword) (locationCode (interpolate (kw_country keyword))) of
        Threw m \<Rightarrow>
          if m \<noteq> [] then KeywordError (keyword_text keyword) m
          else KeywordSummary (keyword_text keyword) (kw_country keyword) 0 None
      | Replied status_code status_message tasks \<Rightarrow>
          if status_code \<noteq> 20000 then
            KeywordError (keyword_text keyword) (or_else status_message ''SERP API request failed'')
          else
            (let items = filter (\<lambda>item. item_type item = ''organic'')
                           (first_block_items (first_task_result tasks))
             in KeywordSummary (keyword_text keyword) (kw_country keyword) (length items)
                  (hoxton_position X items)))"

definition is_error_entry :: "serp_result \<Rightarrow> bool" where
  "is_error_entry r = (case r of KeywordError k e \<Rightarrow> True | KeywordSummary k c n p \<Rightarrow> False)"

text \<open>
  A reference for \<open>hostname_of\<close> on the simplest URLs: \<open>http://\<close> or \<open>https://\<close> (in
  any case), then a host of ASCII letters, digits, hyphens and dots, then the end or
  a path, query or fragment. There the parser lower-cases the host. A string with no
  colon has no scheme and the constructor throws. The definition answers \<open>None\<close> on
  every other string too, which is not meant to describe the parser there.
\<close>

definition host_char :: "char \<Rightarrow> bool" where
  "host_char c =
     (is_digit c \<or> c = CHR ''-'' \<or> c = CHR ''.''
      \<or> (97 \<le> (of_char c :: nat) \<and> (of_char c :: nat) \<le> 122))"

definition plain_hostname :: "string \<Rightarrow> string option" where
  "plain_hostname s =
     (let l = ascii_lower s;
          rest = (if starts_with l ''http://'' then Some (drop 7 l)
                  else if starts_with l ''https://'' then Some (drop 8 l) else None)
      in case rest of
           None \<Rightarrow> None
         | Some r \<Rightarrow>
             (let h = takeWhile (\<lambda>c. c \<noteq> CHR ''/'' \<and> c \<noteq> CHR ''?'' \<and> c \<noteq> CHR ''#'') r
              in if h \<noteq> [] \<and> list_all host_char h then Some h else None))"

section \<open>Sample inputs\<close>

definition sample_env :: env where
  "sample_env = \<lparr>API_KEY = Some ''hw-seo-abc123xyz'', DATAFORSEO_LOGIN = Some ''login'',
                  DATAFORSEO_PASSWORD = Some ''password'', clock = ''2024-05-01T09:00:00.000Z'',
                  toLowerCase = ascii_lower, toUpperCase = ascii_upper, trim = ascii_trim\<rparr>"

text \<open>The same environment with the \<open>API_KEY\<close> variable unset.\<close>

definition sample_env_unset :: env where
  "sample_env_unset = sample_env\<lparr>API_KEY := None\<rparr>"

definition unique_violation :: db_error where
  "unique_violation =
     \<lparr>db_code = ''23505'', db_message = ''duplicate key value violates unique constraint'',
      db_constraint = None, db_column = None\<rparr>"

text \<open>A store in which the page to insert exists already, and the listing of competitors fails.\<close>

definition failing_store :: crud_store where
  "failing_store =
     \<lparr>pages_select = (\<lambda>cluster level. Inr []),
      pages_insert = (\<lambda>page. Inl unique_violation),
      competitors_select = Inl unique_violation,
      competitors_insert = (\<lambda>c. Inl unique_violation)\<rparr>"

definition sample_page :: page_input where
  "sample_page =
     \<lparr>page_name = Some ''Retirement Calculator'', page_url = Some ''/tools/retirement-calculator'',
      page_cluster = Some ''Tools'', page_level = None, parent_page = None, sibling_links = None,
      cross_cluster_links = None, content_focus = None\<rparr>"

definition sample_page_post :: "pages_request request" where
  "sample_page_post =
     \<lparr>req_method = ''POST'', x_api_key = Some ''hw-seo-abc123xyz'',
      body = \<lparr>pq = \<lparr>q_cluster = None, q_level = None\<rparr>, pb = sample_page\<rparr>\<rparr>"

definition sample_competitors_get :: "competitor_body request" where
  "sample_competitors_get =
     \<lparr>req_method = ''GET'', x_api_key = Some ''hw-seo-abc123xyz'',
      body = \<lparr>cb_domain = None, cb_name = None, cb_notes = None\<rparr>\<rparr>"

text \<open>
  Three stored keywords, one tracked competitor, a provider that answers every metrics
  call (in upper case, leaving difficulty and competition out) and every SERP call but
  the second of a request, and a store whose inserts succeed.
\<close>

definition ok_task :: "'r list \<Rightarrow> 'r task option" where
  "ok_task rs =
     Some \<lparr>task_status_code = 20000, task_status_message = Some ''Ok.'', task_result = Some rs\<rparr>"

definition kw1 :: keyword_row where
  "kw1 = \<lparr>kw_id = Some ''kw-1'', keyword_text = Some ''retirement planning'',
           kw_country = Some ''UK''\<rparr>"

definition kw2 :: keyword_row where
  "kw2 = \<lparr>kw_id = Some ''kw-2'', keyword_text = Some ''pension advice'', kw_country = Some ''US''\<rparr>"

definition kw3 :: keyword_row where
  "kw3 = \<lparr>kw_id = Some ''kw-3'', keyword_text = Some ''isa transfer'', kw_country = Some ''UK''\<rparr>"

definition sample_keywords :: "keyword_row list" where
  "sample_keywords = [kw1, kw2, kw3]"

definition sample_items :: "serp_item list" where
  "sample_items =
     [\<lparr>item_type = ''organic'', rank_absolute = 1,
       url = ''https://www.hoxtonwealth.com/retirement'', title = ''Retirement''\<rparr>,
      \<lparr>item_type = ''paid'', rank_absolute = 2,
       url = ''https://ads.example.net/'', title = ''Advertisement''\<rparr>,
      \<lparr>item_type = ''organic'', rank_absolute = 3,
       url = ''https://www.Example.com/'', title = ''Example''\<rparr>]"

definition sample_collaborators :: collaborators where
  "sample_collaborators =
     \<lparr>keywords_table = sample_keywords,
      keywords_select_error = None,
      competitors_data = Some [\<lparr>competitor_id = ''comp-1'', competitor_domain = ''example.com''\<rparr>],
      insert_error = (\<lambda>n. None),
      metrics_reply = (\<lambda>n kws location.
        Replied 20000 (Some ''Ok.'')
          (ok_task (map (\<lambda>k. \<lparr>r_keyword = map_option ascii_upper k, r_search_volume = Some 1200,
                               r_keyword_difficulty = None, r_cpc = Some (5 / 2),
                               r_competition = None\<rparr>) kws))),
      serp_reply = (\<lambda>n kw location.
        if n = 1 then Threw ''fetch failed''
        else Replied 20000 (Some ''Ok.'') (ok_task [\<lparr>block_items = Some sample_items\<rparr>])),
      hostname_of = plain_hostname\<rparr>"

definition sample_enrich_request :: "enrich_body request" where
  "sample_enrich_request =
     \<lparr>req_method = ''POST'', x_api_key = Some ''hw-seo-abc123xyz'',
      body = \<lparr>keyword_ids = Some [''kw-1'', ''kw-2'', ''kw-3''], inline_keywords = None\<rparr>\<rparr>"

definition sample_serp_request :: "serp_body request" where
  "sample_serp_request =
     \<lparr>req_method = ''POST'', x_api_key = Some ''hw-seo-abc123xyz'',
      body = \<lparr>serp_keyword_ids = ArrayOf [''kw-1'', ''kw-2'', ''kw-3'']\<rparr>\<rparr>"




text \<open>An item whose URL has no scheme, so that the URL constructor throws.\<close>

definition schemeless_item :: serp_item where
  "schemeless_item =
     \<lparr>item_type = ''organic'', rank_absolute = 4, url = ''www.Example.com/page'',
      title = ''Example page''\<rparr>"

definition example_item :: serp_item where
  "example_item =
     \<lparr>item_type = ''organic'', rank_absolute = 3, url = ''https://www.Example.com/'',
      title = ''Example''\<rparr>"

definition hoxton_item :: serp_item where
  "hoxton_item =
     \<lparr>item_type = ''organic'', rank_absolute = 1,
      url = ''https://www.hoxtonwealth.com/retirement'', title = ''Retirement''\<rparr>"

text \<open>What the sample metrics request comes to.\<close>

definition sample_entries :: "metric_entry list" where
  "sample_entries =
     [\<lparr>e_keyword = Some ''RETIREMENT PLANNING'', e_country = ''UK'', e_search_volume = 1200,
       e_difficulty = 0, e_cpc = 5 / 2, e_competition = 0\<rparr>,
      \<lparr>e_keyword = Some ''ISA TRANSFER'', e_country = ''UK'', e_search_volume = 1200,
       e_difficulty = 0, e_cpc = 5 / 2, e_competition = 0\<rparr>,
      \<lparr>e_keyword = Some ''PENSION ADVICE'', e_country = ''US'', e_search_volume = 1200,
       e_difficulty = 0, e_cpc = 5 / 2, e_competition = 0\<rparr>]"

definition sample_metrics_world :: world where
  "sample_metrics_world =
     \<lparr>calls = [MetricsCall [Some ''retirement planning'', Some ''isa transfer''] (Some 2826),
               MetricsCall [Some ''pension advice''] (Some 2840)],
      inserts = [InsertMetric \<lparr>m_keyword_id = ''kw-1'', m_search_volume = 1200, m_difficulty = 0,
                               m_cpc = 5 / 2, m_competition = 0\<rparr>,
                 InsertMetric \<lparr>m_keyword_id = ''kw-3'', m_search_volume = 1200, m_difficulty = 0,
                               m_cpc = 5 / 2, m_competition = 0\<rparr>,
                 InsertMetric \<lparr>m_keyword_id = ''kw-2'', m_search_volume = 1200, m_difficulty = 0,
                               m_cpc = 5 / 2, m_competition = 0\<rparr>],
      console = []\<rparr>"

text \<open>What the sample SERP request comes to: the second keyword's call fails.\<close>

definition sample_serp_results :: "serp_result list" where
  "sample_serp_results =
     [KeywordSummary (Some ''retirement planning'') (Some ''UK'') 2 (Some 1),
      KeywordError (Some ''pension advice'') ''fetch failed'',
      KeywordSummary (Some ''isa transfer'') (Some ''UK'') 2 (Some 1)]"

definition sample_serp_rows :: "string \<Rightarrow> serp_row list" where
  "sample_serp_rows keyword_id =
     [\<lparr>s_keyword_id = Some keyword_id, s_position = 1,
       s_url = ''https://www.hoxtonwealth.com/retirement'', s_domain = ''hoxtonwealth.com'',
       s_title = ''Retirement'', s_is_hoxton = True\<rparr>,
      \<lparr>s_keyword_id = Some keyword_id, s_position = 3, s_url = ''https://www.Example.com/'',
       s_domain = ''example.com'', s_title = ''Example'', s_is_hoxton = False\<rparr>]"

definition sample_competitor_rows :: "string \<Rightarrow> competitor_row list" where
  "sample_competitor_rows keyword_id =
     [\<lparr>c_keyword_id = Some keyword_id, c_competitor_id = ''comp-1'', c_position = 3,
       c_url = ''https://www.Example.com/''\<rparr>]"

definition sample_serp_world :: world where
  "sample_serp_world =
     \<lparr>calls = [SerpCall (Some ''retirement planning'') (Some 2826),
               SerpCall (Some ''pension advice'') (Some 2840),
               SerpCall (Some ''isa transfer'') (Some 2826)],
      inserts = [InsertSerp (sample_serp_rows ''kw-1'' @ sample_serp_rows ''kw-3''),
                 InsertCompetitor (sample_competitor_rows ''kw-1'' @ sample_competitor_rows ''kw-3'')],
      console = []\<rparr>"

text \<open>The sample collaborators with a store that fails every insert.\<close>

definition failing_inserts :: collaborators where
  "failing_inserts = sample_collaborators\<lparr>insert_error := (\<lambda>n. Some unique_violation)\<rparr>"

text \<open>The sample collaborators with a provider that rejects the second metrics call.\<close>

definition failing_provider :: collaborators where
  "failing_provider =
     sample_collaborators\<lparr>metrics_reply := (\<lambda>n kws location.
        if n = 1 then Replied 40100 (Some ''Unauthorized'') None
        else Replied 20000 (Some ''Ok.'') (ok_task []))\<rparr>"





text \<open>A request with two inline keywords, the second under the country code \<open>1\<close>.\<close>

definition numeric_country_request :: "enrich_body request" where
  "numeric_country_request =
     \<lparr>req_method = ''POST'', x_api_key = Some ''hw-seo-abc123xyz'',
      body = \<lparr>keyword_ids = None,
              inline_keywords = Some [\<lparr>k_text = Some ''pension advice'', k_country = Some ''UK''\<rparr>,
                                      \<lparr>k_text = Some ''isa transfer'', k_country = Some ''1''\<rparr>]\<rparr>\<rparr>"

definition inline_uk :: keyword_row where
  "inline_uk = \<lparr>kw_id = None, keyword_text = Some ''pension advice'', kw_country = Some ''UK''\<rparr>"

definition inline_1 :: keyword_row where
  "inline_1 = \<lparr>kw_id = None, keyword_text = Some ''isa transfer'', kw_country = Some ''1''\<rparr>"

text \<open>A request with 101 keyword identifiers of which the store knows three.\<close>

definition many_ids_request :: "enrich_body request" where
  "many_ids_request =
     \<lparr>req_method = ''POST'', x_api_key = Some ''hw-seo-abc123xyz'',
      body = \<lparr>keyword_ids = Some ([''kw-1'', ''kw-2'', ''kw-3''] @ replicate 98 ''kw-0''),
              inline_keywords = None\<rparr>\<rparr>"

text \<open>A store with 101 keywords, and the requests naming all of them, or the first 51.\<close>

definition big_table :: "keyword_row list" where
  "big_table =
     map (\<lambda>n. \<lparr>kw_id = Some (replicate (Suc n) CHR ''k''),
                keyword_text = Some (replicate (Suc n) CHR ''t''),
                kw_country = Some ''UK''\<rparr>) [0..<101]"

definition big_store :: collaborators where
  "big_store = sample_collaborators\<lparr>keywords_table := big_table\<rparr>"

definition all_ids_request :: "enrich_body request" where
  "all_ids_request =
     \<lparr>req_method = ''POST'', x_api_key = Some ''hw-seo-abc123xyz'',
      body = \<lparr>keyword_ids = Some (map (\<lambda>n. replicate (Suc n) CHR ''k'') [0..<101]),
              inline_keywords = None\<rparr>\<rparr>"

definition serp_51_request :: "serp_body request" where
  "serp_51_request =
     \<lparr>req_method = ''POST'', x_api_key = Some ''hw-seo-abc123xyz'',
      body = \<lparr>serp_keyword_ids = ArrayOf (map (\<lambda>n. replicate (Suc n) CHR ''k'') [0..<51])\<rparr>\<rparr>"

text \<open>
  A batch that names one keyword twice (up to case and surrounding blanks) and one
  keyword the store holds already.
\<close>

definition sample_keyword_store :: keyword_store where
  "sample_keyword_store =
     \<lparr>stored = [\<lparr>sk_id = ''kw-3'', sk_keyword_text = ''isa transfer'', sk_country = ''UK'',
                  sk_cluster = None, sk_page_id = None\<rparr>],
      upsert_error = None,
      generated_id = (\<lambda>n. ''kw-new'')\<rparr>"

definition sample_batch_request :: "batch_body request" where
  "sample_batch_request =
     \<lparr>req_method = ''POST'', x_api_key = Some ''hw-seo-abc123xyz'',
      body = \<lparr>b_keywords = ArrayOf [''Pension Advice'', '' pension advice '', ''isa transfer''],
              b_country = Some ''uk'', b_cluster = Some ''Strategy'', b_page_id = None\<rparr>\<rparr>"

section \<open>Statuses of what the handlers throw\<close>

lemma fst_respond_error [simp]: "fst (respond_error err w) = error err"
  by (simp add: respond_error_def)

lemma calls_respond_error [simp]: "calls (snd (respond_error err w)) = calls w"
  by (simp add: respond_error_def)

lemma inserts_respond_error [simp]: "inserts (snd (respond_error err w)) = inserts w"
  by (simp add: respond_error_def)

lemma insert_failure_lines_respond_error [simp]:
  "insert_failure_lines (snd (respond_error err w)) = insert_failure_lines w"
  by (simp add: respond_error_def insert_failure_lines_def error_console_def split: thrown.splits)

lemma respond_error_App [simp]: "respond_error (App e) w = (error (App e), w)"
  by (simp add: respond_error_def error_console_def)

lemma same_requests_respond_error [simp]:
  "same_requests (snd (respond_error err w1)) (snd (respond_error err w2)) = same_requests w1 w2"
  by (simp add: same_requests_def)

lemma failed_inserts_respond_error [simp]:
  "failed_inserts X (snd (respond_error err w)) = failed_inserts X w"
  by (simp add: failed_inserts_def)

lemma http_status_error: "http_status (error err) = status_of err"
  by (simp add: error_def status_of_def split: thrown.splits)

lemma http_status_success: "http_status (success t d m) = 200"
  by (simp add: success_def)

lemma status_ValidationError: "status (ValidationError m d) = 400"
  by (simp add: ValidationError_def AppError_def)

lemma status_mapSupabaseError: "status (mapSupabaseError e opn) \<in> {400, 409, 500}"
  by (simp add: mapSupabaseError_def ValidationError_def DuplicateError_def DatabaseError_def AppError_def)

lemma validateMethod_Inl: "validateMethod req ms = Inl e \<Longrightarrow> status_of e = 400"
  by (auto simp: validateMethod_def status_of_def status_ValidationError split: if_splits)

lemma validateRequired_Inl: "validateRequired fs = Inl e \<Longrightarrow> status_of e = 400"
  by (auto simp: validateRequired_def Let_def status_of_def status_ValidationError split: if_splits)

lemma validateType_Inl: "validateType a n x = Inl e \<Longrightarrow> status_of e = 400"
  by (auto simp: validateType_def status_of_def status_ValidationError split: if_splits)

lemma validateEnum_Inl: "validateEnum a n x = Inl e \<Longrightarrow> status_of e = 400"
  by (auto simp: validateEnum_def status_of_def status_ValidationError split: if_splits)

lemma keywordsToEnrich_Inl:
  "keywordsToEnrich X b = Inl e \<Longrightarrow> status_of e \<in> {400, 409, 500}"
  by (auto simp: keywordsToEnrich_def status_of_def mapSupabaseError_def DuplicateError_def
        DatabaseError_def AppError_def ValidationError_def
      split: if_splits option.splits list.splits sum.splits)

lemma reduce_groups_Inl: "reduce_groups acc ws = Inl e \<Longrightarrow> status_of e = 500"
  by (induction ws arbitrary: acc)
     (auto simp: group_step_def Let_def status_of_def split: sum.splits option.splits if_splits)

lemma byCountry_Inl: "byCountry ws = Inl e \<Longrightarrow> status_of e = 500"
  by (auto simp: byCountry_def split: sum.splits dest: reduce_groups_Inl)

lemma fetchDataForSEO_Inl:
  "fetchDataForSEO E X ks l w = (w', Inl e) \<Longrightarrow> status_of e = 400"
  by (auto simp: fetchDataForSEO_def Let_def status_of_def status_ValidationError
      split: if_splits fetch_outcome.splits)

lemma find_keyword_Inl: "find_keyword E kws r = Inl e \<Longrightarrow> status_of e = 500"
  by (induction kws) (auto simp: status_of_def split: option.splits if_splits)

lemma process_results_Inl:
  "process_results E X c kws rs w acc = (w', Inl e) \<Longrightarrow> status_of e = 500"
proof (induction rs arbitrary: w acc)
  case Nil
  then show ?case by simp
next
  case (Cons r rs)
  show ?case
  proof (cases "find_keyword E kws r")
    case (Inl e')
    with Cons.prems show ?thesis by (auto dest: find_keyword_Inl)
  next
    case (Inr k)
    with Cons.prems show ?thesis by (auto simp: Let_def dest: Cons.IH)
  qed
qed

lemma enrich_groups_Inl:
  "enrich_groups E X gs w acc = (w', Inl e) \<Longrightarrow> status_of e \<in> {400, 500, 502}"
proof (induction gs arbitrary: w acc)
  case Nil
  then show ?case by simp
next
  case (Cons g gs)
  obtain c ks where g: "g = (c, ks)" by (cases g)
  obtain w1 r where f: "fetchDataForSEO E X (map keyword_text ks) (locationCode c) w = (w1, r)"
    by (cases "fetchDataForSEO E X (map keyword_text ks) (locationCode c) w")
  show ?case
  proof (cases r)
    case (Inl e')
    with Cons.prems g f show ?thesis by (auto dest: fetchDataForSEO_Inl)
  next
    case (Inr resp)
    show ?thesis
    proof (cases "truthy (response_error resp)")
      case True
      with Cons.prems g f Inr show ?thesis
        by (auto simp: status_of_def ExternalApiError_def AppError_def)
    next
      case False
      obtain w2 r2 where p: "process_results E X c ks
          (case response_results resp of None \<Rightarrow> [] | Some rs \<Rightarrow> rs) w1 acc = (w2, r2)"
        by (cases "process_results E X c ks
          (case response_results resp of None \<Rightarrow> [] | Some rs \<Rightarrow> rs) w1 acc")
      show ?thesis
      proof (cases r2)
        case (Inl e2)
        with Cons.prems g f Inr False p have "e = e2" by simp
        with p Inl process_results_Inl [of E X c ks _ w1 acc w2 e2] show ?thesis by simp
      next
        case (Inr acc2)
        with Cons.prems g f \<open>r = Inr resp\<close> False p
        have "enrich_groups E X gs w2 acc2 = (w', Inl e)" by simp
        then show ?thesis by (rule Cons.IH)
      qed
    qed
  qed
qed

lemma status_UnauthorizedError: "status_of (App UnauthorizedError) = 401"
  by (simp add: status_of_def UnauthorizedError_def AppError_def)

lemma serp_keyword_rows_Inl:
  "serp_keyword_rows X b = Inl e \<Longrightarrow> status_of e \<in> {400, 409, 500}"
  by (auto simp: serp_keyword_rows_def Let_def status_of_def mapSupabaseError_def DuplicateError_def
        DatabaseError_def AppError_def ValidationError_def validateRequired_def validateType_def
      split: if_splits sum.splits)

lemma fetchSERP_Inl:
  "fetchSERP E X k l w = (w', Inl e) \<Longrightarrow> status_of e = 400"
  by (auto simp: fetchSERP_def Let_def status_of_def status_ValidationError
      split: if_splits fetch_outcome.splits)

lemma serp_keywords_Inl:
  "serp_keywords E X ks w rs recs = (w', Inl e) \<Longrightarrow> status_of e = 400"
proof (induction ks arbitrary: w rs recs)
  case Nil
  then show ?case by simp
next
  case (Cons k ks)
  obtain w1 r where f: "fetchSERP E X (keyword_text k)
      (locationCode (interpolate (kw_country k))) w = (w1, r)"
    by (cases "fetchSERP E X (keyword_text k) (locationCode (interpolate (kw_country k))) w")
  show ?case
  proof (cases r)
    case (Inl e')
    with Cons.prems f show ?thesis by (auto dest: fetchSERP_Inl)
  next
    case (Inr resp)
    with Cons.prems f show ?thesis
      by (auto simp: Let_def split: if_splits dest: Cons.IH)
  qed
qed

lemma enrich_keywords_try_status:
  assumes "enrich_keywords_try E X req = (w, Inl e)"
  shows "status_of e = 401 \<longleftrightarrow> \<not> verifyApiKey req E"
proof (cases "verifyApiKey req E")
  case False
  with assms show ?thesis
    by (auto simp: enrich_keywords_try_def status_UnauthorizedError)
next
  case True
  with assms have "status_of e \<in> {400, 409, 500, 502}"
    by (auto simp: enrich_keywords_try_def split: sum.splits
        dest!: validateMethod_Inl keywordsToEnrich_Inl byCountry_Inl enrich_groups_Inl)
  with True show ?thesis by auto
qed

lemma enrich_keywords_handler_401:
  "http_status (fst (enrich_keywords_handler E X req)) = 401 \<longleftrightarrow> \<not> verifyApiKey req E"
proof (cases "enrich_keywords_try E X req")
  case (Pair w r)
  show ?thesis
  proof (cases r)
    case (Inl e)
    with Pair enrich_keywords_try_status [of E X req w e] show ?thesis
      by (simp add: enrich_keywords_handler_def http_status_error)
  next
    case (Inr rs)
    with Pair have "verifyApiKey req E"
      by (auto simp: enrich_keywords_try_def split: if_splits)
    with Pair Inr show ?thesis
      by (simp add: enrich_keywords_handler_def http_status_success)
  qed
qed

lemma enrich_serp_try_status:
  assumes "enrich_serp_try E X req = (w, Inl e)"
  shows "status_of e = 401 \<longleftrightarrow> \<not> verifyApiKey req E"
proof (cases "verifyApiKey req E")
  case False
  with assms show ?thesis
    by (auto simp: enrich_serp_try_def status_UnauthorizedError)
next
  case True
  with assms have "status_of e \<in> {400, 409, 500}"
    by (auto simp: enrich_serp_try_def split: sum.splits prod.splits
        dest!: validateMethod_Inl serp_keyword_rows_Inl serp_keywords_Inl)
  with True show ?thesis by auto
qed

lemma enrich_serp_handler_401:
  "http_status (fst (enrich_serp_handler E X req)) = 401 \<longleftrightarrow> \<not> verifyApiKey req E"
proof (cases "enrich_serp_try E X req")
  case (Pair w r)
  show ?thesis
  proof (cases r)
    case (Inl e)
    with Pair enrich_serp_try_status [of E X req w e] show ?thesis
      by (simp add: enrich_serp_handler_def http_status_error)
  next
    case (Inr rs)
    with Pair have "verifyApiKey req E"
      by (auto simp: enrich_serp_try_def split: if_splits)
    with Pair Inr show ?thesis
      by (simp add: enrich_serp_handler_def http_status_success split: prod.splits)
  qed
qed

lemma keywords_batch_try_status:
  assumes "keywords_batch_try E S req = Inl e"
  shows "status_of e = 401 \<longleftrightarrow> \<not> verifyApiKey req E"
proof (cases "verifyApiKey req E")
  case False
  with assms show ?thesis
    by (auto simp: keywords_batch_try_def status_UnauthorizedError)
next
  case True
  with assms have "status_of e \<in> {400, 409, 500}"
    by (auto simp: keywords_batch_try_def Let_def status_of_def mapSupabaseError_def
          DuplicateError_def DatabaseError_def AppError_def ValidationError_def
        split: sum.splits if_splits
        dest!: validateMethod_Inl validateRequired_Inl validateType_Inl validateEnum_Inl)
  with True show ?thesis by auto
qed

lemma keywords_batch_handler_401:
  "http_status (keywords_batch_handler E S req) = 401 \<longleftrightarrow> \<not> verifyApiKey req E"
proof (cases "keywords_batch_try E S req")
  case (Inl e)
  with keywords_batch_try_status [of E S req e] show ?thesis
    by (simp add: keywords_batch_handler_def http_status_error)
next
  case (Inr rs)
  then have "verifyApiKey req E"
    by (auto simp: keywords_batch_try_def split: if_splits)
  with Inr show ?thesis
    by (simp add: keywords_batch_handler_def http_status_success)
qed

lemma check_pages_Inl: "check_pages n ps = Inl e \<Longrightarrow> status_of e = 400"
  by (induction ps arbitrary: n)
     (auto simp: status_of_def status_ValidationError split: list.splits prod.splits)

lemma pages_import_try_status:
  assumes "pages_import_try E S req = Inl e"
  shows "status_of e = 401 \<longleftrightarrow> \<not> verifyApiKey req E"
proof (cases "verifyApiKey req E")
  case False
  with assms show ?thesis
    by (auto simp: pages_import_try_def status_UnauthorizedError)
next
  case True
  with assms have "status_of e \<in> {400, 409, 500}"
    by (auto simp: pages_import_try_def Let_def status_of_def mapSupabaseError_def
          DuplicateError_def DatabaseError_def AppError_def ValidationError_def
        split: sum.splits if_splits
        dest!: validateMethod_Inl validateRequired_Inl validateType_Inl check_pages_Inl)
  with True show ?thesis by auto
qed

lemma pages_import_handler_401:
  "http_status (pages_import_handler E S req) = 401 \<longleftrightarrow> \<not> verifyApiKey req E"
proof (cases "pages_import_try E S req")
  case (Inl e)
  with pages_import_try_status [of E S req e] show ?thesis
    by (simp add: pages_import_handler_def http_status_error)
next
  case (Inr rs)
  then have "verifyApiKey req E"
    by (auto simp: pages_import_try_def split: if_splits)
  with Inr show ?thesis
    by (simp add: pages_import_handler_def http_status_success)
qed

lemma keywords_index_try_status:
  assumes "keywords_index_try E S req = Inl e"
  shows "status_of e = 401 \<longleftrightarrow> \<not> verifyApiKey req E"
proof (cases "verifyApiKey req E")
  case False
  with assms show ?thesis
    by (auto simp: keywords_index_try_def status_UnauthorizedError)
next
  case True
  with assms have "status_of e \<in> {400, 500}"
    by (auto simp: keywords_index_try_def Let_def status_of_def status_ValidationError
        split: sum.splits if_splits)
  with True show ?thesis by auto
qed

lemma keywords_index_handler_401:
  "http_status (keywords_index_handler E S req) = 401 \<longleftrightarrow> \<not> verifyApiKey req E"
proof (cases "keywords_index_try E S req")
  case (Inl e)
  with keywords_index_try_status [of E S req e] show ?thesis
    by (simp add: keywords_index_handler_def http_status_error)
next
  case (Inr rs)
  then have "verifyApiKey req E"
    by (auto simp: keywords_index_try_def split: if_splits)
  with Inr show ?thesis
    by (simp add: keywords_index_handler_def http_status_success Let_def)
qed

lemma pages_handler_401:
  "sent_status (pages_handler E S req) = Some 401 \<longleftrightarrow> \<not> verifyApiKey req E"
  by (auto simp: pages_handler_def sent_status_def settle_def http_status_error
        UnauthorizedError_def AppError_def status_of_def ValidationError_def
        pages_handleGet_def pages_handlePost_def http_status_success
      split: sum.splits if_splits)

lemma competitors_handler_401:
  "sent_status (competitors_handler E S req) = Some 401 \<longleftrightarrow> \<not> verifyApiKey req E"
  by (auto simp: competitors_handler_def sent_status_def settle_def http_status_error
        UnauthorizedError_def AppError_def status_of_def ValidationError_def
        competitors_handleGet_def competitors_handlePost_def http_status_success
      split: sum.splits if_splits)

text \<open>
  C10. \<open>verifyApiKey\<close> authorizes a request exactly when its \<open>x-api-key\<close> header is
  strictly equal to the \<open>API_KEY\<close> environment value. So each of the seven
  authenticated endpoints answers 401 exactly when the two differ; and when the
  variable is unset and the request carries no such header, both are \<open>undefined\<close>,
  the equality holds, and no endpoint answers 401.
\<close>

theorem api_key_equality_authorizes:
  "(verifyApiKey (rk :: enrich_body request) E \<longleftrightarrow> x_api_key rk = API_KEY E)
   \<and> (http_status (fst (enrich_keywords_handler E X rk)) = 401 \<longleftrightarrow> x_api_key rk \<noteq> API_KEY E)
   \<and> (http_status (fst (enrich_serp_handler E X rs)) = 401 \<longleftrightarrow> x_api_key rs \<noteq> API_KEY E)
   \<and> (http_status (keywords_batch_handler E KS rb) = 401 \<longleftrightarrow> x_api_key rb \<noteq> API_KEY E)
   \<and> (http_status (keywords_index_handler E LS rl) = 401 \<longleftrightarrow> x_api_key rl \<noteq> API_KEY E)
   \<and> (http_status (pages_import_handler E IS ri) = 401 \<longleftrightarrow> x_api_key ri \<noteq> API_KEY E)
   \<and> (sent_status (pages_handler E CS rp) = Some 401 \<longleftrightarrow> x_api_key rp \<noteq> API_KEY E)
   \<and> (sent_status (competitors_handler E CS rc) = Some 401 \<longleftrightarrow> x_api_key rc \<noteq> API_KEY E)
   \<and> (API_KEY E = None \<and> x_api_key rk = None \<longrightarrow>
        verifyApiKey rk E \<and> http_status (fst (enrich_keywords_handler E X rk)) \<noteq> 401)"
  using enrich_keywords_handler_401 [of E X rk] enrich_serp_handler_401 [of E X rs]
    keywords_batch_handler_401 [of E KS rb] keywords_index_handler_401 [of E LS rl]
    pages_import_handler_401 [of E IS ri] pages_handler_401 [of E CS rp]
    competitors_handler_401 [of E CS rc]
  by (simp add: verifyApiKey_def)

theorem api_key_equality_authorizes_witness:
  "API_KEY sample_env_unset = None
   \<and> x_api_key (sample_enrich_request\<lparr>x_api_key := None\<rparr>) = None
   \<and> verifyApiKey (sample_enrich_request\<lparr>x_api_key := None\<rparr>) sample_env_unset
   \<and> http_status (fst (enrich_keywords_handler sample_env_unset sample_collaborators
         (sample_enrich_request\<lparr>x_api_key := None\<rparr>))) \<noteq> 401"
  using api_key_equality_authorizes
    [where E = sample_env_unset and X = sample_collaborators
       and rk = "sample_enrich_request\<lparr>x_api_key := None\<rparr>"]
  by (simp add: sample_env_unset_def sample_env_def)

section \<open>Location codes\<close>

lemma locationCode_listed:
  "(c, n) \<in> set COUNTRY_TO_LOCATION \<Longrightarrow> locationCode c = Some n"
  by (auto simp: COUNTRY_TO_LOCATION_def locationCode_def)

lemma locationCode_fallback:
  "c \<notin> fst ` set COUNTRY_TO_LOCATION \<Longrightarrow> c \<notin> set object_prototype_keys \<Longrightarrow>
   locationCode c = Some 2826"
  by (auto simp: locationCode_def split: option.splits dest: map_of_SomeD intro: rev_image_eqI)

text \<open>
  C5. Every code of the enumerated set (UK, US, UAE, AU, CA, SG, HK) should have a
  location identifier of its own in the mapping. The code \<open>CA\<close> is accepted as a
  valid country but has no entry in \<open>COUNTRY_TO_LOCATION\<close>: it is resolved by the
  fallback to the identifier of the United Kingdom.
\<close>

theorem canada_has_no_location_code:
  "''CA'' \<in> set VALID_COUNTRIES
   \<and> map_of COUNTRY_TO_LOCATION ''CA'' = None
   \<and> locationCode ''CA'' = Some 2826
   \<and> locationCode ''UK'' = Some 2826
   \<and> set VALID_COUNTRIES - fst ` set COUNTRY_TO_LOCATION = {''CA''}"
  by (auto simp: VALID_COUNTRIES_def COUNTRY_TO_LOCATION_def locationCode_def
      object_prototype_keys_def)

section \<open>The mapping of store errors\<close>

lemma mapSupabaseError_taxonomy:
  "mapSupabaseError e opn =
     (if db_code e = ''23505'' then DuplicateError ''Record''
      else if db_code e = ''23503'' then
        ValidationError ''Referenced record does not exist''
          (JObj (json_member ''constraint'' (db_constraint e)))
      else if db_code e = ''23502'' then
        ValidationError (''Required field is null: '' @ interpolate (db_column e)) JNull
      else DatabaseError opn (db_message e))"
  by (simp add: mapSupabaseError_def)

lemma mapSupabaseError_status:
  "status (mapSupabaseError e opn) =
     (if db_code e = ''23505'' then 409
      else if db_code e = ''23503'' \<or> db_code e = ''23502'' then 400 else 500)"
  by (simp add: mapSupabaseError_def DuplicateError_def ValidationError_def DatabaseError_def
      AppError_def)

text \<open>
  C9. A unique violation (code 23505) surfaced by a handler should become a
  DuplicateError (409). \<open>POST /api/pages\<close> with a URL that exists already: the
  handler throws the store's error as it is, without \<open>mapSupabaseError\<close>, and since
  the helper's promise is returned without \<open>await\<close> the handler's promise is rejected
  with that error. No 409 response is sent; the mapping would have given 409. The
  listing of competitors throws the store's error in the same way.
\<close>

theorem pages_post_unique_violation_unmapped:
  "pages_handler sample_env failing_store sample_page_post = Rejected (Store unique_violation)
   \<and> sent_status (pages_handler sample_env failing_store sample_page_post) \<noteq> Some 409
   \<and> status (mapSupabaseError unique_violation ''insert'') = 409
   \<and> competitors_handler sample_env failing_store sample_competitors_get
       = Rejected (Store unique_violation)"
  by (simp add: pages_handler_def pages_handlePost_def competitors_handler_def
      competitors_handleGet_def settle_def sent_status_def verifyApiKey_def sample_env_def
      failing_store_def sample_page_post_def sample_page_def sample_competitors_get_def
      truthy_def mapSupabaseError_def DuplicateError_def AppError_def unique_violation_def)

section \<open>Strings\<close>

text \<open>What evaluates the ASCII functions on a literal.\<close>

lemmas char_eval = lower_char_def upper_char_def char_of_def bit_0 Let_def ascii_lower_def
  ascii_upper_def is_digit_def host_char_def

lemma sample_env_strings [simp]:
  "toLowerCase sample_env = ascii_lower" "toUpperCase sample_env = ascii_upper"
  "trim sample_env = ascii_trim"
  by (simp_all add: sample_env_def)

lemma starts_with_iff: "starts_with s t \<longleftrightarrow> take (length t) s = t"
  by (induction s t rule: starts_with.induct) auto

lemma starts_with_append: "starts_with s t \<longleftrightarrow> (\<exists>q. s = t @ q)"
  by (metis append_eq_conv_conj append_take_drop_id starts_with_iff)

lemma str_includes_iff: "str_includes s t \<longleftrightarrow> (\<exists>p q. s = p @ t @ q)"
proof (induction s)
  case Nil
  then show ?case by auto
next
  case (Cons c s)
  show ?case
  proof
    assume "str_includes (c # s) t"
    then consider "starts_with (c # s) t" | "str_includes s t" by auto
    then show "\<exists>p q. c # s = p @ t @ q"
    proof cases
      case 1
      then obtain q where "c # s = t @ q" by (auto simp: starts_with_append)
      then have "c # s = [] @ t @ q" by simp
      then show ?thesis by blast
    next
      case 2
      with Cons.IH obtain p q where "s = p @ t @ q" by auto
      then have "c # s = (c # p) @ t @ q" by simp
      then show ?thesis by blast
    qed
  next
    assume "\<exists>p q. c # s = p @ t @ q"
    then obtain p q where pq: "c # s = p @ t @ q" by auto
    show "str_includes (c # s) t"
    proof (cases p)
      case Nil
      with pq have "starts_with (c # s) t" by (auto simp: starts_with_append)
      then show ?thesis by simp
    next
      case (Cons d p')
      with pq have "s = p' @ t @ q" by simp
      with Cons.IH show ?thesis by auto
    qed
  qed
qed

section \<open>The reconciliation loop of the metrics orchestrator\<close>

lemma insert_logged_calls: "calls (insert_logged X r l w) = calls w"
  by (simp add: insert_logged_def split: option.splits)


lemma process_results_calls:
  "calls (fst (process_results E X c kws rs w acc)) = calls w"
  by (induction rs arbitrary: w acc)
     (simp_all add: Let_def insert_logged_calls split: sum.splits option.splits)

lemma process_results_Inr:
  "process_results E X c kws rs w acc = (w', Inr res) \<Longrightarrow>
   res = acc @ map (metric_entry_of c) rs"
proof (induction rs arbitrary: w acc)
  case Nil
  then show ?case by simp
next
  case (Cons r rs)
  show ?case
  proof (cases "find_keyword E kws r")
    case (Inl e)
    with Cons.prems show ?thesis by simp
  next
    case (Inr k)
    with Cons.prems Cons.IH show ?thesis
      by (fastforce simp: Let_def)
  qed
qed

lemma find_keyword_TypeError: "find_keyword E kws r = Inl e \<Longrightarrow> \<exists>m. e = TypeError m"
  by (induction kws) (auto split: option.splits if_splits)

lemma process_results_TypeError:
  "process_results E X c kws rs w acc = (w', Inl e) \<Longrightarrow> \<exists>m. e = TypeError m"
proof (induction rs arbitrary: w acc)
  case Nil
  then show ?case by simp
next
  case (Cons r rs)
  show ?case
  proof (cases "find_keyword E kws r")
    case (Inl e')
    with Cons.prems show ?thesis by (auto dest: find_keyword_TypeError)
  next
    case (Inr k)
    with Cons.prems show ?thesis by (auto simp: Let_def dest: Cons.IH)
  qed
qed


lemma find_keyword_no_text:
  "keyword_text k = None \<Longrightarrow> \<exists>m. find_keyword E (k # kws) r = Inl (TypeError m)"
  by simp

lemma find_keyword_no_keyword:
  "r_keyword r = None \<Longrightarrow> kws \<noteq> [] \<Longrightarrow> \<exists>m. find_keyword E kws r = Inl (TypeError m)"
  by (cases kws) (auto split: option.splits)


lemma matched_entry_None:
  "matched_entry E kws r = None \<longleftrightarrow>
     (\<forall>k \<in> set kws. map_option (toLowerCase E) (keyword_text k)
                       \<noteq> map_option (toLowerCase E) (r_keyword r))"
  by (auto simp: matched_entry_def find_None_iff)







section \<open>The reconciliation loop of the SERP orchestrator\<close>

lemma process_items_eq:
  "process_items X kw items (S, C)
     = (S @ map (serp_row_of X kw) items, C @ concat (map (competitor_rows_of X kw) items))"
  by (induction items arbitrary: S C) simp_all

lemma competitorDomains_None:
  "competitors_data X = Some cs \<Longrightarrow>
   competitorDomains X d = None \<longleftrightarrow> d \<notin> competitor_domain ` set cs"
  by (force simp: competitorDomains_def map_of_eq_None_iff)

lemma competitorDomains_Some:
  "competitors_data X = Some cs \<Longrightarrow> competitorDomains X d = Some i \<Longrightarrow>
   \<exists>c \<in> set cs. competitor_domain c = d \<and> competitor_id c = i"
  by (auto simp: competitorDomains_def dest!: map_of_SomeD)

lemma competitor_rows_of_length:
  assumes "competitors_data X = Some cs" and "\<forall>c \<in> set cs. competitor_id c \<noteq> []"
  shows "length (competitor_rows_of X kw item)
     = (if extractDomain X (url item) \<in> competitor_domain ` set cs then 1 else 0)"
proof (cases "competitorDomains X (extractDomain X (url item))")
  case None
  with assms(1) competitorDomains_None [of X cs "extractDomain X (url item)"]
  have "extractDomain X (url item) \<notin> competitor_domain ` set cs" by simp
  with None show ?thesis
    by (simp add: competitor_rows_of_def truthy_def)
next
  case (Some i)
  with assms(1) competitorDomains_None [of X cs "extractDomain X (url item)"]
  have "extractDomain X (url item) \<in> competitor_domain ` set cs" by simp
  moreover from Some assms have "i \<noteq> []"
    by (auto dest: competitorDomains_Some)
  ultimately show ?thesis using Some
    by (simp add: competitor_rows_of_def truthy_def)
qed

text \<open>
  C7, as amended. For every SERP result item processed by \<open>/enrich/serp\<close>: if its URL
  parses, its domain is the parsed host name (which the platform gives in lower case)
  without a leading \<open>www.\<close>, and if the URL does not parse the domain is the URL as it
  is; the item is flagged \<open>is_hoxton\<close> exactly when the first-party domain occurs as
  a substring of that domain; and the item adds exactly one CompetitorRanking
  candidate when the domain equals a stored competitor domain, and none otherwise.
\<close>

theorem serp_item_reconciliation:
  assumes "competitors_data X = Some cs" and "\<forall>c \<in> set cs. competitor_id c \<noteq> []"
  shows
    "(\<forall>h. hostname_of X (url item) = Some h \<longrightarrow>
        s_domain (serp_row_of X kw item) = (if starts_with h ''www.'' then drop 4 h else h)
        \<and> (\<forall>d. h = ''www.'' @ d \<longrightarrow> s_domain (serp_row_of X kw item) = d)
        \<and> (ascii_lower h = h \<longrightarrow>
             ascii_lower (s_domain (serp_row_of X kw item)) = s_domain (serp_row_of X kw item)))
     \<and> (hostname_of X (url item) = None \<longrightarrow> s_domain (serp_row_of X kw item) = url item)
     \<and> (s_is_hoxton (serp_row_of X kw item)
          \<longleftrightarrow> (\<exists>p q. s_domain (serp_row_of X kw item) = p @ HOXTON_DOMAIN @ q))
     \<and> length (competitor_rows_of X kw item)
          = (if s_domain (serp_row_of X kw item) \<in> competitor_domain ` set cs then 1 else 0)
     \<and> process_items X kw items (S, C)
          = (S @ map (serp_row_of X kw) items, C @ concat (map (competitor_rows_of X kw) items))"
proof -
  have dom: "s_domain (serp_row_of X kw item) = extractDomain X (url item)"
    by (simp add: serp_row_of_def Let_def)
  have parsed: "\<forall>h. hostname_of X (url item) = Some h \<longrightarrow>
        s_domain (serp_row_of X kw item) = (if starts_with h ''www.'' then drop 4 h else h)
        \<and> (\<forall>d. h = ''www.'' @ d \<longrightarrow> s_domain (serp_row_of X kw item) = d)
        \<and> (ascii_lower h = h \<longrightarrow>
             ascii_lower (s_domain (serp_row_of X kw item)) = s_domain (serp_row_of X kw item))"
  proof (intro allI impI conjI)
    fix h assume h: "hostname_of X (url item) = Some h"
    then show d: "s_domain (serp_row_of X kw item)
        = (if starts_with h ''www.'' then drop 4 h else h)"
      by (simp add: dom extractDomain_def)
    show "s_domain (serp_row_of X kw item) = d'" if "h = ''www.'' @ d'" for d'
      using that d by (simp add: starts_with_append)
    show "ascii_lower (s_domain (serp_row_of X kw item)) = s_domain (serp_row_of X kw item)"
      if "ascii_lower h = h"
    proof -
      from that have "ascii_lower (drop 4 h) = drop 4 h"
        by (metis drop_map ascii_lower_def)
      with that d show ?thesis by simp
    qed
  qed
  have unparsed: "hostname_of X (url item) = None \<longrightarrow> s_domain (serp_row_of X kw item) = url item"
    by (simp add: dom extractDomain_def)
  have hox: "s_is_hoxton (serp_row_of X kw item)
      \<longleftrightarrow> (\<exists>p q. s_domain (serp_row_of X kw item) = p @ HOXTON_DOMAIN @ q)"
    by (simp add: serp_row_of_def Let_def str_includes_iff)
  from parsed unparsed hox competitor_rows_of_length [OF assms] show ?thesis
    by (simp only: dom process_items_eq simp_thms)
qed

section \<open>Evaluation on the sample inputs\<close>

lemma hostname_example:
  "hostname_of sample_collaborators (url example_item) = Some ''www.example.com''"
  by (simp add: sample_collaborators_def example_item_def plain_hostname_def char_eval)

lemma hostname_hoxton:
  "hostname_of sample_collaborators (url hoxton_item) = Some ''www.hoxtonwealth.com''"
  by (simp add: sample_collaborators_def hoxton_item_def plain_hostname_def char_eval)

lemma hostname_schemeless:
  "hostname_of sample_collaborators (url schemeless_item) = None"
  by (simp add: sample_collaborators_def schemeless_item_def plain_hostname_def char_eval)

theorem serp_item_reconciliation_witness:
  "competitors_data sample_collaborators
     = Some [\<lparr>competitor_id = ''comp-1'', competitor_domain = ''example.com''\<rparr>]
   \<and> hostname_of sample_collaborators (url example_item) = Some ''www.example.com''
   \<and> ascii_lower ''www.example.com'' = ''www.example.com''
   \<and> s_domain (serp_row_of sample_collaborators kw1 example_item) = ''example.com''
   \<and> length (competitor_rows_of sample_collaborators kw1 example_item) = 1
   \<and> \<not> s_is_hoxton (serp_row_of sample_collaborators kw1 example_item)
   \<and> hostname_of sample_collaborators (url hoxton_item) = Some ''www.hoxtonwealth.com''
   \<and> s_domain (serp_row_of sample_collaborators kw1 hoxton_item) = ''hoxtonwealth.com''
   \<and> s_is_hoxton (serp_row_of sample_collaborators kw1 hoxton_item)
   \<and> length (competitor_rows_of sample_collaborators kw1 hoxton_item) = 0
   \<and> hostname_of sample_collaborators (url schemeless_item) = None
   \<and> s_domain (serp_row_of sample_collaborators kw1 schemeless_item) = url schemeless_item"
proof -
  have c: "competitors_data sample_collaborators
      = Some [\<lparr>competitor_id = ''comp-1'', competitor_domain = ''example.com''\<rparr>]"
    by (simp add: sample_collaborators_def)
  have ids: "\<forall>c \<in> set [\<lparr>competitor_id = ''comp-1'', competitor_domain = ''example.com''\<rparr>].
      competitor_id c \<noteq> []"
    by simp
  note h1 = hostname_example and h2 = hostname_hoxton and h3 = hostname_schemeless
  have low: "ascii_lower ''www.example.com'' = ''www.example.com''"
    by (simp add: char_eval)
  note spec = serp_item_reconciliation [OF c ids, where kw = kw1 and items = "[]"
      and S = "[]" and C = "[]"]
  from spec [where item = example_item] h1
  have d1: "s_domain (serp_row_of sample_collaborators kw1 example_item) = ''example.com''"
    by simp
  from spec [where item = hoxton_item] h2
  have d2: "s_domain (serp_row_of sample_collaborators kw1 hoxton_item) = ''hoxtonwealth.com''"
    by simp
  from spec [where item = schemeless_item] h3
  have d3: "s_domain (serp_row_of sample_collaborators kw1 schemeless_item) = url schemeless_item"
    by simp
  from spec [where item = example_item] d1
  have n1: "length (competitor_rows_of sample_collaborators kw1 example_item) = 1"
    by simp
  from spec [where item = hoxton_item] d2
  have n2: "length (competitor_rows_of sample_collaborators kw1 hoxton_item) = 0"
    by simp
  have "''hoxtonwealth.com'' = [] @ HOXTON_DOMAIN @ []"
    by (simp add: HOXTON_DOMAIN_def)
  with spec [where item = hoxton_item] d2
  have x2: "s_is_hoxton (serp_row_of sample_collaborators kw1 hoxton_item)"
    by (simp only:) blast
  have x1: "\<not> s_is_hoxton (serp_row_of sample_collaborators kw1 example_item)"
    by (simp add: serp_row_of_def extractDomain_def h1 HOXTON_DOMAIN_def)
  from c h1 h2 h3 low d1 d2 d3 n1 n2 x1 x2 show ?thesis
    by (simp only: simp_thms)
qed

text \<open>
  C7 as stated fails where the item's URL does not parse: the URL \<open>www.Example.com/page\<close>
  has no scheme, the URL constructor throws, and the domain recorded for the item is
  the URL itself, with its \<open>www.\<close> prefix, its upper-case letter and its path.
\<close>

theorem unparsed_url_is_kept_as_domain:
  "hostname_of sample_collaborators (url schemeless_item) = None
   \<and> s_domain (serp_row_of sample_collaborators kw1 schemeless_item) = ''www.Example.com/page''
   \<and> starts_with (s_domain (serp_row_of sample_collaborators kw1 schemeless_item)) ''www.''
   \<and> ascii_lower (s_domain (serp_row_of sample_collaborators kw1 schemeless_item))
       \<noteq> s_domain (serp_row_of sample_collaborators kw1 schemeless_item)"
  using hostname_schemeless
  by (simp add: serp_row_of_def extractDomain_def schemeless_item_def char_eval)

section \<open>Persistence failures do not reach the response\<close>

lemma same_requests_refl: "same_requests w w"
  by (simp add: same_requests_def)

lemma insert_logged_same:
  "same_requests w1 w2 \<Longrightarrow>
   same_requests (insert_logged (X\<lparr>insert_error := f\<rparr>) r l w1) (insert_logged X r l w2)"
  by (simp add: same_requests_def insert_logged_def split: option.splits)

lemma fetchDataForSEO_same:
  assumes "same_requests w1 w2"
  shows "snd (fetchDataForSEO E (X\<lparr>insert_error := f\<rparr>) ks l w1) = snd (fetchDataForSEO E X ks l w2)
     \<and> same_requests (fst (fetchDataForSEO E (X\<lparr>insert_error := f\<rparr>) ks l w1))
          (fst (fetchDataForSEO E X ks l w2))"
  using assms
  by (simp add: fetchDataForSEO_def same_requests_def Let_def split: fetch_outcome.splits)

lemma process_results_same:
  "same_requests w1 w2 \<Longrightarrow>
   snd (process_results E (X\<lparr>insert_error := f\<rparr>) c kws rs w1 acc)
     = snd (process_results E X c kws rs w2 acc)
   \<and> same_requests (fst (process_results E (X\<lparr>insert_error := f\<rparr>) c kws rs w1 acc))
        (fst (process_results E X c kws rs w2 acc))"
proof (induction rs arbitrary: w1 w2 acc)
  case Nil
  then show ?case by simp
next
  case (Cons r rs)
  show ?case
  proof (cases "find_keyword E kws r")
    case (Inl e)
    with Cons.prems show ?thesis by simp
  next
    case (Inr k)
    let ?step = "\<lambda>Y w. case k of
        None \<Rightarrow> w
      | Some k \<Rightarrow>
          (case kw_id k of
             None \<Rightarrow> w
           | Some i \<Rightarrow>
               if i \<noteq> [] then
                 insert_logged Y (InsertMetric (metric_row_of i r)) ''Failed to insert metrics:'' w
               else w)"
    from Cons.prems have "same_requests (?step (X\<lparr>insert_error := f\<rparr>) w1) (?step X w2)"
      by (simp add: insert_logged_same split: option.splits)
    from Cons.IH [OF this, of "acc @ [metric_entry_of c r]"] Inr show ?thesis
      by (simp add: Let_def)
  qed
qed

lemma enrich_groups_same:
  "same_requests w1 w2 \<Longrightarrow>
   snd (enrich_groups E (X\<lparr>insert_error := f\<rparr>) gs w1 acc) = snd (enrich_groups E X gs w2 acc)
   \<and> same_requests (fst (enrich_groups E (X\<lparr>insert_error := f\<rparr>) gs w1 acc))
        (fst (enrich_groups E X gs w2 acc))"
proof (induction gs arbitrary: w1 w2 acc)
  case Nil
  then show ?case by simp
next
  case (Cons g gs)
  obtain c ks where g: "g = (c, ks)" by (cases g)
  let ?X = "X\<lparr>insert_error := f\<rparr>"
  obtain v1 r1 where f1: "fetchDataForSEO E ?X (map keyword_text ks) (locationCode c) w1 = (v1, r1)"
    by (cases "fetchDataForSEO E ?X (map keyword_text ks) (locationCode c) w1")
  obtain v2 r2 where f2: "fetchDataForSEO E X (map keyword_text ks) (locationCode c) w2 = (v2, r2)"
    by (cases "fetchDataForSEO E X (map keyword_text ks) (locationCode c) w2")
  from fetchDataForSEO_same [OF Cons.prems, where E = E and X = X and f = f
      and ks = "map keyword_text ks" and l = "locationCode c"] f1 f2
  have r: "r1 = r2" and v: "same_requests v1 v2" by simp_all
  show ?case
  proof (cases r2)
    case (Inl e)
    with g f1 f2 r v show ?thesis by simp
  next
    case (Inr resp)
    show ?thesis
    proof (cases "truthy (response_error resp)")
      case True
      with g f1 f2 r v Inr show ?thesis by simp
    next
      case False
      let ?rs = "case response_results resp of None \<Rightarrow> [] | Some rs \<Rightarrow> rs"
      obtain u1 q1 where p1: "process_results E ?X c ks ?rs v1 acc = (u1, q1)"
        by (cases "process_results E ?X c ks ?rs v1 acc")
      obtain u2 q2 where p2: "process_results E X c ks ?rs v2 acc = (u2, q2)"
        by (cases "process_results E X c ks ?rs v2 acc")
      from process_results_same [OF v, where E = E and X = X and f = f and c = c and kws = ks
          and rs = ?rs and acc = acc] p1 p2
      have q: "q1 = q2" and u: "same_requests u1 u2" by simp_all
      show ?thesis
      proof (cases q2)
        case (Inl e)
        with g f1 f2 r \<open>r2 = Inr resp\<close> False p1 p2 q u show ?thesis by simp
      next
        case (Inr acc2)
        from Cons.IH [OF u, of acc2] show ?thesis
          using g f1 f2 r \<open>r2 = Inr resp\<close> False p1 p2 q Inr by simp
      qed
    qed
  qed
qed

lemma select_keywords_in_insert_error [simp]:
  "select_keywords_in (X\<lparr>insert_error := f\<rparr>) ids = select_keywords_in X ids"
  by (simp add: select_keywords_in_def split: option.splits)

lemma keywordsToEnrich_insert_error [simp]:
  "keywordsToEnrich (X\<lparr>insert_error := f\<rparr>) b = keywordsToEnrich X b"
  by (simp add: keywordsToEnrich_def cong: option.case_cong list.case_cong sum.case_cong)

lemma enrich_keywords_try_same:
  "snd (enrich_keywords_try E (X\<lparr>insert_error := f\<rparr>) req) = snd (enrich_keywords_try E X req)
   \<and> same_requests (fst (enrich_keywords_try E (X\<lparr>insert_error := f\<rparr>) req))
        (fst (enrich_keywords_try E X req))"
  using enrich_groups_same [OF same_requests_refl, where E = E and X = X and f = f
      and acc = "[]"]
  by (simp add: enrich_keywords_try_def same_requests_refl split: sum.splits)

lemma enrich_keywords_handler_same:
  "fst (enrich_keywords_handler E (X\<lparr>insert_error := f\<rparr>) req) = fst (enrich_keywords_handler E X req)
   \<and> same_requests (snd (enrich_keywords_handler E (X\<lparr>insert_error := f\<rparr>) req))
        (snd (enrich_keywords_handler E X req))"
proof -
  obtain w1 r1 where t1: "enrich_keywords_try E (X\<lparr>insert_error := f\<rparr>) req = (w1, r1)"
    by (cases "enrich_keywords_try E (X\<lparr>insert_error := f\<rparr>) req")
  obtain w2 r2 where t2: "enrich_keywords_try E X req = (w2, r2)"
    by (cases "enrich_keywords_try E X req")
  from enrich_keywords_try_same [where E = E and X = X and f = f and req = req] t1 t2
  have "r1 = r2" and "same_requests w1 w2" by simp_all
  with t1 t2 show ?thesis
    by (simp add: enrich_keywords_handler_def split: sum.splits)
qed

lemma extractDomain_insert_error [simp]:
  "extractDomain (X\<lparr>insert_error := f\<rparr>) u = extractDomain X u"
  by (simp add: extractDomain_def)

lemma serp_row_of_insert_error [simp]:
  "serp_row_of (X\<lparr>insert_error := f\<rparr>) k = serp_row_of X k"
  by (rule ext) (simp add: serp_row_of_def)

lemma competitor_rows_of_insert_error [simp]:
  "competitor_rows_of (X\<lparr>insert_error := f\<rparr>) k = competitor_rows_of X k"
  by (rule ext) (simp add: competitor_rows_of_def competitorDomains_def)

lemma hoxton_position_insert_error [simp]:
  "hoxton_position (X\<lparr>insert_error := f\<rparr>) items = hoxton_position X items"
  by (simp add: hoxton_position_def)

lemma process_items_insert_error [simp]:
  "process_items (X\<lparr>insert_error := f\<rparr>) k items recs = process_items X k items recs"
  by (cases recs) (simp add: process_items_eq)

lemma fetchSERP_insert_error [simp]:
  "fetchSERP E (X\<lparr>insert_error := f\<rparr>) k l w = fetchSERP E X k l w"
  by (simp add: fetchSERP_def)

lemma serp_keywords_insert_error [simp]:
  "serp_keywords E (X\<lparr>insert_error := f\<rparr>) ks w rs recs = serp_keywords E X ks w rs recs"
  by (induction ks arbitrary: w rs recs) (simp_all split: prod.splits sum.splits)

lemma serp_keyword_rows_insert_error [simp]:
  "serp_keyword_rows (X\<lparr>insert_error := f\<rparr>) b = serp_keyword_rows X b"
  by (simp add: serp_keyword_rows_def Let_def cong: sum.case_cong if_cong)

lemma insert_serp_records_same:
  "same_requests (insert_serp_records (X\<lparr>insert_error := f\<rparr>) recs w) (insert_serp_records X recs w)"
  by (cases recs)
     (simp add: insert_serp_records_def insert_logged_same same_requests_refl)

lemma enrich_serp_try_same:
  "snd (enrich_serp_try E (X\<lparr>insert_error := f\<rparr>) req) = snd (enrich_serp_try E X req)
   \<and> same_requests (fst (enrich_serp_try E (X\<lparr>insert_error := f\<rparr>) req))
        (fst (enrich_serp_try E X req))"
  by (simp add: enrich_serp_try_def same_requests_refl insert_serp_records_same
      split: sum.splits prod.splits)

lemma enrich_serp_handler_same:
  "fst (enrich_serp_handler E (X\<lparr>insert_error := f\<rparr>) req) = fst (enrich_serp_handler E X req)
   \<and> same_requests (snd (enrich_serp_handler E (X\<lparr>insert_error := f\<rparr>) req))
        (snd (enrich_serp_handler E X req))"
proof -
  obtain w1 r1 where t1: "enrich_serp_try E (X\<lparr>insert_error := f\<rparr>) req = (w1, r1)"
    by (cases "enrich_serp_try E (X\<lparr>insert_error := f\<rparr>) req")
  obtain w2 r2 where t2: "enrich_serp_try E X req = (w2, r2)"
    by (cases "enrich_serp_try E X req")
  from enrich_serp_try_same [where E = E and X = X and f = f and req = req] t1 t2
  have "r1 = r2" and "same_requests w1 w2" by simp_all
  with t1 t2 show ?thesis
    by (simp add: enrich_serp_handler_def split: sum.splits prod.splits)
qed

subsection \<open>Each failed insert is logged once\<close>

lemma failed_inserts_insert_logged:
  "length (insert_failure_lines w) = length (failed_inserts X w) \<Longrightarrow>
   l \<noteq> ''Unexpected error:'' \<Longrightarrow>
   length (insert_failure_lines (insert_logged X r l w))
     = length (failed_inserts X (insert_logged X r l w))"
  by (simp add: insert_logged_def failed_inserts_def insert_failure_lines_def
      split: option.splits)

lemma fetchDataForSEO_logged:
  "length (insert_failure_lines w) = length (failed_inserts X w) \<Longrightarrow>
   length (insert_failure_lines (fst (fetchDataForSEO E X ks l w)))
     = length (failed_inserts X (fst (fetchDataForSEO E X ks l w)))"
  by (simp add: fetchDataForSEO_def failed_inserts_def insert_failure_lines_def Let_def
      split: fetch_outcome.splits)

lemma process_results_logged:
  "length (insert_failure_lines w) = length (failed_inserts X w) \<Longrightarrow>
   length (insert_failure_lines (fst (process_results E X c kws rs w acc)))
     = length (failed_inserts X (fst (process_results E X c kws rs w acc)))"
  by (induction rs arbitrary: w acc)
     (simp_all add: Let_def failed_inserts_insert_logged split: sum.splits option.splits)

lemma enrich_groups_logged:
  "length (insert_failure_lines w) = length (failed_inserts X w) \<Longrightarrow>
   length (insert_failure_lines (fst (enrich_groups E X gs w acc)))
     = length (failed_inserts X (fst (enrich_groups E X gs w acc)))"
proof (induction gs arbitrary: w acc)
  case Nil
  then show ?case by simp
next
  case (Cons g gs)
  obtain c ks where g: "g = (c, ks)" by (cases g)
  obtain w1 r where f: "fetchDataForSEO E X (map keyword_text ks) (locationCode c) w = (w1, r)"
    by (cases "fetchDataForSEO E X (map keyword_text ks) (locationCode c) w")
  from fetchDataForSEO_logged [OF Cons.prems, where E = E and ks = "map keyword_text ks"
      and l = "locationCode c"] f
  have w1: "length (insert_failure_lines w1) = length (failed_inserts X w1)" by simp
  show ?case
  proof (cases r)
    case (Inl e)
    with g f w1 show ?thesis by simp
  next
    case (Inr resp)
    show ?thesis
    proof (cases "truthy (response_error resp)")
      case True
      with g f w1 Inr show ?thesis by simp
    next
      case False
      let ?rs = "case response_results resp of None \<Rightarrow> [] | Some rs \<Rightarrow> rs"
      obtain w2 q where p: "process_results E X c ks ?rs w1 acc = (w2, q)"
        by (cases "process_results E X c ks ?rs w1 acc")
      from process_results_logged [OF w1, where E = E and c = c and kws = ks and rs = ?rs
          and acc = acc] p
      have w2: "length (insert_failure_lines w2) = length (failed_inserts X w2)" by simp
      show ?thesis
      proof (cases q)
        case (Inl e)
        with g f \<open>r = Inr resp\<close> False p w2 show ?thesis by simp
      next
        case (Inr acc2)
        from Cons.IH [OF w2, of acc2] show ?thesis
          using g f \<open>r = Inr resp\<close> False p Inr by simp
      qed
    qed
  qed
qed

lemma world0_logged: "length (insert_failure_lines world0) = length (failed_inserts X world0)"
  by (simp add: world0_def failed_inserts_def insert_failure_lines_def)

lemma enrich_keywords_handler_logged:
  "length (insert_failure_lines (snd (enrich_keywords_handler E X req)))
     = length (failed_inserts X (snd (enrich_keywords_handler E X req)))"
proof -
  obtain w r where t: "enrich_keywords_try E X req = (w, r)"
    by (cases "enrich_keywords_try E X req")
  have "length (insert_failure_lines (fst (enrich_keywords_try E X req)))
      = length (failed_inserts X (fst (enrich_keywords_try E X req)))"
    using enrich_groups_logged [OF world0_logged, where E = E and X = X and acc = "[]"]
    by (simp add: enrich_keywords_try_def world0_logged split: sum.splits)
  with t have "length (insert_failure_lines w) = length (failed_inserts X w)" by simp
  with t show ?thesis
    by (simp add: enrich_keywords_handler_def split: sum.splits)
qed

lemma fetchSERP_world:
  "inserts (fst (fetchSERP E X k l w)) = inserts w \<and> console (fst (fetchSERP E X k l w)) = console w"
  by (simp add: fetchSERP_def Let_def split: fetch_outcome.splits)

lemma serp_keywords_world:
  "inserts (fst (serp_keywords E X ks w rs recs)) = inserts w
   \<and> console (fst (serp_keywords E X ks w rs recs)) = console w"
proof (induction ks arbitrary: w rs recs)
  case Nil
  then show ?case by simp
next
  case (Cons k ks)
  obtain w1 r where f: "fetchSERP E X (keyword_text k)
      (locationCode (interpolate (kw_country k))) w = (w1, r)"
    by (cases "fetchSERP E X (keyword_text k) (locationCode (interpolate (kw_country k))) w")
  with fetchSERP_world [of E X "keyword_text k" "locationCode (interpolate (kw_country k))" w]
  have "inserts w1 = inserts w" "console w1 = console w" by simp_all
  with f Cons.IH [of w1] show ?case
    by (simp add: Let_def split: sum.splits)
qed

lemma insert_serp_records_logged:
  "length (insert_failure_lines w) = length (failed_inserts X w) \<Longrightarrow>
   length (insert_failure_lines (insert_serp_records X recs w))
     = length (failed_inserts X (insert_serp_records X recs w))"
  by (cases recs) (simp add: insert_serp_records_def failed_inserts_insert_logged)

lemma enrich_serp_try_logged:
  "length (insert_failure_lines (fst (enrich_serp_try E X req)))
     = length (failed_inserts X (fst (enrich_serp_try E X req)))"
proof (cases "verifyApiKey req E \<and> validateMethod req [''POST''] = Inr ()
    \<and> (\<exists>rows. serp_keyword_rows X (body req) = Inr rows)")
  case False
  then show ?thesis
    by (auto simp: enrich_serp_try_def world0_logged split: sum.splits)
next
  case True
  then obtain rows where rows: "serp_keyword_rows X (body req) = Inr rows" by auto
  obtain w r where k: "serp_keywords E X rows world0 [] ([], []) = (w, r)"
    by (cases "serp_keywords E X rows world0 [] ([], [])")
  from serp_keywords_world [of E X rows world0 "[]" "([], [])"] k
  have w: "length (insert_failure_lines w) = length (failed_inserts X w)"
    by (simp add: failed_inserts_def world0_def insert_failure_lines_def)
  show ?thesis
  proof (cases r)
    case (Inl e)
    with True rows k w show ?thesis by (simp add: enrich_serp_try_def)
  next
    case (Inr v)
    obtain results records where v: "v = (results, records)" by (cases v)
    from insert_serp_records_logged [OF w]
    have "length (insert_failure_lines (insert_serp_records X records w))
        = length (failed_inserts X (insert_serp_records X records w))" .
    with True rows k Inr v show ?thesis by (simp add: enrich_serp_try_def)
  qed
qed

lemma enrich_serp_handler_logged:
  "length (insert_failure_lines (snd (enrich_serp_handler E X req)))
     = length (failed_inserts X (snd (enrich_serp_handler E X req)))"
proof -
  obtain w r where t: "enrich_serp_try E X req = (w, r)"
    by (cases "enrich_serp_try E X req")
  with enrich_serp_try_logged [of E X req]
  have "length (insert_failure_lines w) = length (failed_inserts X w)" by simp
  with t show ?thesis
    by (simp add: enrich_serp_handler_def split: sum.splits prod.splits)
qed

section \<open>The sample requests, run\<close>

lemma sample_working_set:
  "keywordsToEnrich sample_collaborators (body sample_enrich_request) = Inr sample_keywords"
  by (simp add: keywordsToEnrich_def sample_enrich_request_def select_keywords_in_def
      sample_collaborators_def sample_keywords_def kw1_def kw2_def kw3_def)

lemma sample_groups:
  "byCountry sample_keywords = Inr [(''UK'', [kw1, kw3]), (''US'', [kw2])]"
  by (simp add: byCountry_def sample_keywords_def group_step_def or_else_def kw1_def kw2_def
      kw3_def object_prototype_keys_def object_entries_def is_array_index_def is_digit_def
      Let_def)

lemma sample_metrics_run:
  "enrich_groups sample_env sample_collaborators [(''UK'', [kw1, kw3]), (''US'', [kw2])] world0 []
     = (sample_metrics_world, Inr sample_entries)"
  by (simp add: fetchDataForSEO_def sample_env_def truthy_def sample_collaborators_def world0_def
      locationCode_def COUNTRY_TO_LOCATION_def kw1_def kw2_def kw3_def ok_task_def
      first_task_result_def insert_logged_def metric_row_of_def metric_entry_of_def or0_def
      sample_entries_def sample_metrics_world_def char_eval)

lemma show_nat_3: "show_nat (Suc (Suc (Suc 0))) = ''3''"
proof -
  have "show_nat 3 = ''3''"
    by (simp add: show_nat.simps [of 3] digit_char_def char_of_def bit_0)
  then show ?thesis by (simp add: numeral_3_eq_3)
qed

lemma sample_metrics_response:
  "enrich_keywords_handler sample_env sample_collaborators sample_enrich_request
     = (success (clock sample_env) sample_entries
          [(''count'', JNum 3), (''message'', JStr ''Enriched 3 keywords'')],
        sample_metrics_world)"
proof -
  have "verifyApiKey sample_enrich_request sample_env"
    by (simp add: verifyApiKey_def sample_enrich_request_def sample_env_def)
  moreover have "validateMethod sample_enrich_request [''POST''] = Inr ()"
    by (simp add: validateMethod_def sample_enrich_request_def)
  ultimately show ?thesis
    by (simp del: enrich_groups.simps
        add: enrich_keywords_handler_def enrich_keywords_try_def sample_working_set
          sample_groups sample_metrics_run sample_entries_def show_nat_3)
qed

lemma sample_serp_rows_selected:
  "serp_keyword_rows sample_collaborators (body sample_serp_request) = Inr sample_keywords"
  by (simp add: serp_keyword_rows_def sample_serp_request_def validateRequired_def
      validateType_def actual_type_def elements_def select_keywords_in_def
      sample_collaborators_def sample_keywords_def kw1_def kw2_def kw3_def)

lemma sample_organic:
  "filter (\<lambda>item. item_type item = ''organic'') sample_items = [hoxton_item, example_item]"
  by (simp add: sample_items_def hoxton_item_def example_item_def)

lemma sample_serp_row_hoxton:
  "serp_row_of sample_collaborators k hoxton_item
     = \<lparr>s_keyword_id = kw_id k, s_position = 1,
        s_url = ''https://www.hoxtonwealth.com/retirement'', s_domain = ''hoxtonwealth.com'',
        s_title = ''Retirement'', s_is_hoxton = True\<rparr>"
  using hostname_hoxton
  by (simp add: serp_row_of_def extractDomain_def hoxton_item_def HOXTON_DOMAIN_def)

lemma sample_serp_row_example:
  "serp_row_of sample_collaborators k example_item
     = \<lparr>s_keyword_id = kw_id k, s_position = 3, s_url = ''https://www.Example.com/'',
        s_domain = ''example.com'', s_title = ''Example'', s_is_hoxton = False\<rparr>"
  using hostname_example
  by (simp add: serp_row_of_def extractDomain_def example_item_def HOXTON_DOMAIN_def)

lemma sample_competitor_hoxton:
  "competitor_rows_of sample_collaborators k hoxton_item = []"
  using hostname_hoxton
  by (simp add: competitor_rows_of_def extractDomain_def competitorDomains_def truthy_def
      sample_collaborators_def hoxton_item_def)

lemma sample_competitor_example:
  "competitor_rows_of sample_collaborators k example_item
     = [\<lparr>c_keyword_id = kw_id k, c_competitor_id = ''comp-1'', c_position = 3,
         c_url = ''https://www.Example.com/''\<rparr>]"
  using hostname_example
  by (simp add: competitor_rows_of_def extractDomain_def competitorDomains_def truthy_def
      sample_collaborators_def example_item_def interpolate_def)

lemma sample_hoxton_position:
  "hoxton_position sample_collaborators [hoxton_item, example_item] = Some 1"
  using hostname_hoxton
  by (simp add: hoxton_position_def extractDomain_def hoxton_item_def HOXTON_DOMAIN_def)

lemma sample_serp_run:
  "serp_keywords sample_env sample_collaborators sample_keywords world0 [] ([], [])
     = (sample_serp_world\<lparr>inserts := []\<rparr>,
        Inr (sample_serp_results,
             sample_serp_rows ''kw-1'' @ sample_serp_rows ''kw-3'',
             sample_competitor_rows ''kw-1'' @ sample_competitor_rows ''kw-3''))"
proof -
  have replies:
    "serp_reply sample_collaborators 0
       = (\<lambda>kw location. Replied 20000 (Some ''Ok.'') (ok_task [\<lparr>block_items = Some sample_items\<rparr>]))"
    "serp_reply sample_collaborators (Suc 0) = (\<lambda>kw location. Threw ''fetch failed'')"
    "serp_reply sample_collaborators (Suc (Suc 0))
       = (\<lambda>kw location. Replied 20000 (Some ''Ok.'') (ok_task [\<lparr>block_items = Some sample_items\<rparr>]))"
    by (simp_all add: sample_collaborators_def)
  show ?thesis
    by (simp add: sample_keywords_def fetchSERP_def sample_env_def truthy_def world0_def
        replies sample_organic process_items_eq sample_serp_row_hoxton sample_serp_row_example
        sample_competitor_hoxton sample_competitor_example sample_hoxton_position
        locationCode_def COUNTRY_TO_LOCATION_def kw1_def kw2_def kw3_def interpolate_def
        sample_serp_world_def sample_serp_results_def sample_serp_rows_def
        sample_competitor_rows_def ok_task_def first_task_result_def first_block_items_def)
qed

lemma sample_serp_response:
  "enrich_serp_handler sample_env sample_collaborators sample_serp_request
     = (success (clock sample_env) sample_serp_results
          [(''keywords_processed'', JNum 3), (''serp_records'', JNum 4),
           (''competitor_records'', JNum 2)],
        sample_serp_world)"
proof -
  have "verifyApiKey sample_serp_request sample_env"
    by (simp add: verifyApiKey_def sample_serp_request_def sample_env_def)
  moreover have "validateMethod sample_serp_request [''POST''] = Inr ()"
    by (simp add: validateMethod_def sample_serp_request_def)
  moreover have "insert_error sample_collaborators = (\<lambda>n. None)"
    by (simp add: sample_collaborators_def)
  ultimately show ?thesis
    by (simp del: serp_keywords.simps
        add: enrich_serp_handler_def enrich_serp_try_def sample_serp_rows_selected
          sample_serp_run insert_serp_records_def insert_logged_def sample_serp_world_def
          sample_serp_results_def sample_serp_rows_def sample_competitor_rows_def)
qed

text \<open>
  C2. In both enrichment handlers a failing insert of KeywordMetric, SerpRanking or
  CompetitorRanking rows is logged and swallowed. Whatever errors the store returns
  for the inserts of a request (\<open>f\<close> in place of the store's own), the response is
  the same, status and body, so it is the response of the request whose inserts all
  succeed; the same rows are handed to the store; and the console holds one line
  reporting a failed insert for each insert that failed.
\<close>

theorem persistence_failures_are_swallowed:
  "fst (enrich_keywords_handler E (X\<lparr>insert_error := f\<rparr>) rk) = fst (enrich_keywords_handler E X rk)
   \<and> fst (enrich_serp_handler E (X\<lparr>insert_error := f\<rparr>) rs) = fst (enrich_serp_handler E X rs)
   \<and> inserts (snd (enrich_keywords_handler E (X\<lparr>insert_error := f\<rparr>) rk))
       = inserts (snd (enrich_keywords_handler E X rk))
   \<and> inserts (snd (enrich_serp_handler E (X\<lparr>insert_error := f\<rparr>) rs))
       = inserts (snd (enrich_serp_handler E X rs))
   \<and> length (insert_failure_lines (snd (enrich_keywords_handler E X rk)))
       = length (failed_inserts X (snd (enrich_keywords_handler E X rk)))
   \<and> length (insert_failure_lines (snd (enrich_serp_handler E X rs)))
       = length (failed_inserts X (snd (enrich_serp_handler E X rs)))"
  using enrich_keywords_handler_same [where E = E and X = X and f = f and req = rk]
    enrich_serp_handler_same [where E = E and X = X and f = f and req = rs]
    enrich_keywords_handler_logged [of E X rk] enrich_serp_handler_logged [of E X rs]
  by (simp add: same_requests_def)

theorem persistence_failures_are_swallowed_witness:
  "insert_error failing_inserts 0 = Some unique_violation
   \<and> http_status (fst (enrich_keywords_handler sample_env failing_inserts sample_enrich_request)) = 200
   \<and> envelope (fst (enrich_keywords_handler sample_env failing_inserts sample_enrich_request))
       = SuccessBody sample_entries
           [(''timestamp'', JStr (clock sample_env)), (''count'', JNum 3),
            (''message'', JStr ''Enriched 3 keywords'')]
   \<and> length (insert_failure_lines (snd (enrich_keywords_handler sample_env failing_inserts sample_enrich_request))) = 3
   \<and> http_status (fst (enrich_serp_handler sample_env failing_inserts sample_serp_request)) = 200
   \<and> envelope (fst (enrich_serp_handler sample_env failing_inserts sample_serp_request))
       = SuccessBody sample_serp_results
           [(''timestamp'', JStr (clock sample_env)), (''keywords_processed'', JNum 3),
            (''serp_records'', JNum 4), (''competitor_records'', JNum 2)]
   \<and> length (insert_failure_lines (snd (enrich_serp_handler sample_env failing_inserts sample_serp_request))) = 2"
proof -
  note spec = persistence_failures_are_swallowed
    [where E = sample_env and X = sample_collaborators and f = "\<lambda>n. Some unique_violation"
       and rk = sample_enrich_request and rs = sample_serp_request,
     folded failing_inserts_def]
  note logged = persistence_failures_are_swallowed
    [where E = sample_env and X = failing_inserts and f = "\<lambda>n. Some unique_violation"
       and rk = sample_enrich_request and rs = sample_serp_request]
  have e: "insert_error failing_inserts = (\<lambda>n. Some unique_violation)"
    by (simp add: failing_inserts_def)
  from spec have m: "fst (enrich_keywords_handler sample_env failing_inserts sample_enrich_request)
      = success (clock sample_env) sample_entries
          [(''count'', JNum 3), (''message'', JStr ''Enriched 3 keywords'')]"
    by (simp add: sample_metrics_response)
  from spec have s: "fst (enrich_serp_handler sample_env failing_inserts sample_serp_request)
      = success (clock sample_env) sample_serp_results
          [(''keywords_processed'', JNum 3), (''serp_records'', JNum 4),
           (''competitor_records'', JNum 2)]"
    by (simp add: sample_serp_response)
  from spec have mi: "length (inserts (snd (enrich_keywords_handler sample_env failing_inserts
      sample_enrich_request))) = 3"
    by (simp add: sample_metrics_response sample_metrics_world_def)
  from spec have si: "length (inserts (snd (enrich_serp_handler sample_env failing_inserts
      sample_serp_request))) = 2"
    by (simp add: sample_serp_response sample_serp_world_def)
  from logged mi have mc: "length (insert_failure_lines (snd (enrich_keywords_handler sample_env failing_inserts
      sample_enrich_request))) = 3"
    by (simp add: failed_inserts_def e)
  from logged si have sc: "length (insert_failure_lines (snd (enrich_serp_handler sample_env failing_inserts
      sample_serp_request))) = 2"
    by (simp add: failed_inserts_def e)
  from m s mc sc e show ?thesis
    by (simp add: success_def)
qed

section \<open>The loop over the country groups\<close>

lemma fetchDataForSEO_configured:
  assumes "credentials_configured E"
  shows "\<exists>resp. fetchDataForSEO E X ks l w = (w\<lparr>calls := calls w @ [MetricsCall ks l]\<rparr>, Inr resp)
     \<and> (truthy (response_error resp)
          \<longleftrightarrow> reply_rejected (metrics_reply X (length (calls w)) ks l)
              \<and> has_message (metrics_reply X (length (calls w)) ks l))
     \<and> (\<not> truthy (response_error resp) \<longrightarrow>
          (case response_results resp of None \<Rightarrow> [] | Some rs \<Rightarrow> rs)
            = records_of (metrics_reply X (length (calls w)) ks l))"
  using assms
  by (cases "metrics_reply X (length (calls w)) ks l")
     (auto simp: fetchDataForSEO_def credentials_configured_def reply_rejected_def has_message_def
        records_of_def truthy_def or_else_def Let_def split: option.splits)

lemma fetchDataForSEO_calls:
  "\<exists>cs. calls (fst (fetchDataForSEO E X ks l w)) = calls w @ cs"
  by (simp add: fetchDataForSEO_def Let_def split: fetch_outcome.splits)

lemma enrich_groups_calls_prefix:
  "\<exists>cs. calls (fst (enrich_groups E X gs w acc)) = calls w @ cs"
proof (induction gs arbitrary: w acc)
  case Nil
  then show ?case by simp
next
  case (Cons g gs)
  obtain c ks where g: "g = (c, ks)" by (cases g)
  obtain w1 r where f: "fetchDataForSEO E X (map keyword_text ks) (locationCode c) w = (w1, r)"
    by (cases "fetchDataForSEO E X (map keyword_text ks) (locationCode c) w")
  from fetchDataForSEO_calls [of E X "map keyword_text ks" "locationCode c" w] f
  obtain cs1 where w1: "calls w1 = calls w @ cs1" by auto
  show ?case
  proof (cases r)
    case (Inl e)
    with g f w1 show ?thesis by simp
  next
    case (Inr resp)
    show ?thesis
    proof (cases "truthy (response_error resp)")
      case True
      with g f w1 Inr show ?thesis by simp
    next
      case False
      let ?rs = "case response_results resp of None \<Rightarrow> [] | Some rs \<Rightarrow> rs"
      obtain w2 q where p: "process_results E X c ks ?rs w1 acc = (w2, q)"
        by (cases "process_results E X c ks ?rs w1 acc")
      with process_results_calls [of E X c ks ?rs w1 acc] have w2: "calls w2 = calls w1" by simp
      show ?thesis
      proof (cases q)
        case (Inl e)
        with g f \<open>r = Inr resp\<close> False p w1 w2 show ?thesis by simp
      next
        case (Inr acc2)
        from Cons.IH [of w2 acc2] obtain cs where "calls (fst (enrich_groups E X gs w2 acc2))
            = calls w2 @ cs" by blast
        with g f \<open>r = Inr resp\<close> False p w1 w2 Inr show ?thesis by simp
      qed
    qed
  qed
qed

text \<open>
  Whenever the provider rejects a call the loop has made, the loop ends in an
  ExternalApiError.
\<close>

lemma enrich_groups_rejected:
  assumes "credentials_configured E"
    and "enrich_groups E X gs w acc = (w', r)"
    and "length (calls w) \<le> n" and "n < length (calls w')"
    and "call_rejected X n (calls w' ! n)"
  shows "\<exists>m. r = Inl (App (ExternalApiError ''DataForSEO'' m))"
  using assms(2-5)
proof (induction gs arbitrary: w acc)
  case Nil
  then show ?case by simp
next
  case (Cons g gs)
  obtain c ks where g: "g = (c, ks)" by (cases g)
  let ?call = "MetricsCall (map keyword_text ks) (locationCode c)"
  let ?w1 = "w\<lparr>calls := calls w @ [?call]\<rparr>"
  from fetchDataForSEO_configured [OF assms(1), of X "map keyword_text ks" "locationCode c" w]
  obtain resp where f: "fetchDataForSEO E X (map keyword_text ks) (locationCode c) w
        = (?w1, Inr resp)"
    and t: "truthy (response_error resp)
        \<longleftrightarrow> call_rejected X (length (calls w)) ?call"
    by (auto simp: call_rejected_def)
  show ?case
  proof (cases "truthy (response_error resp)")
    case True
    with Cons.prems(1) g f show ?thesis by auto
  next
    case False
    let ?rs = "case response_results resp of None \<Rightarrow> [] | Some rs \<Rightarrow> rs"
    obtain w2 q where p: "process_results E X c ks ?rs ?w1 acc = (w2, q)"
      by (cases "process_results E X c ks ?rs ?w1 acc")
    with process_results_calls [of E X c ks ?rs ?w1 acc]
    have w2: "calls w2 = calls w @ [?call]" by simp
    have first: "calls w' ! length (calls w) = ?call"
    proof (cases q)
      case (Inl e)
      with Cons.prems(1) g f False p have "w' = w2" by simp
      with w2 show ?thesis by simp
    next
      case (Inr acc2)
      with Cons.prems(1) g f False p have e: "enrich_groups E X gs w2 acc2 = (w', r)" by simp
      with enrich_groups_calls_prefix [of E X gs w2 acc2]
      obtain cs where "calls w' = calls w2 @ cs" by auto
      with w2 show ?thesis by (simp add: nth_append)
    qed
    with False t Cons.prems(4) have "n \<noteq> length (calls w)" by auto
    with Cons.prems(2) have n: "length (calls w2) \<le> n" by (simp add: w2)
    show ?thesis
    proof (cases q)
      case (Inl e)
      with Cons.prems(1) g f False p have "w' = w2" by simp
      with n Cons.prems(3) show ?thesis by simp
    next
      case (Inr acc2)
      with Cons.prems(1) g f False p have e: "enrich_groups E X gs w2 acc2 = (w', r)" by simp
      from Cons.IH [OF e n Cons.prems(3,4)] show ?thesis .
    qed
  qed
qed

lemma enrich_groups_calls:
  assumes "credentials_configured E"
    and "enrich_groups E X gs w acc = (w', Inr results)"
  shows "calls w' = calls w @ map call_of_group gs"
  using assms(2)
proof (induction gs arbitrary: w acc)
  case Nil
  then show ?case by simp
next
  case (Cons g gs)
  obtain c ks where g: "g = (c, ks)" by (cases g)
  let ?w1 = "w\<lparr>calls := calls w @ [MetricsCall (map keyword_text ks) (locationCode c)]\<rparr>"
  from fetchDataForSEO_configured [OF assms(1), of X "map keyword_text ks" "locationCode c" w]
  obtain resp where f: "fetchDataForSEO E X (map keyword_text ks) (locationCode c) w
        = (?w1, Inr resp)"
    by auto
  let ?rs = "case response_results resp of None \<Rightarrow> [] | Some rs \<Rightarrow> rs"
  obtain w2 q where p: "process_results E X c ks ?rs ?w1 acc = (w2, q)"
    by (cases "process_results E X c ks ?rs ?w1 acc")
  with process_results_calls [of E X c ks ?rs ?w1 acc]
  have w2: "calls w2 = calls ?w1" by simp
  from Cons.prems g f have nt: "\<not> truthy (response_error resp)"
    by (auto split: if_splits)
  with Cons.prems g f p obtain acc2 where q: "q = Inr acc2"
    by (cases q) auto
  with Cons.prems g f p nt have "enrich_groups E X gs w2 acc2 = (w', Inr results)"
    by simp
  from Cons.IH [OF this] w2 show ?case
    by (simp add: call_of_group_def g)
qed

lemma enrich_groups_results:
  assumes "credentials_configured E"
    and "enrich_groups E X gs w acc = (w', Inr results)"
  shows "results = acc @ concat (map (\<lambda>(n, g). map (metric_entry_of (fst g))
             (records_of (metrics_outcome X n g))) (enumerate (length (calls w)) gs))"
  using assms(2)
proof (induction gs arbitrary: w acc)
  case Nil
  then show ?case by simp
next
  case (Cons g gs)
  obtain c ks where g: "g = (c, ks)" by (cases g)
  let ?w1 = "w\<lparr>calls := calls w @ [MetricsCall (map keyword_text ks) (locationCode c)]\<rparr>"
  from fetchDataForSEO_configured [OF assms(1), of X "map keyword_text ks" "locationCode c" w]
  obtain resp where f: "fetchDataForSEO E X (map keyword_text ks) (locationCode c) w
        = (?w1, Inr resp)"
    and r: "\<not> truthy (response_error resp) \<longrightarrow>
          (case response_results resp of None \<Rightarrow> [] | Some rs \<Rightarrow> rs)
            = records_of (metrics_outcome X (length (calls w)) g)"
    by (auto simp: metrics_outcome_def g)
  let ?rs = "case response_results resp of None \<Rightarrow> [] | Some rs \<Rightarrow> rs"
  obtain w2 q where p: "process_results E X c ks ?rs ?w1 acc = (w2, q)"
    by (cases "process_results E X c ks ?rs ?w1 acc")
  with process_results_calls [of E X c ks ?rs ?w1 acc]
  have w2: "length (calls w2) = Suc (length (calls w))" by simp
  from Cons.prems g f have nt: "\<not> truthy (response_error resp)"
    by (auto split: if_splits)
  with Cons.prems g f p obtain acc2 where q: "q = Inr acc2"
    by (cases q) auto
  from p q process_results_Inr [of E X c ks ?rs ?w1 acc w2 acc2]
  have acc2: "acc2 = acc @ map (metric_entry_of c) ?rs" by simp
  from Cons.prems g f p nt q have "enrich_groups E X gs w2 acc2 = (w', Inr results)"
    by simp
  from Cons.IH [OF this] r nt acc2 w2 show ?case
    by (simp add: g)
qed

section \<open>The loop over the keywords of a SERP request\<close>

lemma serp_entry_error:
  "has_message (serp_outcome X n k) \<Longrightarrow>
   is_error_entry (serp_entry X n k) \<longleftrightarrow> reply_rejected (serp_outcome X n k)"
  by (cases "serp_outcome X n k")
     (auto simp: serp_entry_def serp_outcome_def is_error_entry_def reply_rejected_def
        has_message_def Let_def)

lemma serp_entry_shape:
  "(\<exists>m. serp_entry X n k = KeywordError (keyword_text k) m)
   \<or> (\<exists>c p. serp_entry X n k = KeywordSummary (keyword_text k) (kw_country k) c p)"
  by (cases "serp_outcome X n k")
     (auto simp: serp_entry_def serp_outcome_def Let_def)

lemma serp_keywords_configured:
  assumes "credentials_configured E"
  shows "\<exists>recs'. serp_keywords E X ks w rs recs
     = (w\<lparr>calls := calls w @ map call_of_keyword ks\<rparr>,
        Inr (rs @ map (\<lambda>(n, k). serp_entry X n k) (enumerate (length (calls w)) ks), recs'))"
proof (induction ks arbitrary: w rs recs)
  case Nil
  then show ?case by simp
next
  case (Cons k ks)
  let ?l = "locationCode (interpolate (kw_country k))"
  let ?w1 = "w\<lparr>calls := calls w @ [SerpCall (keyword_text k) ?l]\<rparr>"
  have len: "length (calls ?w1) = Suc (length (calls w))" by simp
  have w1: "?w1\<lparr>calls := calls ?w1 @ map call_of_keyword ks\<rparr>
      = w\<lparr>calls := calls w @ map call_of_keyword (k # ks)\<rparr>"
    by (simp add: call_of_keyword_def)
  show ?case
  proof (cases "serp_reply X (length (calls w)) (keyword_text k) ?l")
    case (Threw m)
    show ?thesis
    proof (cases "m = []")
      case True
      from Cons.IH [of ?w1 "rs @ [serp_entry X (length (calls w)) k]" "process_items X k [] recs"]
      show ?thesis using assms Threw True w1
        by (simp add: fetchSERP_def credentials_configured_def truthy_def serp_entry_def
            hoxton_position_def)
    next
      case False
      from Cons.IH [of ?w1 "rs @ [serp_entry X (length (calls w)) k]" recs]
      show ?thesis using assms Threw False w1
        by (simp add: fetchSERP_def credentials_configured_def truthy_def serp_entry_def
            interpolate_def)
    qed
  next
    case (Replied sc sm r)
    show ?thesis
    proof (cases "sc = 20000")
      case True
      let ?items = "filter (\<lambda>item. item_type item = ''organic'')
          (first_block_items (first_task_result r))"
      from Cons.IH [of ?w1 "rs @ [serp_entry X (length (calls w)) k]" "process_items X k ?items recs"]
      show ?thesis using assms Replied True w1
        by (simp add: fetchSERP_def credentials_configured_def truthy_def serp_entry_def Let_def)
    next
      case False
      have "or_else sm ''SERP API request failed'' \<noteq> []"
        by (simp add: or_else_def split: option.splits)
      with Cons.IH [of ?w1 "rs @ [serp_entry X (length (calls w)) k]" recs]
      show ?thesis using assms Replied False w1
        by (simp add: fetchSERP_def credentials_configured_def truthy_def serp_entry_def
            interpolate_def)
    qed
  qed
qed

section \<open>Provider failures\<close>

subsection \<open>The handlers with the inline client\<close>

lemma enrich_keywords_try_world:
  "enrich_keywords_try E X req = (w, r) \<Longrightarrow>
   w = world0 \<or> (\<exists>gs. enrich_groups E X gs world0 [] = (w, r))"
  by (auto simp: enrich_keywords_try_def split: if_splits sum.splits)

lemma calls_enrich_keywords_handler:
  "calls (snd (enrich_keywords_handler E X req)) = calls (fst (enrich_keywords_try E X req))"
  by (cases "enrich_keywords_try E X req")
     (simp add: enrich_keywords_handler_def split: sum.splits)

text \<open>
  With the credentials configured: whenever the provider rejects a call that
  \<open>/enrich/keywords\<close> has made (the reply's status code is not 20000, or \<open>fetch\<close> threw
  an error with a message), the request is answered with the 502 response of an
  ExternalApiError.
\<close>

lemma enrich_keywords_handler_502:
  assumes "credentials_configured E"
    and "n < length (calls (snd (enrich_keywords_handler E X rk)))"
    and "call_rejected X n (calls (snd (enrich_keywords_handler E X rk)) ! n)"
  shows "\<exists>m. fst (enrich_keywords_handler E X rk)
      = Response 502 (ErrorBody ''EXTERNAL_API_ERROR'' (''DataForSEO API error: '' @ m) (Some JNull))"
proof -
  obtain w r where t: "enrich_keywords_try E X rk = (w, r)"
    by (cases "enrich_keywords_try E X rk")
  with calls_enrich_keywords_handler [of E X rk]
  have c: "calls (snd (enrich_keywords_handler E X rk)) = calls w" by simp
  from assms(2) c have "w \<noteq> world0" by (auto simp: world0_def)
  with enrich_keywords_try_world [OF t]
  obtain gs where g: "enrich_groups E X gs world0 [] = (w, r)" by blast
  from enrich_groups_rejected [OF assms(1) g, of n] assms(2,3) c
  obtain m where "r = Inl (App (ExternalApiError ''DataForSEO'' m))"
    by (auto simp: world0_def)
  with t have "fst (enrich_keywords_handler E X rk)
      = Response 502 (ErrorBody ''EXTERNAL_API_ERROR'' (''DataForSEO API error: '' @ m) (Some JNull))"
    by (simp add: enrich_keywords_handler_def error_def ExternalApiError_def AppError_def)
  then show ?thesis by blast
qed

lemma enrich_serp_handler_200:
  assumes "credentials_configured E"
    and "verifyApiKey rs E" and "validateMethod rs [''POST''] = Inr ()"
    and "serp_keyword_rows X (body rs) = Inr rows"
  shows "\<exists>meta. fst (enrich_serp_handler E X rs)
      = Response 200 (SuccessBody (map (\<lambda>(n, k). serp_entry X n k) (enumerate 0 rows)) meta)"
    and "calls (snd (enrich_serp_handler E X rs)) = map call_of_keyword rows"
proof -
  from serp_keywords_configured [OF assms(1), of X rows world0 "[]" "([], [])"]
  obtain recs where k: "serp_keywords E X rows world0 [] ([], [])
      = (world0\<lparr>calls := map call_of_keyword rows\<rparr>,
         Inr (map (\<lambda>(n, k). serp_entry X n k) (enumerate 0 rows), recs))"
    by (auto simp: world0_def)
  obtain a b where recs: "recs = (a, b)" by (cases recs)
  have i: "calls (insert_serp_records X (a, b) w) = calls w" for w
    by (simp add: insert_serp_records_def insert_logged_calls)
  from assms(2-4) k recs show "\<exists>meta. fst (enrich_serp_handler E X rs)
      = Response 200 (SuccessBody (map (\<lambda>(n, k). serp_entry X n k) (enumerate 0 rows)) meta)"
    by (simp del: serp_keywords.simps
        add: enrich_serp_handler_def enrich_serp_try_def success_def)
  from assms(2-4) k recs i show "calls (snd (enrich_serp_handler E X rs)) = map call_of_keyword rows"
    by (simp del: serp_keywords.simps add: enrich_serp_handler_def enrich_serp_try_def)
qed

text \<open>
  With the credentials configured, a valid \<open>/enrich/serp\<close> request succeeds with status
  200 whatever the provider does: every keyword is sent to the provider, the response
  list has one entry for each keyword in order, and the entry of a keyword is an error
  entry naming that keyword exactly when the provider rejected the call for it.
\<close>

lemma serp_failures_are_scoped:
  assumes "credentials_configured E"
    and "verifyApiKey rs E" and "validateMethod rs [''POST''] = Inr ()"
    and "serp_keyword_rows X (body rs) = Inr rows"
  shows "http_status (fst (enrich_serp_handler E X rs)) = 200
     \<and> (\<exists>meta. envelope (fst (enrich_serp_handler E X rs))
            = SuccessBody (map (\<lambda>(n, k). serp_entry X n k) (enumerate 0 rows)) meta)
     \<and> calls (snd (enrich_serp_handler E X rs)) = map call_of_keyword rows
     \<and> (\<forall>n < length rows.
           ((\<exists>m. serp_entry X n (rows ! n) = KeywordError (keyword_text (rows ! n)) m)
            \<or> (\<exists>c p. serp_entry X n (rows ! n)
                  = KeywordSummary (keyword_text (rows ! n)) (kw_country (rows ! n)) c p))
           \<and> (has_message (serp_outcome X n (rows ! n)) \<longrightarrow>
                (is_error_entry (serp_entry X n (rows ! n))
                   \<longleftrightarrow> reply_rejected (serp_outcome X n (rows ! n)))))"
proof -
  from enrich_serp_handler_200 [OF assms, of ]
  obtain meta where m: "fst (enrich_serp_handler E X rs)
      = Response 200 (SuccessBody (map (\<lambda>(n, k). serp_entry X n k) (enumerate 0 rows)) meta)"
    and c: "calls (snd (enrich_serp_handler E X rs)) = map call_of_keyword rows"
    by blast
  from m have "http_status (fst (enrich_serp_handler E X rs)) = 200" by simp
  moreover from m have "\<exists>meta. envelope (fst (enrich_serp_handler E X rs))
      = SuccessBody (map (\<lambda>(n, k). serp_entry X n k) (enumerate 0 rows)) meta"
    by simp
  moreover have "\<forall>n < length rows.
           ((\<exists>m. serp_entry X n (rows ! n) = KeywordError (keyword_text (rows ! n)) m)
            \<or> (\<exists>c p. serp_entry X n (rows ! n)
                  = KeywordSummary (keyword_text (rows ! n)) (kw_country (rows ! n)) c p))
           \<and> (has_message (serp_outcome X n (rows ! n)) \<longrightarrow>
                (is_error_entry (serp_entry X n (rows ! n))
                   \<longleftrightarrow> reply_rejected (serp_outcome X n (rows ! n))))"
    using serp_entry_shape serp_entry_error by blast
  ultimately show ?thesis using c by blast
qed

text \<open>A batch of three keywords of which the provider fails the second.\<close>

lemma serp_batch_of_three:
  "reply_rejected (serp_outcome sample_collaborators 1 kw2)
   \<and> \<not> reply_rejected (serp_outcome sample_collaborators 0 kw1)
   \<and> \<not> reply_rejected (serp_outcome sample_collaborators 2 kw3)
   \<and> http_status (fst (enrich_serp_handler sample_env sample_collaborators sample_serp_request)) = 200
   \<and> envelope (fst (enrich_serp_handler sample_env sample_collaborators sample_serp_request))
       = SuccessBody sample_serp_results
           [(''timestamp'', JStr (clock sample_env)), (''keywords_processed'', JNum 3),
            (''serp_records'', JNum 4), (''competitor_records'', JNum 2)]
   \<and> length (filter is_error_entry sample_serp_results) = 1
   \<and> length (filter (\<lambda>r. \<not> is_error_entry r) sample_serp_results) = 2"
proof -
  have "reply_rejected (serp_outcome sample_collaborators 1 kw2)"
    "\<not> reply_rejected (serp_outcome sample_collaborators 0 kw1)"
    "\<not> reply_rejected (serp_outcome sample_collaborators 2 kw3)"
    by (simp_all add: reply_rejected_def serp_outcome_def sample_collaborators_def)
  then show ?thesis
    by (simp add: sample_serp_response success_def sample_serp_results_def is_error_entry_def)
qed

subsection \<open>The handlers built on lib/dataforseo.js\<close>

lemma error_not_App: "\<forall>a. e \<noteq> App a \<Longrightarrow> error e = internal_error"
  by (cases e) (simp_all add: error_def internal_error_def)

lemma getKeywordMetrics_configured:
  assumes "credentials_configured E"
  shows "\<exists>q. getKeywordMetrics E X ks l w = (w\<lparr>calls := calls w @ [MetricsCall ks l]\<rparr>, q)
     \<and> (provider_failed (metrics_reply X (length (calls w)) ks l)
          \<longrightarrow> (\<exists>e. q = Inl e \<and> (\<forall>a. e \<noteq> App a)))
     \<and> (\<not> provider_failed (metrics_reply X (length (calls w)) ks l)
          \<longrightarrow> q = Inr (records_of (metrics_reply X (length (calls w)) ks l)))"
  using assms
  by (cases "metrics_reply X (length (calls w)) ks l")
     (auto simp: getKeywordMetrics_def dataforseoRequest_def getAuthHeader_def
        credentials_configured_def provider_failed_def records_of_def first_task_result_def
        Let_def split: option.splits)

lemma getKeywordMetrics_calls:
  "\<exists>cs. calls (fst (getKeywordMetrics E X ks l w)) = calls w @ cs"
  by (simp add: getKeywordMetrics_def dataforseoRequest_def Let_def
      split: sum.splits fetch_outcome.splits option.splits)

lemma process_results_not_App:
  "process_results E X c kws rs w acc = (w', Inl e) \<Longrightarrow> \<forall>a. e \<noteq> App a"
  using process_results_TypeError [of E X c kws rs w acc w' e] by auto

lemma enrich_groups_lib_calls_prefix:
  "\<exists>cs. calls (fst (enrich_groups_lib E X gs w acc)) = calls w @ cs"
proof (induction gs arbitrary: w acc)
  case Nil
  then show ?case by simp
next
  case (Cons g gs)
  obtain c ks where g: "g = (c, ks)" by (cases g)
  obtain w1 r where f: "getKeywordMetrics E X (map keyword_text ks) (locationCode c) w = (w1, r)"
    by (cases "getKeywordMetrics E X (map keyword_text ks) (locationCode c) w")
  from getKeywordMetrics_calls [of E X "map keyword_text ks" "locationCode c" w] f
  obtain cs1 where w1: "calls w1 = calls w @ cs1" by auto
  show ?case
  proof (cases r)
    case (Inl e)
    with g f w1 show ?thesis by simp
  next
    case (Inr rs)
    obtain w2 q where p: "process_results E X c ks rs w1 acc = (w2, q)"
      by (cases "process_results E X c ks rs w1 acc")
    with process_results_calls [of E X c ks rs w1 acc] have w2: "calls w2 = calls w1" by simp
    show ?thesis
    proof (cases q)
      case (Inl e)
      with g f \<open>r = Inr rs\<close> p w1 w2 show ?thesis by simp
    next
      case (Inr acc2)
      from Cons.IH [of w2 acc2] obtain cs where "calls (fst (enrich_groups_lib E X gs w2 acc2))
          = calls w2 @ cs" by blast
      with g f \<open>r = Inr rs\<close> p w1 w2 Inr show ?thesis by simp
    qed
  qed
qed

text \<open>
  Whenever a call the loop has made fails, the loop ends in a thrown value that is no
  application error.
\<close>

lemma enrich_groups_lib_failed:
  assumes "credentials_configured E"
    and "enrich_groups_lib E X gs w acc = (w', r)"
    and "length (calls w) \<le> n" and "n < length (calls w')"
    and "call_failed X n (calls w' ! n)"
  shows "\<exists>e. r = Inl e \<and> (\<forall>a. e \<noteq> App a)"
  using assms(2-5)
proof (induction gs arbitrary: w acc)
  case Nil
  then show ?case by simp
next
  case (Cons g gs)
  obtain c ks where g: "g = (c, ks)" by (cases g)
  let ?call = "MetricsCall (map keyword_text ks) (locationCode c)"
  let ?w1 = "w\<lparr>calls := calls w @ [?call]\<rparr>"
  let ?reply = "metrics_reply X (length (calls w)) (map keyword_text ks) (locationCode c)"
  from getKeywordMetrics_configured [OF assms(1), of X "map keyword_text ks" "locationCode c" w]
  obtain q where f: "getKeywordMetrics E X (map keyword_text ks) (locationCode c) w = (?w1, q)"
    and bad: "provider_failed ?reply \<longrightarrow> (\<exists>e. q = Inl e \<and> (\<forall>a. e \<noteq> App a))"
    and good: "\<not> provider_failed ?reply \<longrightarrow> q = Inr (records_of ?reply)"
    by blast
  show ?case
  proof (cases "provider_failed ?reply")
    case True
    with bad obtain e where "q = Inl e" and "\<forall>a. e \<noteq> App a" by blast
    with Cons.prems(1) g f show ?thesis by auto
  next
    case False
    with good have q: "q = Inr (records_of ?reply)" by simp
    obtain w2 q2 where p: "process_results E X c ks (records_of ?reply) ?w1 acc = (w2, q2)"
      by (cases "process_results E X c ks (records_of ?reply) ?w1 acc")
    with process_results_calls [of E X c ks "records_of ?reply" ?w1 acc]
    have w2: "calls w2 = calls w @ [?call]" by simp
    show ?thesis
    proof (cases q2)
      case (Inl e)
      with Cons.prems(1) g f q p have "r = Inl e" by simp
      with p Inl process_results_not_App show ?thesis by blast
    next
      case (Inr acc2)
      with Cons.prems(1) g f q p have e: "enrich_groups_lib E X gs w2 acc2 = (w', r)" by simp
      with enrich_groups_lib_calls_prefix [of E X gs w2 acc2]
      obtain cs where "calls w' = calls w2 @ cs" by auto
      with w2 have "calls w' ! length (calls w) = ?call" by (simp add: nth_append)
      with False Cons.prems(4) have "n \<noteq> length (calls w)"
        by (auto simp: call_failed_def)
      with Cons.prems(2) have n: "length (calls w2) \<le> n" by (simp add: w2)
      from Cons.IH [OF e n Cons.prems(3,4)] show ?thesis .
    qed
  qed
qed

lemma enrich_keywords_try_lib_world:
  "enrich_keywords_try_lib E X req = (w, r) \<Longrightarrow>
   w = world0 \<or> (\<exists>gs. enrich_groups_lib E X gs world0 [] = (w, r))"
  by (auto simp: enrich_keywords_try_lib_def split: if_splits sum.splits)

lemma calls_enrich_keywords_handler_lib:
  "calls (snd (enrich_keywords_handler_lib E X req)) = calls (fst (enrich_keywords_try_lib E X req))"
  by (cases "enrich_keywords_try_lib E X req")
     (simp add: enrich_keywords_handler_lib_def split: sum.splits)

text \<open>
  With the credentials configured: whenever a call that the second copy of
  \<open>/enrich/keywords\<close> has made fails, the request is answered with the generic 500
  response.
\<close>

lemma enrich_keywords_handler_lib_500:
  assumes "credentials_configured E"
    and "n < length (calls (snd (enrich_keywords_handler_lib E X rk)))"
    and "call_failed X n (calls (snd (enrich_keywords_handler_lib E X rk)) ! n)"
  shows "fst (enrich_keywords_handler_lib E X rk) = internal_error"
proof -
  obtain w r where t: "enrich_keywords_try_lib E X rk = (w, r)"
    by (cases "enrich_keywords_try_lib E X rk")
  with calls_enrich_keywords_handler_lib [of E X rk]
  have c: "calls (snd (enrich_keywords_handler_lib E X rk)) = calls w" by simp
  from assms(2) c have "w \<noteq> world0" by (auto simp: world0_def)
  with enrich_keywords_try_lib_world [OF t]
  obtain gs where g: "enrich_groups_lib E X gs world0 [] = (w, r)" by blast
  from enrich_groups_lib_failed [OF assms(1) g, of n] assms(2,3) c
  obtain e where "r = Inl e" and "\<forall>a. e \<noteq> App a"
    by (auto simp: world0_def)
  with t show ?thesis
    by (simp add: enrich_keywords_handler_lib_def error_not_App)
qed

lemma getSerpResults_configured:
  assumes "credentials_configured E"
  shows "\<exists>q. getSerpResults E X kw l w = (w\<lparr>calls := calls w @ [SerpCall kw l]\<rparr>, q)
     \<and> (provider_failed (serp_reply X (length (calls w)) kw l) \<longleftrightarrow> (\<exists>e. q = Inl e))"
  using assms
  by (cases "serp_reply X (length (calls w)) kw l")
     (auto simp: getSerpResults_def dataforseoRequest_def getAuthHeader_def
        credentials_configured_def provider_failed_def Let_def split: option.splits)

lemma serp_keywords_lib_entries:
  assumes "credentials_configured E"
  shows "\<exists>entries recs'. serp_keywords_lib E X ks w rs recs
       = (w\<lparr>calls := calls w @ map call_of_keyword ks\<rparr>, rs @ entries, recs')
     \<and> list_all2 (\<lambda>(n, k) entry.
           ((\<exists>m. entry = KeywordError (keyword_text k) m)
            \<or> (\<exists>c p. entry = KeywordSummary (keyword_text k) (kw_country k) c p))
           \<and> (is_error_entry entry \<longleftrightarrow> provider_failed (serp_outcome X n k)))
         (enumerate (length (calls w)) ks) entries"
proof (induction ks arbitrary: w rs recs)
  case Nil
  then show ?case by simp
next
  case (Cons k ks)
  let ?l = "locationCode (interpolate (kw_country k))"
  let ?w1 = "w\<lparr>calls := calls w @ [SerpCall (keyword_text k) ?l]\<rparr>"
  have w1: "?w1\<lparr>calls := calls ?w1 @ map call_of_keyword ks\<rparr>
      = w\<lparr>calls := calls w @ map call_of_keyword (k # ks)\<rparr>"
    by (simp add: call_of_keyword_def)
  have len: "length (calls ?w1) = Suc (length (calls w))" by simp
  from getSerpResults_configured [OF assms, of X "keyword_text k" ?l w]
  obtain q where f: "getSerpResults E X (keyword_text k) ?l w = (?w1, q)"
    and b: "provider_failed (serp_outcome X (length (calls w)) k) \<longleftrightarrow> (\<exists>e. q = Inl e)"
    by (auto simp: serp_outcome_def)
  show ?case
  proof (cases q)
    case (Inl e)
    let ?entry = "KeywordError (keyword_text k) (message_of e)"
    from Cons.IH [of ?w1 "rs @ [?entry]" recs]
    obtain entries recs' where
      s: "serp_keywords_lib E X ks ?w1 (rs @ [?entry]) recs
          = (?w1\<lparr>calls := calls ?w1 @ map call_of_keyword ks\<rparr>, (rs @ [?entry]) @ entries, recs')"
      and a: "list_all2 (\<lambda>(n, k) entry.
           ((\<exists>m. entry = KeywordError (keyword_text k) m)
            \<or> (\<exists>c p. entry = KeywordSummary (keyword_text k) (kw_country k) c p))
           \<and> (is_error_entry entry \<longleftrightarrow> provider_failed (serp_outcome X n k)))
         (enumerate (length (calls ?w1)) ks) entries"
      by blast
    from f Inl s w1 have "serp_keywords_lib E X (k # ks) w rs recs
        = (w\<lparr>calls := calls w @ map call_of_keyword (k # ks)\<rparr>, rs @ (?entry # entries), recs')"
      by simp
    moreover from a b Inl have "list_all2 (\<lambda>(n, k) entry.
           ((\<exists>m. entry = KeywordError (keyword_text k) m)
            \<or> (\<exists>c p. entry = KeywordSummary (keyword_text k) (kw_country k) c p))
           \<and> (is_error_entry entry \<longleftrightarrow> provider_failed (serp_outcome X n k)))
         (enumerate (length (calls w)) (k # ks)) (?entry # entries)"
      by (simp add: is_error_entry_def)
    ultimately show ?thesis by blast
  next
    case (Inr items)
    let ?entry = "KeywordSummary (keyword_text k) (kw_country k) (length items)
        (hoxton_position X items)"
    from Cons.IH [of ?w1 "rs @ [?entry]" "process_items X k items recs"]
    obtain entries recs' where
      s: "serp_keywords_lib E X ks ?w1 (rs @ [?entry]) (process_items X k items recs)
          = (?w1\<lparr>calls := calls ?w1 @ map call_of_keyword ks\<rparr>, (rs @ [?entry]) @ entries, recs')"
      and a: "list_all2 (\<lambda>(n, k) entry.
           ((\<exists>m. entry = KeywordError (keyword_text k) m)
            \<or> (\<exists>c p. entry = KeywordSummary (keyword_text k) (kw_country k) c p))
           \<and> (is_error_entry entry \<longleftrightarrow> provider_failed (serp_outcome X n k)))
         (enumerate (length (calls ?w1)) ks) entries"
      by blast
    from f Inr s w1 have "serp_keywords_lib E X (k # ks) w rs recs
        = (w\<lparr>calls := calls w @ map call_of_keyword (k # ks)\<rparr>, rs @ (?entry # entries), recs')"
      by simp
    moreover from a b Inr have "list_all2 (\<lambda>(n, k) entry.
           ((\<exists>m. entry = KeywordError (keyword_text k) m)
            \<or> (\<exists>c p. entry = KeywordSummary (keyword_text k) (kw_country k) c p))
           \<and> (is_error_entry entry \<longleftrightarrow> provider_failed (serp_outcome X n k)))
         (enumerate (length (calls w)) (k # ks)) (?entry # entries)"
      by (simp add: is_error_entry_def)
    ultimately show ?thesis by blast
  qed
qed

text \<open>
  With the credentials configured, a valid request to the second copy of
  \<open>/enrich/serp\<close> succeeds with status 200 whatever the provider does: every keyword is
  sent to the provider, the response list has one entry for each keyword in order, and
  the entry of a keyword is an error entry naming that keyword exactly when the call
  for it failed.
\<close>

lemma serp_failures_are_scoped_lib:
  assumes "credentials_configured E"
    and "verifyApiKey rs E" and "validateMethod rs [''POST''] = Inr ()"
    and "serp_keyword_rows X (body rs) = Inr rows"
  shows "\<exists>entries meta. fst (enrich_serp_handler_lib E X rs) = Response 200 (SuccessBody entries meta)
     \<and> calls (snd (enrich_serp_handler_lib E X rs)) = map call_of_keyword rows
     \<and> list_all2 (\<lambda>(n, k) entry.
           ((\<exists>m. entry = KeywordError (keyword_text k) m)
            \<or> (\<exists>c p. entry = KeywordSummary (keyword_text k) (kw_country k) c p))
           \<and> (is_error_entry entry \<longleftrightarrow> provider_failed (serp_outcome X n k)))
         (enumerate 0 rows) entries"
proof -
  from serp_keywords_lib_entries [OF assms(1), of X rows world0 "[]" "([], [])"]
  obtain entries recs where
    k: "serp_keywords_lib E X rows world0 [] ([], [])
        = (world0\<lparr>calls := map call_of_keyword rows\<rparr>, entries, recs)"
    and a: "list_all2 (\<lambda>(n, k) entry.
           ((\<exists>m. entry = KeywordError (keyword_text k) m)
            \<or> (\<exists>c p. entry = KeywordSummary (keyword_text k) (kw_country k) c p))
           \<and> (is_error_entry entry \<longleftrightarrow> provider_failed (serp_outcome X n k)))
         (enumerate 0 rows) entries"
    by (auto simp: world0_def)
  obtain a' b' where recs: "recs = (a', b')" by (cases recs)
  have i: "calls (insert_serp_records X (a', b') w) = calls w" for w
    by (simp add: insert_serp_records_def insert_logged_calls)
  from assms(2-4) k recs i
  have "\<exists>meta. fst (enrich_serp_handler_lib E X rs) = Response 200 (SuccessBody entries meta)"
    and "calls (snd (enrich_serp_handler_lib E X rs)) = map call_of_keyword rows"
    by (simp_all del: serp_keywords_lib.simps
        add: enrich_serp_handler_lib_def enrich_serp_try_lib_def success_def)
  with a show ?thesis by blast
qed

text \<open>
  C1. A provider call that fails for a country group should fail the
  \<open>/enrich/keywords\<close> request with the 502 response of an ExternalApiError. The copy
  of the handler that is built on lib/dataforseo.js does not do so. For the three
  stored keywords and a provider that rejects the second call (status code 40100):
  the client throws a plain \<open>Error\<close>, the loop has no test for a failed call, the
  error reaches the handler's \<open>catch\<close>, and the request is answered with the generic
  500 response. The copy with the inline client answers the same request with 502.
\<close>

theorem provider_failure_answers_500:
  "calls (snd (enrich_keywords_handler_lib sample_env failing_provider sample_enrich_request))
     = [MetricsCall [Some ''retirement planning'', Some ''isa transfer''] (Some 2826),
        MetricsCall [Some ''pension advice''] (Some 2840)]
   \<and> metrics_reply failing_provider 1 [Some ''pension advice''] (Some 2840)
       = Replied 40100 (Some ''Unauthorized'') None
   \<and> fst (enrich_keywords_handler_lib sample_env failing_provider sample_enrich_request)
       = Response 500 (ErrorBody ''INTERNAL_ERROR'' ''An unexpected error occurred'' None)
   \<and> fst (enrich_keywords_handler sample_env failing_provider sample_enrich_request)
       = Response 502 (ErrorBody ''EXTERNAL_API_ERROR'' ''DataForSEO API error: Unauthorized''
           (Some JNull))"
proof -
  have auth: "verifyApiKey sample_enrich_request sample_env"
    by (simp add: verifyApiKey_def sample_enrich_request_def sample_env_def)
  have post: "validateMethod sample_enrich_request [''POST''] = Inr ()"
    by (simp add: validateMethod_def sample_enrich_request_def)
  have ws: "keywordsToEnrich failing_provider (body sample_enrich_request) = Inr sample_keywords"
    by (simp add: keywordsToEnrich_def sample_enrich_request_def select_keywords_in_def
        failing_provider_def sample_collaborators_def sample_keywords_def kw1_def kw2_def kw3_def)
  have reply: "metrics_reply failing_provider 1 [Some ''pension advice''] (Some 2840)
      = Replied 40100 (Some ''Unauthorized'') None"
    by (simp add: failing_provider_def)
  have lib: "\<exists>m. enrich_groups_lib sample_env failing_provider
        [(''UK'', [kw1, kw3]), (''US'', [kw2])] world0 []
      = (\<lparr>calls = [MetricsCall [Some ''retirement planning'', Some ''isa transfer''] (Some 2826),
                   MetricsCall [Some ''pension advice''] (Some 2840)],
          inserts = [], console = []\<rparr>, Inl (Error m))"
    by (simp add: getKeywordMetrics_def dataforseoRequest_def getAuthHeader_def sample_env_def
        truthy_def failing_provider_def ok_task_def world0_def locationCode_def
        COUNTRY_TO_LOCATION_def kw1_def kw2_def kw3_def)
  then obtain m where lib: "enrich_groups_lib sample_env failing_provider
        [(''UK'', [kw1, kw3]), (''US'', [kw2])] world0 []
      = (\<lparr>calls = [MetricsCall [Some ''retirement planning'', Some ''isa transfer''] (Some 2826),
                   MetricsCall [Some ''pension advice''] (Some 2840)],
          inserts = [], console = []\<rparr>, Inl (Error m))"
    by blast
  have inline: "\<exists>w. enrich_groups sample_env failing_provider
        [(''UK'', [kw1, kw3]), (''US'', [kw2])] world0 []
      = (w, Inl (App (ExternalApiError ''DataForSEO'' ''Unauthorized'')))"
    by (simp add: fetchDataForSEO_def sample_env_def truthy_def failing_provider_def ok_task_def
        first_task_result_def world0_def locationCode_def COUNTRY_TO_LOCATION_def kw1_def kw2_def
        kw3_def or_else_def interpolate_def)
  then obtain w where inline: "enrich_groups sample_env failing_provider
        [(''UK'', [kw1, kw3]), (''US'', [kw2])] world0 []
      = (w, Inl (App (ExternalApiError ''DataForSEO'' ''Unauthorized'')))"
    by blast
  from auth post ws sample_groups lib
  have a: "calls (snd (enrich_keywords_handler_lib sample_env failing_provider sample_enrich_request))
     = [MetricsCall [Some ''retirement planning'', Some ''isa transfer''] (Some 2826),
        MetricsCall [Some ''pension advice''] (Some 2840)]
   \<and> fst (enrich_keywords_handler_lib sample_env failing_provider sample_enrich_request)
       = Response 500 (ErrorBody ''INTERNAL_ERROR'' ''An unexpected error occurred'' None)"
    by (simp del: enrich_groups_lib.simps
        add: enrich_keywords_handler_lib_def enrich_keywords_try_lib_def error_def)
  from auth post ws sample_groups inline
  have b: "fst (enrich_keywords_handler sample_env failing_provider sample_enrich_request)
       = Response 502 (ErrorBody ''EXTERNAL_API_ERROR'' ''DataForSEO API error: Unauthorized''
           (Some JNull))"
    by (simp del: enrich_groups.simps
        add: enrich_keywords_handler_def enrich_keywords_try_def error_def ExternalApiError_def
          AppError_def)
  from a reply b show ?thesis by simp
qed

section \<open>The partition by country\<close>

lemma set_foldl_seen:
  "set (foldl (\<lambda>seen x. if x \<in> set seen then seen else seen @ [x]) seen xs) = set seen \<union> set xs"
  by (induction xs arbitrary: seen) auto

lemma distinct_foldl_seen:
  "distinct seen \<Longrightarrow>
   distinct (foldl (\<lambda>seen x. if x \<in> set seen then seen else seen @ [x]) seen xs)"
  by (induction xs arbitrary: seen) auto

lemma set_first_occurrences [simp]: "set (first_occurrences xs) = set xs"
  by (simp add: first_occurrences_def set_foldl_seen)

lemma distinct_first_occurrences [simp]: "distinct (first_occurrences xs)"
  by (simp add: first_occurrences_def distinct_foldl_seen)

lemma first_occurrences_snoc:
  "first_occurrences (xs @ [x])
     = (if x \<in> set xs then first_occurrences xs else first_occurrences xs @ [x])"
proof -
  have "first_occurrences (xs @ [x])
      = (if x \<in> set (first_occurrences xs) then first_occurrences xs
         else first_occurrences xs @ [x])"
    by (simp add: first_occurrences_def)
  then show ?thesis by simp
qed

lemma first_occurrences_Nil [simp]: "first_occurrences [] = []"
  by (simp add: first_occurrences_def)

lemma partition_by_country_Nil [simp]: "partition_by_country [] = []"
  by (simp add: partition_by_country_def)

lemma map_of_partition:
  "map_of (partition_by_country ws) c
     = (if c \<in> country_of ` set ws then Some (filter (\<lambda>kw. country_of kw = c) ws) else None)"
  by (simp add: partition_by_country_def map_of_map_restrict restrict_map_def)

lemma partition_snoc_old:
  assumes "country_of kw \<in> country_of ` set ws"
  shows "partition_by_country (ws @ [kw])
     = map (\<lambda>(c, ks). if c = country_of kw then (c, ks @ [kw]) else (c, ks))
         (partition_by_country ws)"
  using assms
  by (auto simp: partition_by_country_def first_occurrences_snoc)

lemma partition_snoc_new:
  assumes "country_of kw \<notin> country_of ` set ws"
  shows "partition_by_country (ws @ [kw]) = partition_by_country ws @ [(country_of kw, [kw])]"
proof -
  have "\<forall>k \<in> set ws. country_of k \<noteq> country_of kw"
    using assms by (metis imageI)
  then have "filter (\<lambda>k. country_of k = country_of kw) ws = []"
    by (simp add: filter_empty_conv)
  moreover have "map (\<lambda>c. (c, filter (\<lambda>k. country_of k = c) (ws @ [kw])))
        (first_occurrences (map country_of ws))
      = map (\<lambda>c. (c, filter (\<lambda>k. country_of k = c) ws)) (first_occurrences (map country_of ws))"
    using assms by (intro map_cong) auto
  ultimately show ?thesis
    using assms by (simp add: partition_by_country_def first_occurrences_snoc)
qed

lemma group_step_partition:
  assumes "country_of kw \<notin> set object_prototype_keys"
  shows "group_step (partition_by_country ws) kw = Inr (partition_by_country (ws @ [kw]))"
proof (cases "country_of kw \<in> country_of ` set ws")
  case True
  then show ?thesis
    by (simp add: group_step_def Let_def map_of_partition partition_snoc_old
        country_of_def [symmetric])
next
  case False
  with assms show ?thesis
    by (simp add: group_step_def Let_def map_of_partition partition_snoc_new
        country_of_def [symmetric])
qed

lemma reduce_groups_partition:
  assumes "\<forall>kw \<in> set rest. country_of kw \<notin> set object_prototype_keys"
  shows "reduce_groups (partition_by_country pre) rest = Inr (partition_by_country (pre @ rest))"
  using assms
proof (induction rest arbitrary: pre)
  case Nil
  then show ?case by simp
next
  case (Cons kw rest)
  from Cons.prems have "group_step (partition_by_country pre) kw
      = Inr (partition_by_country (pre @ [kw]))"
    by (simp add: group_step_partition)
  moreover from Cons.prems
  have "reduce_groups (partition_by_country (pre @ [kw])) rest
      = Inr (partition_by_country ((pre @ [kw]) @ rest))"
    by (intro Cons.IH) simp
  ultimately show ?case by simp
qed

lemma object_entries_plain:
  assumes "\<forall>k \<in> fst ` set obj. \<not> is_array_index k"
  shows "object_entries obj = obj"
proof -
  from assms have "filter (\<lambda>(k, v). is_array_index k) obj = []"
    by (auto simp: filter_empty_conv)
  moreover from assms have "filter (\<lambda>(k, v). \<not> is_array_index k) obj = obj"
    by (auto simp: filter_id_conv)
  ultimately show ?thesis by (simp add: object_entries_def)
qed

lemma fst_partition: "map fst (partition_by_country ws) = first_occurrences (map country_of ws)"
  by (simp add: partition_by_country_def comp_def)

lemma byCountry_plain:
  assumes "\<forall>kw \<in> set ws. plain_key (country_of kw)"
  shows "byCountry ws = Inr (partition_by_country ws)"
proof -
  from assms have "reduce_groups (partition_by_country []) ws = Inr (partition_by_country ([] @ ws))"
    by (intro reduce_groups_partition) (simp add: plain_key_def)
  moreover have "object_entries (partition_by_country ws) = partition_by_country ws"
  proof (rule object_entries_plain)
    have "fst ` set (partition_by_country ws) = country_of ` set ws"
      using fst_partition [of ws] by (metis list.set_map set_first_occurrences)
    with assms show "\<forall>k \<in> fst ` set (partition_by_country ws). \<not> is_array_index k"
      by (auto simp: plain_key_def)
  qed
  ultimately show ?thesis by (simp add: byCountry_def)
qed

lemma enrich_keywords_handler_success:
  assumes "credentials_configured E"
    and "verifyApiKey req E" and "validateMethod req [''POST''] = Inr ()"
    and "keywordsToEnrich X (body req) = Inr ws" and "byCountry ws = Inr gs"
    and "http_status (fst (enrich_keywords_handler E X req)) = 200"
  shows "calls (snd (enrich_keywords_handler E X req)) = map call_of_group gs"
    and "\<exists>meta. envelope (fst (enrich_keywords_handler E X req))
           = SuccessBody (concat (map (\<lambda>(n, g). map (metric_entry_of (fst g))
                 (records_of (metrics_outcome X n g))) (enumerate 0 gs))) meta"
proof -
  obtain w r where g: "enrich_groups E X gs world0 [] = (w, r)"
    by (cases "enrich_groups E X gs world0 []")
  have "\<exists>results. r = Inr results"
  proof (cases r)
    case (Inl e)
    with g enrich_groups_Inl [of E X gs world0 "[]" w e]
    have "status_of e \<in> {400, 500, 502}" by simp
    with assms(2-6) g Inl show ?thesis
      by (auto simp: enrich_keywords_handler_def enrich_keywords_try_def http_status_error)
  next
    case (Inr results)
    then show ?thesis by simp
  qed
  then obtain results where r: "r = Inr results" by blast
  from enrich_groups_calls [OF assms(1) g [unfolded r]]
  have c: "calls w = map call_of_group gs" by (simp add: world0_def)
  from enrich_groups_results [OF assms(1) g [unfolded r]]
  have d: "results = concat (map (\<lambda>(n, g). map (metric_entry_of (fst g))
      (records_of (metrics_outcome X n g))) (enumerate 0 gs))"
    by (simp add: world0_def)
  from assms(2-5) g r c show "calls (snd (enrich_keywords_handler E X req)) = map call_of_group gs"
    by (simp del: enrich_groups.simps add: enrich_keywords_handler_def enrich_keywords_try_def)
  from assms(2-5) g r d show "\<exists>meta. envelope (fst (enrich_keywords_handler E X req))
           = SuccessBody (concat (map (\<lambda>(n, g). map (metric_entry_of (fst g))
                 (records_of (metrics_outcome X n g))) (enumerate 0 gs))) meta"
    by (simp del: enrich_groups.simps
        add: enrich_keywords_handler_def enrich_keywords_try_def success_def)
qed

text \<open>
  C3, as amended. For every working set accepted by \<open>/enrich/keywords\<close> whose country
  codes are plain property names (no decimal numeral such as \<open>1\<close>, which
  \<open>Object.entries\<close> lists before the other keys, and no member of
  \<open>Object.prototype\<close>; the seven enumerated codes are plain): the entries are
  grouped by country code (an absent or empty code counts as \<open>UK\<close>), each group
  holds its members in their original relative order, the groups come in the order of
  first occurrence of their country, and a request that succeeds has issued exactly
  one provider call per distinct country, in that order.
\<close>

theorem country_partition_is_stable:
  assumes "\<forall>kw \<in> set ws. plain_key (country_of kw)"
  shows
    "byCountry ws = Inr (partition_by_country ws)
     \<and> map fst (partition_by_country ws) = first_occurrences (map country_of ws)
     \<and> distinct (map fst (partition_by_country ws))
     \<and> set (map fst (partition_by_country ws)) = country_of ` set ws
     \<and> (\<forall>g \<in> set (partition_by_country ws). snd g = filter (\<lambda>kw. country_of kw = fst g) ws)
     \<and> (credentials_configured E \<and> verifyApiKey req E \<and> validateMethod req [''POST''] = Inr ()
          \<and> keywordsToEnrich X (body req) = Inr ws
          \<and> http_status (fst (enrich_keywords_handler E X req)) = 200
        \<longrightarrow> calls (snd (enrich_keywords_handler E X req))
              = map call_of_group (partition_by_country ws)
            \<and> length (calls (snd (enrich_keywords_handler E X req))) = card (country_of ` set ws)
            \<and> (\<exists>meta. envelope (fst (enrich_keywords_handler E X req))
                  = SuccessBody (concat (map (\<lambda>(n, g). map (metric_entry_of (fst g))
                        (records_of (metrics_outcome X n g)))
                      (enumerate 0 (partition_by_country ws)))) meta))"
proof -
  note groups = byCountry_plain [OF assms]
  have keys: "map fst (partition_by_country ws) = first_occurrences (map country_of ws)"
    by (rule fst_partition)
  have d: "distinct (map fst (partition_by_country ws))"
    by (simp add: keys)
  have s: "set (map fst (partition_by_country ws)) = country_of ` set ws"
    by (simp add: keys)
  have m: "\<forall>g \<in> set (partition_by_country ws). snd g = filter (\<lambda>kw. country_of kw = fst g) ws"
    by (auto simp: partition_by_country_def)
  have n: "length (partition_by_country ws) = card (country_of ` set ws)"
    using distinct_card [OF d] s by simp
  have h: "calls (snd (enrich_keywords_handler E X req))
              = map call_of_group (partition_by_country ws)
            \<and> length (calls (snd (enrich_keywords_handler E X req))) = card (country_of ` set ws)
            \<and> (\<exists>meta. envelope (fst (enrich_keywords_handler E X req))
                  = SuccessBody (concat (map (\<lambda>(n, g). map (metric_entry_of (fst g))
                        (records_of (metrics_outcome X n g)))
                      (enumerate 0 (partition_by_country ws)))) meta)"
    if "credentials_configured E \<and> verifyApiKey req E \<and> validateMethod req [''POST''] = Inr ()
          \<and> keywordsToEnrich X (body req) = Inr ws
          \<and> http_status (fst (enrich_keywords_handler E X req)) = 200"
    using enrich_keywords_handler_success [of E req X ws "partition_by_country ws"] that groups n
    by simp
  from groups keys d s m h show ?thesis by blast
qed

lemma sample_partition:
  "partition_by_country sample_keywords = [(''UK'', [kw1, kw3]), (''US'', [kw2])]"
  by (simp add: partition_by_country_def first_occurrences_def country_of_def or_else_def
      sample_keywords_def kw1_def kw2_def kw3_def)

lemma sample_plain:
  "\<forall>kw \<in> set sample_keywords. plain_key (country_of kw)"
  by (simp add: plain_key_def country_of_def or_else_def sample_keywords_def kw1_def kw2_def
      kw3_def is_array_index_def is_digit_def object_prototype_keys_def)

theorem country_partition_is_stable_witness:
  "plain_key (country_of kw1) \<and> plain_key (country_of kw2) \<and> plain_key (country_of kw3)
   \<and> map country_of sample_keywords = [''UK'', ''US'', ''UK'']
   \<and> byCountry sample_keywords = Inr [(''UK'', [kw1, kw3]), (''US'', [kw2])]
   \<and> credentials_configured sample_env
   \<and> keywordsToEnrich sample_collaborators (body sample_enrich_request) = Inr sample_keywords
   \<and> http_status (fst (enrich_keywords_handler sample_env sample_collaborators
        sample_enrich_request)) = 200
   \<and> calls (snd (enrich_keywords_handler sample_env sample_collaborators sample_enrich_request))
       = [MetricsCall [Some ''retirement planning'', Some ''isa transfer''] (Some 2826),
          MetricsCall [Some ''pension advice''] (Some 2840)]
   \<and> length (calls (snd (enrich_keywords_handler sample_env sample_collaborators
        sample_enrich_request))) = 2"
proof -
  have creds: "credentials_configured sample_env"
    by (simp add: credentials_configured_def sample_env_def truthy_def)
  have auth: "verifyApiKey sample_enrich_request sample_env"
    by (simp add: verifyApiKey_def sample_enrich_request_def sample_env_def)
  have post: "validateMethod sample_enrich_request [''POST''] = Inr ()"
    by (simp add: validateMethod_def sample_enrich_request_def)
  have ok: "http_status (fst (enrich_keywords_handler sample_env sample_collaborators
      sample_enrich_request)) = 200"
    by (simp add: sample_metrics_response success_def)
  have countries: "map country_of sample_keywords = [''UK'', ''US'', ''UK'']"
    by (simp add: country_of_def or_else_def sample_keywords_def kw1_def kw2_def kw3_def)
  have calls: "map call_of_group [(''UK'', [kw1, kw3]), (''US'', [kw2])]
      = [MetricsCall [Some ''retirement planning'', Some ''isa transfer''] (Some 2826),
         MetricsCall [Some ''pension advice''] (Some 2840)]"
    by (simp add: call_of_group_def locationCode_def COUNTRY_TO_LOCATION_def kw1_def kw2_def
        kw3_def)
  note spec = country_partition_is_stable [OF sample_plain, where E = sample_env
      and X = sample_collaborators and req = sample_enrich_request, unfolded sample_partition]
  from sample_plain have plain: "plain_key (country_of kw1)" "plain_key (country_of kw2)"
    "plain_key (country_of kw3)"
    by (simp_all add: sample_keywords_def)
  from spec have g: "byCountry sample_keywords = Inr [(''UK'', [kw1, kw3]), (''US'', [kw2])]"
    by blast
  from spec creds auth post sample_working_set ok
  have c: "calls (snd (enrich_keywords_handler sample_env sample_collaborators
      sample_enrich_request)) = map call_of_group [(''UK'', [kw1, kw3]), (''US'', [kw2])]"
    by blast
  from plain countries g creds sample_working_set ok c calls show ?thesis
    by simp
qed

text \<open>
  C3 as stated fails for a working set with a numeric country code. The inline
  keywords \<open>[{UK}, {1}]\<close> are accepted; the grouping object gets the keys \<open>UK\<close> and
  \<open>1\<close> in that order, but \<open>Object.entries\<close> lists the array index \<open>1\<close> first, so the
  group that occurs second is processed first.
\<close>

theorem numeric_country_code_is_processed_first:
  "keywordsToEnrich sample_collaborators (body numeric_country_request) = Inr [inline_uk, inline_1]
   \<and> first_occurrences (map country_of [inline_uk, inline_1]) = [''UK'', ''1'']
   \<and> byCountry [inline_uk, inline_1] = Inr [(''1'', [inline_1]), (''UK'', [inline_uk])]
   \<and> http_status (fst (enrich_keywords_handler sample_env sample_collaborators
        numeric_country_request)) = 200
   \<and> calls (snd (enrich_keywords_handler sample_env sample_collaborators numeric_country_request))
       = [MetricsCall [Some ''isa transfer''] (Some 2826),
          MetricsCall [Some ''pension advice''] (Some 2826)]"
proof -
  have ws: "keywordsToEnrich sample_collaborators (body numeric_country_request)
      = Inr [inline_uk, inline_1]"
    by (simp add: keywordsToEnrich_def numeric_country_request_def inline_uk_def inline_1_def)
  have first: "first_occurrences (map country_of [inline_uk, inline_1]) = [''UK'', ''1'']"
    by (simp add: first_occurrences_def country_of_def or_else_def inline_uk_def inline_1_def)
  have index: "is_array_index ''1''" "\<not> is_array_index ''UK''"
    by (simp_all add: is_array_index_def is_digit_def decimal_def)
  have groups: "byCountry [inline_uk, inline_1] = Inr [(''1'', [inline_1]), (''UK'', [inline_uk])]"
    by (simp add: byCountry_def group_step_def or_else_def Let_def object_prototype_keys_def
        object_entries_def index inline_uk_def inline_1_def)
  have auth: "verifyApiKey numeric_country_request sample_env"
    by (simp add: verifyApiKey_def numeric_country_request_def sample_env_def)
  have post: "validateMethod numeric_country_request [''POST''] = Inr ()"
    by (simp add: validateMethod_def numeric_country_request_def)
  have run: "\<exists>results. enrich_groups sample_env sample_collaborators
        [(''1'', [inline_1]), (''UK'', [inline_uk])] world0 []
      = (\<lparr>calls = [MetricsCall [Some ''isa transfer''] (Some 2826),
                   MetricsCall [Some ''pension advice''] (Some 2826)],
          inserts = [], console = []\<rparr>, Inr results)"
    by (simp add: fetchDataForSEO_def sample_env_def truthy_def sample_collaborators_def
        world0_def locationCode_def COUNTRY_TO_LOCATION_def object_prototype_keys_def
        inline_uk_def inline_1_def ok_task_def first_task_result_def char_eval)
  then obtain results where run: "enrich_groups sample_env sample_collaborators
        [(''1'', [inline_1]), (''UK'', [inline_uk])] world0 []
      = (\<lparr>calls = [MetricsCall [Some ''isa transfer''] (Some 2826),
                   MetricsCall [Some ''pension advice''] (Some 2826)],
          inserts = [], console = []\<rparr>, Inr results)"
    by blast
  from auth post ws groups run
  have "http_status (fst (enrich_keywords_handler sample_env sample_collaborators
        numeric_country_request)) = 200
      \<and> calls (snd (enrich_keywords_handler sample_env sample_collaborators
        numeric_country_request))
       = [MetricsCall [Some ''isa transfer''] (Some 2826),
          MetricsCall [Some ''pension advice''] (Some 2826)]"
    by (simp del: enrich_groups.simps
        add: enrich_keywords_handler_def enrich_keywords_try_def success_def)
  with ws first groups show ?thesis by simp
qed

section \<open>Validation errors of the enrichment endpoints\<close>

lemma select_keywords_in_ok:
  "keywords_select_error X = None \<Longrightarrow> select_keywords_in X ids = Inr (rows_with_ids X ids)"
  by (simp add: select_keywords_in_def rows_with_ids_def)

lemma keywordsToEnrich_ok:
  assumes "keywords_select_error X = None"
  shows "keywordsToEnrich X b =
     (if keyword_ids b = None \<and> inline_keywords b = None then
        Inl (App (ValidationError ''Must provide either keyword_ids or keywords array'' JNull))
      else if resolved_working_set X b = [] then
        Inl (App (ValidationError ''No keywords found to enrich'' JNull))
      else if length (resolved_working_set X b) > 100 then
        Inl (App (ValidationError ''Maximum 100 keywords per request''
                   (JObj [(''received'', JNum (int (length (resolved_working_set X b)))),
                          (''maximum'', JNum 100)])))
      else Inr (resolved_working_set X b))"
  by (auto simp: keywordsToEnrich_def resolved_working_set_def select_keywords_in_ok [OF assms]
      split: option.splits list.splits)

lemma enrich_groups_Inl_configured:
  assumes "credentials_configured E"
    and "enrich_groups E X gs w acc = (w', Inl e)"
  shows "status_of e \<in> {500, 502}"
  using assms(2)
proof (induction gs arbitrary: w acc)
  case Nil
  then show ?case by simp
next
  case (Cons g gs)
  obtain c ks where g: "g = (c, ks)" by (cases g)
  from fetchDataForSEO_configured [OF assms(1), of X "map keyword_text ks" "locationCode c" w]
  obtain resp where f: "fetchDataForSEO E X (map keyword_text ks) (locationCode c) w
        = (w\<lparr>calls := calls w @ [MetricsCall (map keyword_text ks) (locationCode c)]\<rparr>, Inr resp)"
    by auto
  show ?case
  proof (cases "truthy (response_error resp)")
    case True
    with Cons.prems g f show ?thesis
      by (auto simp: status_of_def ExternalApiError_def AppError_def)
  next
    case False
    let ?w1 = "w\<lparr>calls := calls w @ [MetricsCall (map keyword_text ks) (locationCode c)]\<rparr>"
    let ?rs = "case response_results resp of None \<Rightarrow> [] | Some rs \<Rightarrow> rs"
    obtain w2 q where p: "process_results E X c ks ?rs ?w1 acc = (w2, q)"
      by (cases "process_results E X c ks ?rs ?w1 acc")
    show ?thesis
    proof (cases q)
      case (Inl e2)
      with Cons.prems g f False p have "e = e2" by simp
      with p Inl process_results_Inl [of E X c ks ?rs ?w1 acc w2 e2] show ?thesis by simp
    next
      case (Inr acc2)
      with Cons.prems g f False p have "enrich_groups E X gs w2 acc2 = (w', Inl e)" by simp
      then show ?thesis by (rule Cons.IH)
    qed
  qed
qed

lemma enrich_keywords_handler_400:
  assumes "credentials_configured E" and "keywords_select_error X = None"
    and "verifyApiKey rk E" and "validateMethod rk [''POST''] = Inr ()"
  shows "http_status (fst (enrich_keywords_handler E X rk)) = 400
     \<longleftrightarrow> (keyword_ids (body rk) = None \<and> inline_keywords (body rk) = None)
         \<or> resolved_working_set X (body rk) = []
         \<or> length (resolved_working_set X (body rk)) > 100"
proof (cases "(keyword_ids (body rk) = None \<and> inline_keywords (body rk) = None)
         \<or> resolved_working_set X (body rk) = []
         \<or> length (resolved_working_set X (body rk)) > 100")
  case True
  then obtain m d where "keywordsToEnrich X (body rk) = Inl (App (ValidationError m d))"
    using keywordsToEnrich_ok [OF assms(2), of "body rk"] by (auto split: if_splits)
  with assms(3,4) True show ?thesis
    by (simp add: enrich_keywords_handler_def enrich_keywords_try_def error_def
        ValidationError_def AppError_def)
next
  case False
  then have ws: "keywordsToEnrich X (body rk) = Inr (resolved_working_set X (body rk))"
    using keywordsToEnrich_ok [OF assms(2), of "body rk"] by auto
  let ?ws = "resolved_working_set X (body rk)"
  have "http_status (fst (enrich_keywords_handler E X rk)) \<noteq> 400"
  proof (cases "byCountry ?ws")
    case (Inl e)
    with byCountry_Inl [of ?ws e] assms(3,4) ws show ?thesis
      by (simp add: enrich_keywords_handler_def enrich_keywords_try_def http_status_error)
  next
    case (Inr gs)
    obtain w r where g: "enrich_groups E X gs world0 [] = (w, r)"
      by (cases "enrich_groups E X gs world0 []")
    show ?thesis
    proof (cases r)
      case (Inl e)
      with enrich_groups_Inl_configured [OF assms(1), of X gs world0 "[]" w e] g
      have "status_of e \<in> {500, 502}" by simp
      then have "status_of e \<noteq> 400" by auto
      with assms(3,4) ws Inr g Inl show ?thesis
        by (simp del: enrich_groups.simps
            add: enrich_keywords_handler_def enrich_keywords_try_def http_status_error)
    next
      case (Inr results)
      with assms(3,4) ws \<open>byCountry ?ws = Inr gs\<close> g show ?thesis
        by (simp del: enrich_groups.simps
            add: enrich_keywords_handler_def enrich_keywords_try_def http_status_success)
    qed
  qed
  with False show ?thesis by simp
qed

lemma enrich_keywords_handler_ceiling:
  assumes "keywords_select_error X = None"
    and "verifyApiKey rk E" and "validateMethod rk [''POST''] = Inr ()"
    and "length (resolved_working_set X (body rk)) > 100"
  shows "enrich_keywords_handler E X rk
     = (ceiling_response ''Maximum 100 keywords per request''
          (length (resolved_working_set X (body rk))) 100, world0)"
proof -
  from assms(4) have "\<not> (keyword_ids (body rk) = None \<and> inline_keywords (body rk) = None)"
    by (auto simp: resolved_working_set_def split: option.splits)
  moreover from assms(4) have "resolved_working_set X (body rk) \<noteq> []" by auto
  ultimately have "keywordsToEnrich X (body rk)
      = Inl (App (ValidationError ''Maximum 100 keywords per request''
                   (JObj [(''received'', JNum (int (length (resolved_working_set X (body rk))))),
                          (''maximum'', JNum 100)])))"
    using keywordsToEnrich_ok [OF assms(1), of "body rk"] assms(4) by auto
  with assms(2,3) show ?thesis
    by (simp add: enrich_keywords_handler_def enrich_keywords_try_def error_def
        ceiling_response_def ValidationError_def AppError_def)
qed

lemma serp_keyword_rows_ok:
  assumes "keywords_select_error X = None"
  shows "serp_keyword_rows X b =
     (case serp_keyword_ids b of
        ArrayOf ids \<Rightarrow>
          if ids = [] then Inl (App (ValidationError ''keyword_ids array cannot be empty'' JNull))
          else if length ids > 50 then
            Inl (App (ValidationError ''Maximum 50 keywords per SERP request''
                       (JObj [(''received'', JNum (int (length ids))), (''maximum'', JNum 50)])))
          else if rows_with_ids X ids = [] then
            Inl (App (ValidationError ''No keywords found with provided IDs'' JNull))
          else Inr (rows_with_ids X ids)
      | _ \<Rightarrow> serp_keyword_rows X b)"
  by (simp add: serp_keyword_rows_def validateRequired_def validateType_def actual_type_def
      elements_def select_keywords_in_ok [OF assms] split: field.splits)

lemma serp_keyword_rows_not_array:
  "(\<forall>ids. serp_keyword_ids b \<noteq> ArrayOf ids) \<Longrightarrow>
   \<exists>m d. serp_keyword_rows X b = Inl (App (ValidationError m d))"
  by (cases "serp_keyword_ids b")
     (auto simp: serp_keyword_rows_def validateRequired_def validateType_def actual_type_def
        elements_def Let_def)

lemma enrich_serp_handler_400:
  assumes "credentials_configured E" and "keywords_select_error X = None"
    and "verifyApiKey rs E" and "validateMethod rs [''POST''] = Inr ()"
  shows "http_status (fst (enrich_serp_handler E X rs)) = 400
     \<longleftrightarrow> (\<forall>ids. serp_keyword_ids (body rs) = ArrayOf ids \<longrightarrow>
            ids = [] \<or> length ids > 50 \<or> rows_with_ids X ids = [])"
proof (cases "serp_keyword_rows X (body rs)")
  case (Inl e)
  have v: "status_of e = 400"
  proof (cases "\<exists>ids. serp_keyword_ids (body rs) = ArrayOf ids")
    case True
    with Inl serp_keyword_rows_ok [OF assms(2), of "body rs"] show ?thesis
      by (auto simp: status_of_def status_ValidationError split: if_splits)
  next
    case False
    with Inl serp_keyword_rows_not_array [of "body rs" X] show ?thesis
      by (auto simp: status_of_def status_ValidationError)
  qed
  have "\<forall>ids. serp_keyword_ids (body rs) = ArrayOf ids \<longrightarrow>
            ids = [] \<or> length ids > 50 \<or> rows_with_ids X ids = []"
    using Inl serp_keyword_rows_ok [OF assms(2), of "body rs"] by (auto split: if_splits)
  moreover from v Inl assms(3,4) have "http_status (fst (enrich_serp_handler E X rs)) = 400"
    by (simp add: enrich_serp_handler_def enrich_serp_try_def http_status_error)
  ultimately show ?thesis by simp
next
  case (Inr rows)
  with enrich_serp_handler_200 (1) [OF assms(1,3,4), of X rows]
  have "http_status (fst (enrich_serp_handler E X rs)) \<noteq> 400" by auto
  moreover from Inr serp_keyword_rows_ok [OF assms(2), of "body rs"]
  have "\<exists>ids. serp_keyword_ids (body rs) = ArrayOf ids
      \<and> ids \<noteq> [] \<and> \<not> length ids > 50 \<and> rows_with_ids X ids \<noteq> []"
    using serp_keyword_rows_not_array [of "body rs" X]
    by (cases "serp_keyword_ids (body rs)") (auto split: if_splits)
  ultimately show ?thesis by auto
qed

lemma enrich_serp_handler_ceiling:
  assumes "verifyApiKey rs E" and "validateMethod rs [''POST''] = Inr ()"
    and "serp_keyword_ids (body rs) = ArrayOf ids" and "length ids > 50"
  shows "enrich_serp_handler E X rs
     = (ceiling_response ''Maximum 50 keywords per SERP request'' (length ids) 50, world0)"
proof -
  from assms(3,4) have "serp_keyword_rows X (body rs)
      = Inl (App (ValidationError ''Maximum 50 keywords per SERP request''
                   (JObj [(''received'', JNum (int (length ids))), (''maximum'', JNum 50)])))"
    by (auto simp: serp_keyword_rows_def validateRequired_def validateType_def actual_type_def
        elements_def)
  with assms(1,2) show ?thesis
    by (simp add: enrich_serp_handler_def enrich_serp_try_def error_def ceiling_response_def
        ValidationError_def AppError_def)
qed

text \<open>
  C6, as amended. For an authorized POST request, with the provider credentials
  configured and the store's select succeeding: \<open>/enrich/keywords\<close> answers with a
  validation error (400) exactly when neither \<open>keyword_ids\<close> nor inline keywords are
  provided, the resolved working set is empty (so identifiers that resolve to no
  stored row give no empty success), or the resolved working set has more than 100
  entries; \<open>/enrich/serp\<close> answers 400 exactly when \<open>keyword_ids\<close> is missing or no
  array, is empty, has more than 50 elements, or resolves to no stored row. A
  working set beyond the ceiling is answered with the error naming the maximum before
  any provider call. So 101 identifiers that resolve to 101 stored rows give the
  error naming 100, and 51 identifiers sent to \<open>/enrich/serp\<close> the error naming 50.
\<close>

theorem enrichment_validation_errors:
  assumes "credentials_configured E" and "keywords_select_error X = None"
  shows
    "(verifyApiKey rk E \<and> validateMethod rk [''POST''] = Inr () \<longrightarrow>
        (http_status (fst (enrich_keywords_handler E X rk)) = 400
           \<longleftrightarrow> (keyword_ids (body rk) = None \<and> inline_keywords (body rk) = None)
               \<or> resolved_working_set X (body rk) = []
               \<or> length (resolved_working_set X (body rk)) > 100)
        \<and> (length (resolved_working_set X (body rk)) > 100 \<longrightarrow>
             enrich_keywords_handler E X rk
               = (ceiling_response ''Maximum 100 keywords per request''
                    (length (resolved_working_set X (body rk))) 100, world0)))
     \<and> (verifyApiKey rs E \<and> validateMethod rs [''POST''] = Inr () \<longrightarrow>
        (http_status (fst (enrich_serp_handler E X rs)) = 400
           \<longleftrightarrow> (\<forall>ids. serp_keyword_ids (body rs) = ArrayOf ids \<longrightarrow>
                  ids = [] \<or> length ids > 50 \<or> rows_with_ids X ids = []))
        \<and> (\<forall>ids. serp_keyword_ids (body rs) = ArrayOf ids \<and> length ids > 50 \<longrightarrow>
             enrich_serp_handler E X rs
               = (ceiling_response ''Maximum 50 keywords per SERP request'' (length ids) 50,
                  world0)))
     \<and> calls world0 = []"
  using enrich_keywords_handler_400 [OF assms, of rk]
    enrich_keywords_handler_ceiling [OF assms(2), of rk E]
    enrich_serp_handler_400 [OF assms, of rs]
    enrich_serp_handler_ceiling [of rs E _ X]
  by (simp add: world0_def)

lemma big_table_resolved:
  "rows_with_ids big_store (map (\<lambda>n. replicate (Suc n) CHR ''k'') [0..<101]) = big_table"
proof -
  let ?P = "\<lambda>r. case kw_id r of None \<Rightarrow> False
       | Some i \<Rightarrow> i \<in> set (map (\<lambda>n. replicate (Suc n) CHR ''k'') [0..<101])"
  have "\<forall>r \<in> set big_table. ?P r"
    by (auto simp: big_table_def)
  then have "filter ?P big_table = big_table"
    by (simp only: filter_id_conv)
  moreover have "keywords_table big_store = big_table"
    by (simp add: big_store_def)
  ultimately show ?thesis
    by (simp only: rows_with_ids_def)
qed

theorem enrichment_validation_errors_witness:
  "credentials_configured sample_env \<and> keywords_select_error big_store = None
   \<and> verifyApiKey all_ids_request sample_env \<and> validateMethod all_ids_request [''POST''] = Inr ()
   \<and> length (resolved_working_set big_store (body all_ids_request)) = 101
   \<and> enrich_keywords_handler sample_env big_store all_ids_request
       = (ceiling_response ''Maximum 100 keywords per request'' 101 100, world0)
   \<and> http_status (fst (enrich_keywords_handler sample_env big_store all_ids_request)) = 400
   \<and> verifyApiKey serp_51_request sample_env \<and> validateMethod serp_51_request [''POST''] = Inr ()
   \<and> enrich_serp_handler sample_env big_store serp_51_request
       = (ceiling_response ''Maximum 50 keywords per SERP request'' 51 50, world0)
   \<and> http_status (fst (enrich_serp_handler sample_env big_store serp_51_request)) = 400
   \<and> calls world0 = []"
proof -
  have creds: "credentials_configured sample_env"
    by (simp add: credentials_configured_def sample_env_def truthy_def)
  have sel: "keywords_select_error big_store = None"
    by (simp add: big_store_def sample_collaborators_def)
  have auth: "verifyApiKey all_ids_request sample_env" "verifyApiKey serp_51_request sample_env"
    by (simp_all add: verifyApiKey_def all_ids_request_def serp_51_request_def sample_env_def)
  have post: "validateMethod all_ids_request [''POST''] = Inr ()"
    "validateMethod serp_51_request [''POST''] = Inr ()"
    by (simp_all add: validateMethod_def all_ids_request_def serp_51_request_def)
  have "resolved_working_set big_store (body all_ids_request) = big_table"
    using big_table_resolved
    by (simp add: resolved_working_set_def all_ids_request_def upt_rec [of 0] split: list.splits)
  then have n: "length (resolved_working_set big_store (body all_ids_request)) = 101"
    by (simp add: big_table_def)
  have ids: "serp_keyword_ids (body serp_51_request)
      = ArrayOf (map (\<lambda>n. replicate (Suc n) CHR ''k'') [0..<51])"
    by (simp add: serp_51_request_def)
  note spec = enrichment_validation_errors [OF creds sel, where rk = all_ids_request
      and rs = serp_51_request]
  from spec auth post n
  have k: "enrich_keywords_handler sample_env big_store all_ids_request
      = (ceiling_response ''Maximum 100 keywords per request'' 101 100, world0)"
    by simp
  from spec auth post ids
  have s: "enrich_serp_handler sample_env big_store serp_51_request
      = (ceiling_response ''Maximum 50 keywords per SERP request'' 51 50, world0)"
    by simp
  from creds sel auth post n k s show ?thesis
    by (simp add: ceiling_response_def world0_def)
qed

text \<open>
  C6 as stated fails for 101 keyword identifiers that do not all resolve: the ceiling
  of \<open>/enrich/keywords\<close> is checked on the resolved working set. Of the 101
  identifiers of this request the store knows three, and the request succeeds.
\<close>

theorem unresolved_ids_pass_the_ceiling:
  "(case keyword_ids (body many_ids_request) of None \<Rightarrow> 0 | Some ids \<Rightarrow> length ids) = 101
   \<and> resolved_working_set sample_collaborators (body many_ids_request) = sample_keywords
   \<and> http_status (fst (enrich_keywords_handler sample_env sample_collaborators many_ids_request)) = 200
   \<and> envelope (fst (enrich_keywords_handler sample_env sample_collaborators many_ids_request))
       = SuccessBody sample_entries
           [(''timestamp'', JStr (clock sample_env)), (''count'', JNum 3),
            (''message'', JStr ''Enriched 3 keywords'')]"
proof -
  have n: "(case keyword_ids (body many_ids_request) of None \<Rightarrow> 0 | Some ids \<Rightarrow> length ids) = 101"
    by (simp add: many_ids_request_def)
  have r: "resolved_working_set sample_collaborators (body many_ids_request) = sample_keywords"
    by (simp add: resolved_working_set_def rows_with_ids_def many_ids_request_def
        sample_collaborators_def sample_keywords_def kw1_def kw2_def kw3_def)
  have ws: "keywordsToEnrich sample_collaborators (body many_ids_request) = Inr sample_keywords"
    by (simp add: keywordsToEnrich_def many_ids_request_def select_keywords_in_def
        sample_collaborators_def sample_keywords_def kw1_def kw2_def kw3_def)
  have auth: "verifyApiKey many_ids_request sample_env"
    by (simp add: verifyApiKey_def many_ids_request_def sample_env_def)
  have post: "validateMethod many_ids_request [''POST''] = Inr ()"
    by (simp add: validateMethod_def many_ids_request_def)
  from auth post ws
  have "fst (enrich_keywords_handler sample_env sample_collaborators many_ids_request)
      = success (clock sample_env) sample_entries
          [(''count'', JNum 3), (''message'', JStr ''Enriched 3 keywords'')]"
    by (simp del: enrich_groups.simps
        add: enrich_keywords_handler_def enrich_keywords_try_def sample_groups
          sample_metrics_run sample_entries_def show_nat_3)
  with n r show ?thesis by (simp add: success_def)
qed

section \<open>The batch upsert of keywords\<close>

lemma conflict_columns:
  "split_on CHR '','' ''keyword_text,country'' = [''keyword_text'', ''country'']"
  by simp

lemma conflict_key_eq:
  "map (stored_column r) [''keyword_text'', ''country'']
     = map (prepared_column p) [''keyword_text'', ''country'']
   \<longleftrightarrow> stored_key r = prepared_key p"
  by (simp add: stored_column_def prepared_column_def stored_key_def prepared_key_def)

lemma conflict_key_mem:
  "map (prepared_column p) [''keyword_text'', ''country'']
     \<in> set (map (\<lambda>r. map (stored_column r) [''keyword_text'', ''country'']) table)
   \<longleftrightarrow> prepared_key p \<in> stored_key ` set table"
  by (auto simp: stored_column_def prepared_column_def stored_key_def prepared_key_def image_iff)

lemma conflict_key_mem_batch:
  "map (stored_column r) [''keyword_text'', ''country'']
     \<in> set (map (\<lambda>p. map (prepared_column p) [''keyword_text'', ''country'']) batch)
   \<longleftrightarrow> stored_key r \<in> prepared_key ` set batch"
  by (auto simp: stored_column_def prepared_column_def stored_key_def prepared_key_def image_iff)

lemma upsert_row_pairs:
  "upsert_row [''keyword_text'', ''country''] False gen table p =
     (if prepared_key p \<in> stored_key ` set table then
        map (\<lambda>r. if stored_key r = prepared_key p
                  then r\<lparr>sk_keyword_text := p_keyword_text p, sk_country := p_country p,
                         sk_cluster := p_cluster p, sk_page_id := p_page_id p\<rparr>
                  else r) table
      else
        table @ [\<lparr>sk_id = gen (length table), sk_keyword_text = p_keyword_text p,
                   sk_country = p_country p, sk_cluster = p_cluster p,
                   sk_page_id = p_page_id p\<rparr>])"
  unfolding upsert_row_def conflict_key_mem conflict_key_eq by simp

lemma map_key_merge:
  "map stored_key (map (\<lambda>r. if stored_key r = prepared_key p
                  then r\<lparr>sk_keyword_text := p_keyword_text p, sk_country := p_country p,
                         sk_cluster := p_cluster p, sk_page_id := p_page_id p\<rparr>
                  else r) table) = map stored_key table"
  by (induction table) (auto simp: stored_key_def prepared_key_def)

lemma map_key_upsert_row:
  "prepared_key p \<in> stored_key ` set table \<Longrightarrow>
   map stored_key (upsert_row [''keyword_text'', ''country''] False gen table p)
     = map stored_key table"
  by (simp only: upsert_row_pairs map_key_merge if_True)

lemma keys_upsert_row:
  "stored_key ` set (upsert_row [''keyword_text'', ''country''] False gen table p)
     = insert (prepared_key p) (stored_key ` set table)"
proof (cases "prepared_key p \<in> stored_key ` set table")
  case True
  then have "set (map stored_key (upsert_row [''keyword_text'', ''country''] False gen table p))
      = set (map stored_key table)"
    by (simp only: map_key_upsert_row)
  with True show ?thesis by (simp add: insert_absorb)
next
  case False
  then show ?thesis
    by (simp add: upsert_row_pairs stored_key_def prepared_key_def)
qed

lemma distinct_upsert_row:
  assumes "distinct (map stored_key table)"
  shows "distinct (map stored_key (upsert_row [''keyword_text'', ''country''] False gen table p))"
proof (cases "prepared_key p \<in> stored_key ` set table")
  case True
  with assms show ?thesis by (simp only: map_key_upsert_row)
next
  case False
  with assms show ?thesis
    by (simp add: upsert_row_pairs stored_key_def prepared_key_def)
qed

lemma keys_foldl_upsert:
  "stored_key ` set (foldl (upsert_row [''keyword_text'', ''country''] False gen) table batch)
     = stored_key ` set table \<union> prepared_key ` set batch"
  by (induction batch arbitrary: table) (simp_all add: keys_upsert_row)

lemma distinct_foldl_upsert:
  "distinct (map stored_key table) \<Longrightarrow>
   distinct (map stored_key (foldl (upsert_row [''keyword_text'', ''country''] False gen) table batch))"
  by (induction batch arbitrary: table) (simp_all add: distinct_upsert_row)

lemma length_filter_keys:
  assumes "distinct (map key rows)" and "K \<subseteq> key ` set rows"
  shows "length (filter (\<lambda>r. key r \<in> K) rows) = card K"
proof -
  have "length (filter (\<lambda>r. key r \<in> K) rows)
      = length (map key (filter ((\<lambda>k. k \<in> K) \<circ> key) rows))"
    by (simp add: comp_def)
  also have "\<dots> = length (filter (\<lambda>k. k \<in> K) (map key rows))"
    by (simp only: filter_map)
  also have "\<dots> = card ({k. k \<in> K} \<inter> set (map key rows))"
    using assms(1) by (rule distinct_length_filter)
  also have "{k. k \<in> K} \<inter> set (map key rows) = K"
    using assms(2) by auto
  finally show ?thesis .
qed

lemma upsert_keywords_pairs:
  assumes "upsert_error S = None"
  shows "upsert_keywords S batch \<lparr>onConflict = ''keyword_text,country'', ignoreDuplicates = False\<rparr>
     = Inr (filter (\<lambda>r. stored_key r \<in> prepared_key ` set batch)
              (foldl (upsert_row [''keyword_text'', ''country''] False (generated_id S))
                 (stored S) batch))"
  using assms
  by (simp only: upsert_keywords_def Let_def conflict_columns conflict_key_mem_batch
      upsert_options.simps option.case simp_thms)

lemma upsert_keywords_rows:
  assumes "distinct (map stored_key (stored S))" and "upsert_error S = None"
  shows "\<exists>data. upsert_keywords S batch
         \<lparr>onConflict = ''keyword_text,country'', ignoreDuplicates = False\<rparr> = Inr data
     \<and> length data = card (set (map prepared_key batch))
     \<and> distinct (map stored_key data)
     \<and> set (map stored_key data) = set (map prepared_key batch)"
proof -
  let ?t = "foldl (upsert_row [''keyword_text'', ''country''] False (generated_id S)) (stored S) batch"
  let ?K = "set (map prepared_key batch)"
  let ?data = "filter (\<lambda>r. stored_key r \<in> ?K) ?t"
  have d: "distinct (map stored_key ?t)"
    using assms(1) by (rule distinct_foldl_upsert)
  have k: "?K \<subseteq> stored_key ` set ?t"
    by (simp add: keys_foldl_upsert)
  have "upsert_keywords S batch \<lparr>onConflict = ''keyword_text,country'', ignoreDuplicates = False\<rparr>
      = Inr ?data"
    using upsert_keywords_pairs [OF assms(2), of batch] by simp
  moreover have "length ?data = card ?K"
    using d k by (rule length_filter_keys)
  moreover have "distinct (map stored_key ?data)"
    using d by (simp add: distinct_map_filter)
  moreover have "set (map stored_key ?data) = ?K"
  proof
    show "set (map stored_key ?data) \<subseteq> ?K" by auto
    show "?K \<subseteq> set (map stored_key ?data)"
    proof
      fix x assume x: "x \<in> ?K"
      with k obtain r where "r \<in> set ?t" and "stored_key r = x" by auto
      with x have "r \<in> set ?data" by simp
      with \<open>stored_key r = x\<close> show "x \<in> set (map stored_key ?data)" by force
    qed
  qed
  ultimately show ?thesis by blast
qed

lemma prepared_keys:
  "b_keywords b = ArrayOf kws \<Longrightarrow> b_country b = Some c \<Longrightarrow>
   set (map prepared_key (preparedKeywords E b))
     = (\<lambda>kw. (toLowerCase E (trim E kw), toUpperCase E c)) ` set kws"
  by (auto simp: preparedKeywords_def prepared_key_def elements_def interpolate_def)

lemma keywords_batch_try_valid:
  assumes "verifyApiKey req E" and "req_method req = ''POST''"
    and "b_keywords (body req) = ArrayOf kws" and "kws \<noteq> []" and "length kws \<le> 1000"
    and "b_country (body req) = Some c" and "toUpperCase E c \<in> set VALID_COUNTRIES"
  shows "keywords_batch_try E S req
     = (case upsert_keywords S (preparedKeywords E (body req))
               \<lparr>onConflict = ''keyword_text,country'', ignoreDuplicates = False\<rparr> of
          Inl dbError \<Rightarrow> Inl (App (mapSupabaseError dbError ''upsert''))
        | Inr data \<Rightarrow> Inr data)"
  using assms
  by (simp add: keywords_batch_try_def validateMethod_def validateRequired_def
      validateType_def validateEnum_def actual_type_def elements_def interpolate_def)

text \<open>
  C8. For every valid \<open>/keywords/batch\<close> request with at most 1000 keywords, against
  a store that keeps the pair (keyword\_text, country) unique and whose upsert does
  not fail: the handler sends the batch to the store's upsert with the conflict
  columns \<open>keyword_text,country\<close>; the response is a success and the number of rows it
  returns equals the number of distinct (text, country) pairs of the batch, the text
  taken trimmed and in lower case and the country in upper case as the handler sends
  them; the returned rows have pairwise different pairs, which are the pairs of the
  batch.
\<close>

theorem batch_rows_are_distinct_pairs:
  assumes "distinct (map stored_key (stored S))" and "upsert_error S = None"
    and "verifyApiKey req E" and "req_method req = ''POST''"
    and "b_keywords (body req) = ArrayOf kws" and "kws \<noteq> []" and "length kws \<le> 1000"
    and "b_country (body req) = Some c" and "toUpperCase E c \<in> set VALID_COUNTRIES"
  shows "keywords_batch_try E S req
         = (case upsert_keywords S (preparedKeywords E (body req))
                   \<lparr>onConflict = ''keyword_text,country'', ignoreDuplicates = False\<rparr> of
              Inl dbError \<Rightarrow> Inl (App (mapSupabaseError dbError ''upsert''))
            | Inr data \<Rightarrow> Inr data)
     \<and> split_on CHR '','' ''keyword_text,country'' = [''keyword_text'', ''country'']
     \<and> http_status (keywords_batch_handler E S req) = 200
     \<and> row_count (keywords_batch_handler E S req)
         = card ((\<lambda>kw. (toLowerCase E (trim E kw), toUpperCase E c)) ` set kws)
     \<and> (\<exists>data meta. envelope (keywords_batch_handler E S req) = SuccessBody data meta
           \<and> distinct (map stored_key data)
           \<and> set (map stored_key data)
               = (\<lambda>kw. (toLowerCase E (trim E kw), toUpperCase E c)) ` set kws)"
proof -
  from upsert_keywords_rows [OF assms(1,2), of "preparedKeywords E (body req)"]
  obtain data where u: "upsert_keywords S (preparedKeywords E (body req))
        \<lparr>onConflict = ''keyword_text,country'', ignoreDuplicates = False\<rparr> = Inr data"
    and n: "length data = card (set (map prepared_key (preparedKeywords E (body req))))"
    and d: "distinct (map stored_key data)"
    and k: "set (map stored_key data) = set (map prepared_key (preparedKeywords E (body req)))"
    by blast
  note keys = prepared_keys [OF assms(5,8), of E]
  note valid = keywords_batch_try_valid [OF assms(3-9), of S]
  from valid u have "keywords_batch_try E S req = Inr data" by simp
  then have "keywords_batch_handler E S req
      = success (clock E) data
          [(''count'', JNum (int (length data))),
           (''message'', JStr (''Successfully added '' @ show_nat (length data) @ '' keywords''))]"
    by (simp add: keywords_batch_handler_def)
  with n d k keys have "http_status (keywords_batch_handler E S req) = 200
     \<and> row_count (keywords_batch_handler E S req)
         = card ((\<lambda>kw. (toLowerCase E (trim E kw), toUpperCase E c)) ` set kws)
     \<and> (\<exists>data meta. envelope (keywords_batch_handler E S req) = SuccessBody data meta
           \<and> distinct (map stored_key data)
           \<and> set (map stored_key data)
               = (\<lambda>kw. (toLowerCase E (trim E kw), toUpperCase E c)) ` set kws)"
    by (simp add: success_def row_count_def)
  with valid conflict_columns show ?thesis by blast
qed

theorem batch_rows_are_distinct_pairs_witness:
  "distinct (map stored_key (stored sample_keyword_store))
   \<and> upsert_error sample_keyword_store = None
   \<and> verifyApiKey sample_batch_request sample_env
   \<and> req_method sample_batch_request = ''POST''
   \<and> b_keywords (body sample_batch_request)
       = ArrayOf [''Pension Advice'', '' pension advice '', ''isa transfer'']
   \<and> b_country (body sample_batch_request) = Some ''uk''
   \<and> toUpperCase sample_env ''uk'' \<in> set VALID_COUNTRIES
   \<and> http_status (keywords_batch_handler sample_env sample_keyword_store sample_batch_request) = 200
   \<and> row_count (keywords_batch_handler sample_env sample_keyword_store sample_batch_request) = 2"
proof -
  have d: "distinct (map stored_key (stored sample_keyword_store))"
    by (simp add: sample_keyword_store_def)
  have u: "upsert_error sample_keyword_store = None"
    by (simp add: sample_keyword_store_def)
  have auth: "verifyApiKey sample_batch_request sample_env"
    by (simp add: verifyApiKey_def sample_batch_request_def sample_env_def)
  have post: "req_method sample_batch_request = ''POST''"
    by (simp add: sample_batch_request_def)
  have kws: "b_keywords (body sample_batch_request)
      = ArrayOf [''Pension Advice'', '' pension advice '', ''isa transfer'']"
    by (simp add: sample_batch_request_def)
  have c: "b_country (body sample_batch_request) = Some ''uk''"
    by (simp add: sample_batch_request_def)
  have uk: "toUpperCase sample_env ''uk'' = ''UK''"
    by (simp add: char_eval)
  then have valid: "toUpperCase sample_env ''uk'' \<in> set VALID_COUNTRIES"
    by (simp add: VALID_COUNTRIES_def)
  have pairs: "(\<lambda>kw. (toLowerCase sample_env (trim sample_env kw), toUpperCase sample_env ''uk''))
        ` set [''Pension Advice'', '' pension advice '', ''isa transfer'']
      = {(''pension advice'', ''UK''), (''isa transfer'', ''UK'')}"
    by (simp add: ascii_trim_def is_space_def char_eval)
  have two: "card {(''pension advice'', ''UK''), (''isa transfer'', ''UK'')} = 2"
    by simp
  from batch_rows_are_distinct_pairs [OF d u auth post kws _ _ c valid]
    pairs two
  have "http_status (keywords_batch_handler sample_env sample_keyword_store
        sample_batch_request) = 200
      \<and> row_count (keywords_batch_handler sample_env sample_keyword_store
        sample_batch_request) = 2"
    by simp
  with d u auth post kws c valid show ?thesis by simp
qed

end
